(* ===== verification/Prelude.thy ===== *)
theory Prelude
  imports Main "HOL-Library.Sublist" "HOL-Library.AList"
begin

text \<open>
  Shared vocabulary of the development: the types that name what the script
  \<^verbatim>\<open>src/build_webui.py\<close> works with (path strings, file contents, Python
  exceptions), the state-and-exception monad every modelled statement lives in,
  and the generic list lemmas the component theories share.

  A Python statement either returns a value or raises; in both cases it may have
  changed the world before. A statement is therefore a function from the state to
  an outcome (\<open>Inl\<close> the exception raised, \<open>Inr\<close> the value returned) paired with
  the state it leaves behind. \<open>bindS\<close> is sequencing (the second statement does
  not run after a raise), \<open>for_each\<close> is the \<^verbatim>\<open>for\<close> loop over a list.
  Invariants (\<open>maintains\<close>) and frames (\<open>preserves\<close>) of statements are closed under
  the combinators, so that a property of the library calls carries over to the
  functions and to the whole run.
\<close>

section \<open>Collections of facts\<close>

named_theorems py_defs "unfolding equations of the modelled Python library functions"
named_theorems prog_simps "rewrite rules for the state-and-exception monad"
named_theorems wf_intros "well-formedness preservation facts of the file-system operations"

section \<open>Types\<close>

type_synonym path = string
type_synonym bytes = string

datatype pyerr =
    FileNotFoundError
  | FileExistsError
  | NotADirectoryError
  | IsADirectoryError
  | SameFileError
  | OSError
  | KeyError string
  | TemplateNotFound string
  | TemplateError
  | YAMLError
  | Exception string

type_synonym ('s, 'a) prog = "'s \<Rightarrow> (pyerr + 'a) \<times> 's"

section \<open>The state-and-exception monad\<close>

definition returnS :: "'a \<Rightarrow> ('s, 'a) prog" where
  "returnS x s = (Inr x, s)"

definition raiseS :: "pyerr \<Rightarrow> ('s, 'a) prog" where
  "raiseS e s = (Inl e, s)"

definition bindS :: "('s, 'a) prog \<Rightarrow> ('a \<Rightarrow> ('s, 'b) prog) \<Rightarrow> ('s, 'b) prog" where
  "bindS m f s = (case m s of (Inl e, s') \<Rightarrow> (Inl e, s') | (Inr x, s') \<Rightarrow> f x s')"

definition thenS :: "('s, 'a) prog \<Rightarrow> ('s, 'b) prog \<Rightarrow> ('s, 'b) prog" where
  "thenS m k = bindS m (\<lambda>_. k)"

definition whenS :: "bool \<Rightarrow> ('s, unit) prog \<Rightarrow> ('s, unit) prog" where
  "whenS b m = (if b then m else returnS ())"

definition getS :: "('s \<Rightarrow> 'a) \<Rightarrow> ('s, 'a) prog" where
  "getS f s = (Inr (f s), s)"

definition liftE :: "('s \<Rightarrow> pyerr + 'a) \<Rightarrow> ('s, 'a) prog" where
  "liftE f s = (f s, s)"

fun for_each :: "('a \<Rightarrow> ('s, unit) prog) \<Rightarrow> 'a list \<Rightarrow> ('s, unit) prog" where
  "for_each f [] s = (Inr (), s)"
| "for_each f (x # xs) s =
     (case f x s of (Inl e, s') \<Rightarrow> (Inl e, s') | (Inr _, s') \<Rightarrow> for_each f xs s')"

definition succeeds :: "(pyerr + 'a) \<times> 's \<Rightarrow> bool" where
  "succeeds r = (case fst r of Inl _ \<Rightarrow> False | Inr _ \<Rightarrow> True)"

definition raises :: "(pyerr + 'a) \<times> 's \<Rightarrow> pyerr \<Rightarrow> bool" where
  "raises r e = (fst r = Inl e)"

text \<open>
  \<open>maintains P m\<close>: the statement \<open>m\<close> keeps the invariant \<open>P\<close> of the state, whether
  it returns or raises. \<open>preserves f m\<close>: it leaves the part \<open>f\<close> of the state as it is.
\<close>

definition preserves :: "('s \<Rightarrow> 'b) \<Rightarrow> ('s, 'a) prog \<Rightarrow> bool" where
  "preserves f m \<longleftrightarrow> (\<forall>s. f (snd (m s)) = f s)"

definition maintains :: "('s \<Rightarrow> bool) \<Rightarrow> ('s, 'a) prog \<Rightarrow> bool" where
  "maintains P m \<longleftrightarrow> (\<forall>s. P s \<longrightarrow> P (snd (m s)))"

abbreviation final :: "(pyerr + 'a) \<times> 's \<Rightarrow> 's" where
  "final r \<equiv> snd r"

lemma returnS_apply [prog_simps, simp]: "returnS x s = (Inr x, s)"
  by (simp add: returnS_def)

lemma raiseS_apply [prog_simps, simp]: "raiseS e s = (Inl e, s)"
  by (simp add: raiseS_def)

lemma getS_apply [prog_simps, simp]: "getS f s = (Inr (f s), s)"
  by (simp add: getS_def)

lemma liftE_apply [prog_simps, simp]: "liftE f s = (f s, s)"
  by (simp add: liftE_def)

lemma bindS_Inr [prog_simps]: "m s = (Inr x, s') \<Longrightarrow> bindS m f s = f x s'"
  by (simp add: bindS_def)

lemma bindS_Inl [prog_simps]: "m s = (Inl e, s') \<Longrightarrow> bindS m f s = (Inl e, s')"
  by (simp add: bindS_def)

lemma bindS_returnS [simp]: "bindS (returnS x) f = f x"
  by (rule ext) (simp add: bindS_def)

lemma bindS_raiseS [simp]: "bindS (raiseS e) f = raiseS e"
  by (rule ext) (simp add: bindS_def)

lemma bindS_getS [simp]: "bindS (getS g) f s = f (g s) s"
  by (simp add: bindS_def)

lemma bindS_assoc: "bindS (bindS m f) g = bindS m (\<lambda>x. bindS (f x) g)"
  by (rule ext) (simp add: bindS_def split: prod.splits sum.splits)

lemma thenS_Inr [prog_simps]: "m s = (Inr x, s') \<Longrightarrow> thenS m k s = k s'"
  by (simp add: thenS_def bindS_def)

lemma thenS_Inl [prog_simps]: "m s = (Inl e, s') \<Longrightarrow> thenS m k s = (Inl e, s')"
  by (simp add: thenS_def bindS_def)

lemma whenS_True [simp]: "whenS True m = m"
  by (simp add: whenS_def)

lemma whenS_False [simp]: "whenS False m = returnS ()"
  by (simp add: whenS_def)

lemma bindS_eq_Inr_iff:
  "bindS m f s = (Inr y, t) \<longleftrightarrow> (\<exists>x s'. m s = (Inr x, s') \<and> f x s' = (Inr y, t))"
  by (cases "m s") (auto simp: bindS_def split: sum.splits)

lemma thenS_eq_Inr_iff:
  "thenS m k s = (Inr y, t) \<longleftrightarrow> (\<exists>x s'. m s = (Inr x, s') \<and> k s' = (Inr y, t))"
  by (simp add: thenS_def bindS_eq_Inr_iff)

lemma succeeds_Inr [simp]: "succeeds (Inr x, s)"
  by (simp add: succeeds_def)

lemma succeeds_Inl [simp]: "\<not> succeeds (Inl e, s)"
  by (simp add: succeeds_def)

lemma raises_Inl [simp]: "raises (Inl e, s) e' \<longleftrightarrow> e = e'"
  by (simp add: raises_def)

lemma raises_Inr [simp]: "\<not> raises (Inr x, s) e"
  by (simp add: raises_def)

lemma succeeds_iff: "succeeds r \<longleftrightarrow> (\<exists>x s. r = (Inr x, s))"
  by (cases r; cases "fst r") (auto simp: succeeds_def)

lemma succeedsE:
  assumes "succeeds r"
  obtains x s where "r = (Inr x, s)"
  using assms by (cases r; cases "fst r") (auto simp: succeeds_def)

section \<open>Loops\<close>

lemma for_each_append:
  "for_each f (xs @ ys) s =
     (case for_each f xs s of (Inl e, s') \<Rightarrow> (Inl e, s') | (Inr _, s') \<Rightarrow> for_each f ys s')"
  by (induction xs arbitrary: s) (auto split: prod.splits sum.splits)

lemma for_each_map: "for_each f (map g xs) = for_each (\<lambda>x. f (g x)) xs"
  by (rule ext, induction xs) (auto split: prod.splits sum.splits)

lemma for_each_invariant:
  assumes step: "\<And>x s. x \<in> set xs \<Longrightarrow> P s \<Longrightarrow> P (snd (f x s))"
    and init: "P s"
  shows "P (snd (for_each f xs s))"
  using assms
proof (induction xs arbitrary: s)
  case Nil
  then show ?case by simp
next
  case (Cons x xs)
  from Cons.prems have Px: "P (snd (f x s))" by simp
  show ?case
  proof (cases "f x s")
    case (Pair r s')
    with Px have "P s'" by simp
    with Cons show ?thesis
      using Pair by (cases r) auto
  qed
qed

lemma for_each_cong [fundef_cong]:
  assumes "xs = ys" and "\<And>x s. x \<in> set ys \<Longrightarrow> f x s = g x s"
  shows "for_each f xs s = for_each g ys s"
  unfolding assms(1) using assms(2)
  by (induction ys arbitrary: s) (auto split: prod.splits sum.splits)

section \<open>Invariants and frames of statements\<close>

lemma maintainsI: "(\<And>s. P s \<Longrightarrow> P (snd (m s))) \<Longrightarrow> maintains P m"
  by (simp add: maintains_def)

lemma maintainsD: "maintains P m \<Longrightarrow> P s \<Longrightarrow> P (snd (m s))"
  by (simp add: maintains_def)

lemma preserves_iff_maintains: "preserves f m \<longleftrightarrow> (\<forall>c. maintains (\<lambda>s. f s = c) m)"
  by (auto simp: preserves_def maintains_def)

lemma preservesI: "(\<And>s. f (snd (m s)) = f s) \<Longrightarrow> preserves f m"
  by (simp add: preserves_def)

lemma preservesD: "preserves f m \<Longrightarrow> f (snd (m s)) = f s"
  by (simp add: preserves_def)

lemma snd_bindS:
  "snd (bindS m k s) = (case m s of (Inl e, s') \<Rightarrow> s' | (Inr x, s') \<Rightarrow> snd (k x s'))"
  by (simp add: bindS_def split: prod.splits sum.splits)

lemma maintains_returnS: "maintains P (returnS x)"
  by (simp add: maintains_def)

lemma maintains_raiseS: "maintains P (raiseS e)"
  by (simp add: maintains_def)

lemma maintains_getS: "maintains P (getS f)"
  by (simp add: maintains_def)

lemma maintains_liftE: "maintains P (liftE f)"
  by (simp add: maintains_def)

lemma maintains_bindS:
  assumes "maintains P m" and "\<And>x. maintains P (k x)"
  shows "maintains P (bindS m k)"
proof (rule maintainsI)
  fix s assume "P s"
  with assms(1) have "P (snd (m s))" by (rule maintainsD)
  then show "P (snd (bindS m k s))"
    using assms(2) by (cases "m s") (auto simp: snd_bindS dest: maintainsD split: sum.splits)
qed

lemma maintains_thenS:
  "maintains P m \<Longrightarrow> maintains P k \<Longrightarrow> maintains P (thenS m k)"
  by (simp add: thenS_def maintains_bindS)

lemma maintains_whenS: "maintains P m \<Longrightarrow> maintains P (whenS b m)"
  by (simp add: whenS_def maintains_returnS)

lemma maintains_if:
  "(b \<Longrightarrow> maintains P m) \<Longrightarrow> (\<not> b \<Longrightarrow> maintains P k) \<Longrightarrow> maintains P (if b then m else k)"
  by simp

lemma maintains_for_each:
  assumes "\<And>x. x \<in> set xs \<Longrightarrow> maintains P (f x)"
  shows "maintains P (for_each f xs)"
  by (rule maintainsI, rule for_each_invariant) (auto dest: maintainsD [OF assms])

lemma maintains_case_sum:
  "(\<And>e. maintains P (l e)) \<Longrightarrow> (\<And>x. maintains P (r x)) \<Longrightarrow>
     maintains P (case v of Inl e \<Rightarrow> l e | Inr x \<Rightarrow> r x)"
  by (cases v) simp_all

lemma maintains_case_option:
  "maintains P n \<Longrightarrow> (\<And>x. maintains P (k x)) \<Longrightarrow>
     maintains P (case v of None \<Rightarrow> n | Some x \<Rightarrow> k x)"
  by (cases v) simp_all

lemma maintains_Let: "(\<And>x. maintains P (k x)) \<Longrightarrow> maintains P (let x = v in k x)"
  by simp

lemmas maintains_intros =
  maintains_returnS maintains_raiseS maintains_getS maintains_liftE maintains_bindS
  maintains_thenS maintains_whenS maintains_if maintains_for_each maintains_case_sum
  maintains_case_option maintains_Let

lemma preserves_returnS: "preserves f (returnS x)"
  by (simp add: preserves_def)

lemma preserves_raiseS: "preserves f (raiseS e)"
  by (simp add: preserves_def)

lemma preserves_getS: "preserves f (getS g)"
  by (simp add: preserves_def)

lemma preserves_liftE: "preserves f (liftE g)"
  by (simp add: preserves_def)

lemma preserves_bindS:
  "preserves f m \<Longrightarrow> (\<And>x. preserves f (k x)) \<Longrightarrow> preserves f (bindS m k)"
  unfolding preserves_iff_maintains by (blast intro: maintains_bindS)

lemma preserves_thenS:
  "preserves f m \<Longrightarrow> preserves f k \<Longrightarrow> preserves f (thenS m k)"
  by (simp add: thenS_def preserves_bindS)

lemma preserves_whenS: "preserves f m \<Longrightarrow> preserves f (whenS b m)"
  by (simp add: whenS_def preserves_returnS)

lemma preserves_if:
  "(b \<Longrightarrow> preserves f m) \<Longrightarrow> (\<not> b \<Longrightarrow> preserves f k) \<Longrightarrow> preserves f (if b then m else k)"
  by simp

lemma preserves_for_each:
  "(\<And>x. x \<in> set xs \<Longrightarrow> preserves f (g x)) \<Longrightarrow> preserves f (for_each g xs)"
  unfolding preserves_iff_maintains by (blast intro: maintains_for_each)

lemma preserves_case_sum:
  "(\<And>e. preserves f (l e)) \<Longrightarrow> (\<And>x. preserves f (r x)) \<Longrightarrow>
     preserves f (case v of Inl e \<Rightarrow> l e | Inr x \<Rightarrow> r x)"
  by (cases v) simp_all

lemma preserves_case_option:
  "preserves f n \<Longrightarrow> (\<And>x. preserves f (k x)) \<Longrightarrow>
     preserves f (case v of None \<Rightarrow> n | Some x \<Rightarrow> k x)"
  by (cases v) simp_all

lemma preserves_Let: "(\<And>x. preserves f (k x)) \<Longrightarrow> preserves f (let x = v in k x)"
  by simp

text \<open>A statement that leaves the whole state as it is keeps every part and invariant.\<close>

lemma preserves_all: "preserves (\<lambda>s. s) m \<Longrightarrow> preserves f m"
  by (simp add: preserves_def)

lemma maintains_all: "preserves (\<lambda>s. s) m \<Longrightarrow> maintains P m"
  by (simp add: preserves_def maintains_def)

lemmas preserves_intros =
  preserves_returnS preserves_raiseS preserves_getS preserves_liftE preserves_bindS
  preserves_thenS preserves_whenS preserves_if preserves_for_each preserves_case_sum
  preserves_case_option preserves_Let

section \<open>Lists and strings\<close>

lemma prefix_drop_length: "prefix xs ys \<Longrightarrow> xs @ drop (length xs) ys = ys"
  by (auto simp: prefix_def)

lemma not_sublist_tl: "\<not> sublist xs (y # ys) \<Longrightarrow> \<not> sublist xs ys"
  by (simp add: sublist_Cons_right)

lemma not_sublist_not_prefix: "\<not> sublist xs ys \<Longrightarrow> \<not> prefix xs ys"
  by auto

lemma sublist_of_drop: "sublist xs (drop n ys) \<Longrightarrow> sublist xs ys"
  by (metis append_take_drop_id sublist_append_leftI sublist_order.order_trans)

lemma foldl_snoc_all:
  assumes "\<And>st x. x \<in> set xs \<Longrightarrow> f st x = st @ [x]"
  shows "foldl f st xs = st @ xs"
  using assms by (induction xs arbitrary: st) auto

text \<open>The first element of a flattened list that fails a test.\<close>

lemma dropWhile_concat_map:
  assumes "\<And>x. x \<in> set xs \<Longrightarrow> g x = [] \<or> (\<exists>a. g x = [a])"
    and "dropWhile P (concat (map g xs)) = a # rest"
  shows "\<exists>ys x zs. xs = ys @ x # zs \<and> g x = [a] \<and>
    takeWhile P (concat (map g xs)) = concat (map g ys)"
  using assms
proof (induction xs)
  case Nil
  then show ?case by simp
next
  case (Cons x xs)
  show ?case
  proof (cases "dropWhile P (g x) = []")
    case False
    with Cons.prems(1) [of x] Cons.prems(2) have "g x = [a]" "\<not> P a"
      by (auto split: if_splits)
    then show ?thesis by (intro exI [of _ "[]"]) simp
  next
    case True
    then have t: "takeWhile P (g x) = g x" and all: "\<forall>b \<in> set (g x). P b"
      by (simp_all add: dropWhile_eq_Nil_conv)
    from Cons.prems(2) all have "dropWhile P (concat (map g xs)) = a # rest"
      by (simp add: dropWhile_append2)
    with Cons.IH Cons.prems(1) obtain ys y zs where "xs = ys @ y # zs" "g y = [a]"
      "takeWhile P (concat (map g xs)) = concat (map g ys)"
      by auto
    with all show ?thesis
      by (intro exI [of _ "x # ys"] exI [of _ y] exI [of _ zs]) (simp add: takeWhile_append2)
  qed
qed

end
