(* ===== verification/PyString.thy ===== *)
theory PyString
  imports Prelude
begin

text \<open>
  The methods of Python's \<^verbatim>\<open>str\<close> that \<^verbatim>\<open>src/build_webui.py\<close> calls:
  \<^verbatim>\<open>str.replace\<close> (lines 8, 22 and 24), \<^verbatim>\<open>str.startswith\<close> (line 67) and the
  truth value of a string (line 46). A Python string is modelled as a \<open>string\<close>
  (a list of characters); the script only handles path names, for which the
  difference between bytes and code points plays no role.

  \<open>str_replace s old new\<close> is \<^verbatim>\<open>s.replace(old, new)\<close>: it scans \<open>s\<close> from the left
  and replaces every occurrence of \<open>old\<close> that does not overlap a replaced one. The
  lemmas characterise it where the script relies on it: stripping a leading
  directory prefix, and being the identity on strings without an occurrence.
\<close>

section \<open>Definitions\<close>

fun replace_all :: "string \<Rightarrow> string \<Rightarrow> string \<Rightarrow> string" where
  "replace_all old new [] = []"
| "replace_all old new (c # cs) =
     (if old \<noteq> [] \<and> prefix old (c # cs)
      then new @ replace_all old new (drop (length old) (c # cs))
      else c # replace_all old new cs)"

definition str_replace :: "string \<Rightarrow> string \<Rightarrow> string \<Rightarrow> string" where
  "str_replace s old new =
     (if old = [] then new @ concat (map (\<lambda>c. c # new) s) else replace_all old new s)"

definition startswith :: "string \<Rightarrow> string \<Rightarrow> bool" where
  "startswith s p = prefix p s"

definition endswith :: "string \<Rightarrow> string \<Rightarrow> bool" where
  "endswith s p = suffix p s"

definition truthy :: "string option \<Rightarrow> bool" where
  "truthy v = (case v of None \<Rightarrow> False | Some s \<Rightarrow> s \<noteq> [])"

fun count_occ :: "string \<Rightarrow> string \<Rightarrow> nat" where
  "count_occ old [] = 0"
| "count_occ old (c # cs) =
     (if old \<noteq> [] \<and> prefix old (c # cs)
      then Suc (count_occ old (drop (length old) (c # cs)))
      else count_occ old cs)"

section \<open>The scan of \<open>replace_all\<close>\<close>

lemma replace_all_Nil_old [simp]: "replace_all [] new s = s"
  by (induction s) auto

lemma replace_all_prefix:
  "old \<noteq> [] \<Longrightarrow> replace_all old new (old @ s) = new @ replace_all old new s"
  by (cases old) auto

lemma replace_all_no_occ: "\<not> sublist old s \<Longrightarrow> replace_all old new s = s"
  by (induction s) (auto simp: sublist_Cons_right)

lemma count_occ_no_occ: "\<not> sublist old s \<Longrightarrow> count_occ old s = 0"
  by (induction s) (auto simp: sublist_Cons_right)

lemma count_occ_bound: "count_occ old s * length old \<le> length s"
proof (induction old s rule: count_occ.induct)
  case (1 old)
  then show ?case by simp
next
  case (2 old c cs)
  show ?case
  proof (cases "old \<noteq> [] \<and> prefix old (c # cs)")
    case True
    then have "length old \<le> length (c # cs)" by (auto dest: prefix_length_le)
    with True 2 show ?thesis by auto
  next
    case False
    with 2 show ?thesis by auto
  qed
qed

lemma replace_all_length:
  "int (length (replace_all old new s)) =
     int (length s) + int (count_occ old s) * (int (length new) - int (length old))"
proof (induction old new s rule: replace_all.induct)
  case (1 old new)
  then show ?case by simp
next
  case (2 old new c cs)
  show ?case
  proof (cases "old \<noteq> [] \<and> prefix old (c # cs)")
    case True
    then have "length old \<le> length (c # cs)" by (auto dest: prefix_length_le)
    with True 2 show ?thesis by (auto simp: algebra_simps)
  next
    case False
    with 2 show ?thesis by auto
  qed
qed

lemma prefix_shift_butlast:
  assumes "old \<noteq> []" and "prefix old ((c # a) @ old @ b)"
  shows "prefix old ((c # a) @ butlast old)"
proof -
  have len: "length old \<le> length ((c # a) @ butlast old)"
    using assms(1) by simp
  from assms(2) have "old = take (length old) ((c # a) @ old @ b)"
    by (metis append_eq_conv_conj prefix_def)
  also have "(c # a) @ old @ b = ((c # a) @ butlast old) @ (last old # b)"
    using assms(1) by simp
  also have "take (length old) (((c # a) @ butlast old) @ (last old # b)) =
      take (length old) ((c # a) @ butlast old)"
    using len by (simp del: append.simps append_assoc)
  finally show ?thesis by (metis take_is_prefix)
qed

text \<open>
  The first occurrence: when \<open>old\<close> does not occur in \<open>a\<close> followed by all but the
  last character of \<open>old\<close>, the scan copies \<open>a\<close>, replaces the occurrence after it
  and goes on behind it.
\<close>

lemma replace_all_first_occ:
  assumes "old \<noteq> []" and "\<not> sublist old (a @ butlast old)"
  shows "replace_all old new (a @ old @ b) = a @ new @ replace_all old new b"
  using assms
proof (induction a)
  case Nil
  then show ?case by (simp add: replace_all_prefix)
next
  case (Cons c a)
  have np: "\<not> prefix old (c # a @ old @ b)"
  proof
    assume "prefix old (c # a @ old @ b)"
    with Cons.prems(1) have "prefix old ((c # a) @ butlast old)"
      using prefix_shift_butlast [of old c a b] by simp
    then show False using Cons.prems(2) by auto
  qed
  from Cons.prems(2) have "\<not> sublist old (a @ butlast old)"
    by (simp add: sublist_Cons_right)
  with Cons.IH Cons.prems(1) np show ?case by simp
qed

text \<open>A character that the pattern does not hold separates the scan: the part
  before it, when it holds no occurrence, is kept as it is.\<close>

lemma prefix_before_sep:
  assumes "prefix old (a @ c # s)" "c \<notin> set old"
  shows "prefix old a"
  using assms by (auto simp: prefix_append prefix_Cons)

lemma replace_all_append_sep:
  assumes "c \<notin> set old" "\<not> sublist old a"
  shows "replace_all old new (a @ c # s) = a @ c # replace_all old new s"
  using assms(2)
proof (induction a)
  case Nil
  with assms(1) show ?case by (cases old) auto
next
  case (Cons x a)
  from Cons.prems have "\<not> prefix old (x # a)" "\<not> sublist old a"
    by (auto simp: sublist_Cons_right)
  with prefix_before_sep [OF _ assms(1), of "x # a" s] Cons.IH show ?case by auto
qed

lemma set_replace_all: "set (replace_all old new s) \<subseteq> set s \<union> set new"
proof (induction old new s rule: replace_all.induct)
  case (1 old new)
  then show ?case by simp
next
  case (2 old new c cs)
  have "set (drop (length old) (c # cs)) \<subseteq> set (c # cs)" by (rule set_drop_subset)
  with 2 show ?case by (auto split: if_splits)
qed

lemma replace_all_head:
  "old \<noteq> [] \<Longrightarrow> c \<noteq> hd old \<Longrightarrow> replace_all old new (c # cs) = c # replace_all old new cs"
  by (cases old) auto

section \<open>\<^verbatim>\<open>str.replace\<close>\<close>

lemma str_replace_Nil [simp]: "str_replace [] old new = (if old = [] then new else [])"
  by (simp add: str_replace_def)

lemma str_replace_prefix:
  "old \<noteq> [] \<Longrightarrow> str_replace (old @ s) old new = new @ str_replace s old new"
  by (simp add: str_replace_def replace_all_prefix)

lemma str_replace_no_occ:
  "old \<noteq> [] \<Longrightarrow> \<not> sublist old s \<Longrightarrow> str_replace s old new = s"
  by (simp add: str_replace_def replace_all_no_occ)

lemma str_replace_first_occ:
  "old \<noteq> [] \<Longrightarrow> \<not> sublist old (a @ butlast old) \<Longrightarrow>
     str_replace (a @ old @ b) old new = a @ new @ str_replace b old new"
  by (simp add: str_replace_def replace_all_first_occ)

lemma startswith_append [simp]: "startswith (p @ s) p"
  by (simp add: startswith_def)

lemma startswith_iff: "startswith s p \<longleftrightarrow> (\<exists>r. s = p @ r)"
  by (auto simp: startswith_def prefix_def)

lemma truthy_simps [simp]:
  "truthy None = False" "truthy (Some s) = (s \<noteq> [])"
  by (simp_all add: truthy_def)

lemma str_replace_append_sep:
  assumes "old \<noteq> []" "c \<notin> set old" "\<not> sublist old a"
  shows "str_replace (a @ c # s) old new = a @ c # str_replace s old new"
  using assms by (simp add: str_replace_def replace_all_append_sep)

section \<open>Properties\<close>

text \<open>
  C36. Removing a non-empty string from a name that starts with it and has no
  other occurrence of it leaves the rest of the name: this is what
  \<^verbatim>\<open>fname.replace(prefix, '')\<close> computes for a file found below the prefix.
\<close>

theorem str_replace_strip_prefix:
  "old \<noteq> [] \<Longrightarrow> \<not> sublist old s \<Longrightarrow> str_replace (old @ s) old [] = s"
  by (simp add: str_replace_prefix str_replace_no_occ)

theorem str_replace_strip_prefix_witness:
  "str_replace (''data/webui/common/'' @ ''js/app.js'') ''data/webui/common/'' [] = ''js/app.js''"
  by (rule str_replace_strip_prefix; code_simp)


end
