(* ===== verification/PyPath.thy ===== *)
theory PyPath
  imports PyString
begin

text \<open>
  The functions of \<^verbatim>\<open>os.path\<close> (the POSIX flavour, \<^verbatim>\<open>posixpath\<close>) that
  \<^verbatim>\<open>src/build_webui.py\<close> calls: \<^verbatim>\<open>os.path.join\<close> (lines 10, 12, 60, 71, 78, 85,
  96) and \<^verbatim>\<open>os.path.dirname\<close> (line 13), with \<^verbatim>\<open>os.path.basename\<close> and
  \<^verbatim>\<open>os.path.split\<close>, which \<^verbatim>\<open>shutil.copy\<close> and \<^verbatim>\<open>os.makedirs\<close> use. They are pure
  functions on path strings and are written as the library computes them: \<open>join2\<close>
  is one round of the loop of \<^verbatim>\<open>join\<close>, \<open>head_raw\<close> and \<open>basename\<close> cut the string
  behind its last separator, \<open>strip_head\<close> removes the trailing separators of a
  head that does not consist of separators only.

  The second half relates path strings to the lists of names the file system
  resolves them to: \<open>split_on\<close> cuts a string at every separator, \<open>norm_step\<close>
  consumes one component (\<^verbatim>\<open>''\<close> and \<^verbatim>\<open>.\<close> are skipped, \<^verbatim>\<open>..\<close> leaves the directory
  reached so far), \<open>walk\<close> runs it over a path. The directory part and the last
  component of a path resolve to the parent and the name of the entry, which is
  what lets \<^verbatim>\<open>prep_dst\<close> create the parent directory from the string
  \<^verbatim>\<open>os.path.dirname\<close> returns.
\<close>

section \<open>Joining\<close>

definition is_abs :: "path \<Rightarrow> bool" where
  "is_abs p = startswith p ''/''"

definition join2 :: "path \<Rightarrow> path \<Rightarrow> path" where
  "join2 a b =
     (if startswith b ''/'' then b
      else if a = [] \<or> endswith a ''/'' then a @ b
      else a @ ''/'' @ b)"

definition path_join :: "path \<Rightarrow> path list \<Rightarrow> path" where
  "path_join a ps = foldl join2 a ps"

section \<open>Splitting\<close>

definition basename :: "path \<Rightarrow> path" where
  "basename p = rev (takeWhile (\<lambda>c. c \<noteq> CHR ''/'') (rev p))"

definition head_raw :: "path \<Rightarrow> path" where
  "head_raw p = rev (dropWhile (\<lambda>c. c \<noteq> CHR ''/'') (rev p))"

definition rstrip_sep :: "path \<Rightarrow> path" where
  "rstrip_sep h = rev (dropWhile (\<lambda>c. c = CHR ''/'') (rev h))"

definition strip_head :: "path \<Rightarrow> path" where
  "strip_head h = (if h \<noteq> [] \<and> \<not> list_all (\<lambda>c. c = CHR ''/'') h then rstrip_sep h else h)"

definition dirname :: "path \<Rightarrow> path" where
  "dirname p = strip_head (head_raw p)"

definition path_split :: "path \<Rightarrow> path \<times> path" where
  "path_split p = (dirname p, basename p)"

section \<open>Components\<close>

fun split_on :: "char \<Rightarrow> string \<Rightarrow> string list" where
  "split_on c [] = [[]]"
| "split_on c (x # xs) =
     (if x = c then [] # split_on c xs
      else case split_on c xs of [] \<Rightarrow> [[x]] | y # ys \<Rightarrow> (x # y) # ys)"

definition norm_step :: "string list \<Rightarrow> string \<Rightarrow> string list" where
  "norm_step st c =
     (if c = [] \<or> c = ''.'' then st else if c = ''..'' then butlast st else st @ [c])"

definition walk :: "string list \<Rightarrow> path \<Rightarrow> string list" where
  "walk cwd p = foldl norm_step (if is_abs p then [] else cwd) (split_on CHR ''/'' p)"

definition valid_name :: "string \<Rightarrow> bool" where
  "valid_name n \<longleftrightarrow> n \<noteq> [] \<and> n \<noteq> ''.'' \<and> n \<noteq> ''..'' \<and> CHR ''/'' \<notin> set n"

definition wants_dir :: "path \<Rightarrow> bool" where
  "wants_dir p \<longleftrightarrow> basename p = [] \<or> basename p = ''.'' \<or> basename p = ''..''"

text \<open>
  \<open>join_names\<close> is the inverse of \<open>split_on\<close>: the names joined by separators. A
  path is \<open>plain\<close> when it is relative and every component is a proper name.
\<close>

fun join_names :: "string list \<Rightarrow> path" where
  "join_names [] = []"
| "join_names [n] = n"
| "join_names (n # m # ns) = n @ CHR ''/'' # join_names (m # ns)"

definition plain :: "path \<Rightarrow> bool" where
  "plain p \<longleftrightarrow> list_all valid_name (split_on CHR ''/'' p)"

section \<open>Facts about splitting\<close>

lemma takeWhile_upto: "c \<notin> set xs \<Longrightarrow> takeWhile (\<lambda>x. x \<noteq> c) (xs @ c # ys) = xs"
  by (induction xs) auto

lemma dropWhile_upto: "c \<notin> set xs \<Longrightarrow> dropWhile (\<lambda>x. x \<noteq> c) (xs @ c # ys) = c # ys"
  by (induction xs) auto

lemma takeWhile_all_ne: "c \<notin> set xs \<Longrightarrow> takeWhile (\<lambda>x. x \<noteq> c) xs = xs"
  by (induction xs) auto

lemma dropWhile_all_ne: "c \<notin> set xs \<Longrightarrow> dropWhile (\<lambda>x. x \<noteq> c) xs = []"
  by (induction xs) auto

lemma head_raw_basename [simp]: "head_raw p @ basename p = p"
  by (simp add: head_raw_def basename_def flip: rev_append)

lemma basename_no_sep [simp]: "CHR ''/'' \<notin> set (basename p)"
  unfolding basename_def set_rev by (auto dest: set_takeWhileD)

lemma basename_append_sep [simp]:
  "CHR ''/'' \<notin> set f \<Longrightarrow> basename (d @ CHR ''/'' # f) = f"
  by (simp add: basename_def takeWhile_upto)

lemma head_raw_append_sep [simp]:
  "CHR ''/'' \<notin> set f \<Longrightarrow> head_raw (d @ CHR ''/'' # f) = d @ ''/''"
  by (simp add: head_raw_def dropWhile_upto)

lemma basename_id [simp]: "CHR ''/'' \<notin> set f \<Longrightarrow> basename f = f"
  by (simp add: basename_def takeWhile_all_ne)

lemma head_raw_id [simp]: "CHR ''/'' \<notin> set f \<Longrightarrow> head_raw f = []"
  by (simp add: head_raw_def dropWhile_all_ne)

lemma head_raw_cases:
  obtains "head_raw p = []" "CHR ''/'' \<notin> set p"
  | g where "head_raw p = g @ ''/''"
proof (cases "head_raw p = []")
  case True
  then have "p = basename p" by (metis append_Nil head_raw_basename)
  then have "CHR ''/'' \<notin> set p" by (metis basename_no_sep)
  with True that(1) show ?thesis by blast
next
  case False
  then have "dropWhile (\<lambda>c. c \<noteq> CHR ''/'') (rev p) \<noteq> []" by (simp add: head_raw_def)
  then have "hd (dropWhile (\<lambda>c. c \<noteq> CHR ''/'') (rev p)) = CHR ''/''"
    using hd_dropWhile [of "\<lambda>c. c \<noteq> CHR ''/''" "rev p"] by simp
  then obtain t where "dropWhile (\<lambda>c. c \<noteq> CHR ''/'') (rev p) = CHR ''/'' # t"
    using \<open>dropWhile (\<lambda>c. c \<noteq> CHR ''/'') (rev p) \<noteq> []\<close> by (metis list.collapse)
  then have "head_raw p = rev t @ ''/''" by (simp add: head_raw_def)
  with that(2) show ?thesis by blast
qed

lemma takeWhile_eq_replicate:
  "takeWhile (\<lambda>x. x = c) xs = replicate (length (takeWhile (\<lambda>x. x = c) xs)) c"
  by (induction xs) auto

lemma rstrip_sep_decomp: "\<exists>k. h = rstrip_sep h @ replicate k CHR ''/''"
proof -
  let ?P = "\<lambda>c. c = CHR ''/''"
  let ?k = "length (takeWhile ?P (rev h))"
  have "takeWhile ?P (rev h) = replicate ?k CHR ''/''"
    by (rule takeWhile_eq_replicate)
  then have rt: "rev (takeWhile ?P (rev h)) = replicate ?k CHR ''/''"
    by (metis rev_replicate)
  have "h = rev (dropWhile ?P (rev h)) @ rev (takeWhile ?P (rev h))"
    by (metis rev_append rev_rev_ident takeWhile_dropWhile_id)
  with rt show ?thesis unfolding rstrip_sep_def by metis
qed

lemma length_rstrip_sep: "length (rstrip_sep h) \<le> length h"
  by (simp add: rstrip_sep_def length_dropWhile_le[THEN order_trans])

lemma length_strip_head: "length (strip_head h) \<le> length h"
  by (simp add: strip_head_def length_rstrip_sep)

lemma length_dirname_basename: "length (dirname p) + length (basename p) \<le> length p"
proof -
  have "length (head_raw p) + length (basename p) = length p"
    by (metis head_raw_basename length_append)
  with length_strip_head [of "head_raw p"] show ?thesis by (simp add: dirname_def)
qed

lemma dirname_shorter: "basename p \<noteq> [] \<Longrightarrow> length (dirname p) < length p"
  using length_dirname_basename [of p] by (cases "basename p") auto

lemma split_on_ne [simp]: "split_on c s \<noteq> []"
  by (cases s) (auto split: list.splits)

lemma split_on_no_sep [simp]: "c \<notin> set s \<Longrightarrow> split_on c s = [s]"
  by (induction s) auto

lemma split_on_append_sep: "split_on c (a @ c # b) = split_on c a @ split_on c b"
  by (induction a) (auto split: list.splits)

lemma split_on_snoc_sep: "split_on c (a @ [c]) = split_on c a @ [[]]"
  using split_on_append_sep [of c a "[]"] by simp

lemma norm_step_Nil [simp]: "norm_step st [] = st"
  by (simp add: norm_step_def)

lemma norm_step_valid [simp]: "valid_name c \<Longrightarrow> norm_step st c = st @ [c]"
  by (auto simp: norm_step_def valid_name_def)

lemma foldl_norm_step_replicate_sep:
  "foldl norm_step st (split_on CHR ''/'' (x @ replicate k CHR ''/'')) =
     foldl norm_step st (split_on CHR ''/'' x)"
proof (induction k)
  case 0
  then show ?case by simp
next
  case (Suc k)
  have "x @ replicate (Suc k) CHR ''/'' = (x @ replicate k CHR ''/'') @ [CHR ''/'']"
    by (simp add: replicate_append_same)
  then show ?case using Suc by (simp only: split_on_snoc_sep foldl_append) simp
qed

lemma foldl_norm_step_strip_head:
  "foldl norm_step st (split_on CHR ''/'' (strip_head h)) = foldl norm_step st (split_on CHR ''/'' h)"
proof (cases "h \<noteq> [] \<and> \<not> list_all (\<lambda>c. c = CHR ''/'') h")
  case True
  obtain k where "h = rstrip_sep h @ replicate k CHR ''/''"
    using rstrip_sep_decomp by blast
  then have "foldl norm_step st (split_on CHR ''/'' h) =
      foldl norm_step st (split_on CHR ''/'' (rstrip_sep h))"
    using foldl_norm_step_replicate_sep [of st "rstrip_sep h" k] by simp
  with True show ?thesis by (simp add: strip_head_def)
next
  case False
  then show ?thesis by (auto simp: strip_head_def)
qed

lemma is_abs_append [simp]: "x \<noteq> [] \<Longrightarrow> is_abs (x @ y) = is_abs x"
  by (cases x) (simp_all add: is_abs_def startswith_def)

lemma is_abs_strip_head: "is_abs (strip_head h) = is_abs h"
proof (cases "h \<noteq> [] \<and> \<not> list_all (\<lambda>c. c = CHR ''/'') h")
  case True
  obtain k where k: "h = rstrip_sep h @ replicate k CHR ''/''"
    using rstrip_sep_decomp by blast
  have "rstrip_sep h \<noteq> []"
  proof
    assume "rstrip_sep h = []"
    with k have "h = replicate k CHR ''/''" by simp
    then have "list_all (\<lambda>c. c = CHR ''/'') h" by (simp add: list_all_iff)
    with True show False by simp
  qed
  then have "is_abs (rstrip_sep h @ replicate k CHR ''/'') = is_abs (rstrip_sep h)"
    by (rule is_abs_append)
  with k True show ?thesis by (simp add: strip_head_def)
next
  case False
  then show ?thesis by (auto simp: strip_head_def)
qed

text \<open>
  C34. A path resolves to what its directory part resolves to, followed by its
  last component, for every path string and working directory: \<^verbatim>\<open>os.path.dirname\<close>
  of a destination names the directory that holds the destination.
\<close>

theorem walk_dirname_basename:
  "walk cwd p = norm_step (walk cwd (dirname p)) (basename p)"
proof (cases p rule: head_raw_cases)
  case 1
  then have "\<not> is_abs p" by (cases p) (auto simp: is_abs_def startswith_def)
  with 1 show ?thesis
    by (simp add: walk_def dirname_def strip_head_def is_abs_def startswith_def)
next
  case (2 g)
  have p: "p = g @ CHR ''/'' # basename p"
    using head_raw_basename [of p] 2 by simp
  from 2 have "head_raw p \<noteq> []" by simp
  then have "is_abs (head_raw p @ basename p) = is_abs (head_raw p)"
    by (rule is_abs_append)
  then have abs: "is_abs p = is_abs (dirname p)"
    by (simp add: dirname_def is_abs_strip_head)
  have "split_on CHR ''/'' p = split_on CHR ''/'' g @ [basename p]"
    by (subst p) (simp add: split_on_append_sep)
  moreover have "foldl norm_step st (split_on CHR ''/'' (dirname p)) =
      foldl norm_step st (split_on CHR ''/'' g)" for st
    using 2 by (simp add: dirname_def foldl_norm_step_strip_head split_on_snoc_sep)
  ultimately show ?thesis by (simp add: walk_def abs)
qed

section \<open>Facts about joining and resolving\<close>

lemma path_join_Nil [simp]: "path_join a [] = a"
  by (simp add: path_join_def)

lemma path_join_Cons [simp]: "path_join a (b # bs) = path_join (join2 a b) bs"
  by (simp add: path_join_def)

lemma join2_abs [simp]: "is_abs b \<Longrightarrow> join2 a b = b"
  by (simp add: join2_def is_abs_def)

lemma join2_Nil_left [simp]: "join2 [] b = b"
  by (simp add: join2_def)

lemma join2_Nil_right: "join2 a [] = (if a = [] \<or> endswith a ''/'' then a else a @ ''/'')"
  by (simp add: join2_def startswith_def)

lemma join2_rel:
  "\<not> is_abs b \<Longrightarrow> a \<noteq> [] \<Longrightarrow> \<not> endswith a ''/'' \<Longrightarrow> join2 a b = a @ ''/'' @ b"
  by (simp add: join2_def is_abs_def)

lemma join2_slash:
  "\<not> is_abs b \<Longrightarrow> join2 (a @ ''/'') b = a @ ''/'' @ b"
  by (simp add: join2_def is_abs_def endswith_def)

lemma endswith_sep_iff: "endswith a ''/'' \<longleftrightarrow> (\<exists>a'. a = a' @ ''/'')"
  by (auto simp: endswith_def suffix_def)

lemma is_abs_Nil [simp]: "\<not> is_abs []"
  by (simp add: is_abs_def startswith_def)

lemma walk_Nil [simp]: "walk cwd [] = cwd"
  by (simp add: walk_def is_abs_def startswith_def)

lemma walk_join2:
  assumes "\<not> is_abs b"
  shows "walk cwd (join2 a b) = foldl norm_step (walk cwd a) (split_on CHR ''/'' b)"
proof (cases "a = []")
  case True
  with assms show ?thesis by (simp add: walk_def)
next
  case False
  show ?thesis
  proof (cases "endswith a ''/''")
    case True
    then obtain a' where a: "a = a' @ ''/''" by (auto simp: endswith_sep_iff)
    have "join2 a b = a' @ CHR ''/'' # b" using assms a by (simp add: join2_slash)
    moreover have "is_abs (a' @ CHR ''/'' # b) = is_abs a"
      using is_abs_append [of a b] False a by simp
    ultimately show ?thesis
      by (simp add: walk_def split_on_append_sep a split_on_snoc_sep)
  next
    case nosl: False
    have "join2 a b = a @ CHR ''/'' # b" using assms False nosl by (simp add: join2_rel)
    moreover have "is_abs (a @ CHR ''/'' # b) = is_abs a"
      using is_abs_append [of a "CHR ''/'' # b"] False by simp
    ultimately show ?thesis by (simp add: walk_def split_on_append_sep)
  qed
qed

lemma foldl_norm_step_valid:
  "list_all valid_name cs \<Longrightarrow> foldl norm_step st cs = st @ cs"
  by (induction cs arbitrary: st) auto

lemma valid_name_basename [simp]: "valid_name n \<Longrightarrow> basename n = n"
  by (simp add: valid_name_def)

lemma valid_name_not_abs [simp]: "valid_name n \<Longrightarrow> \<not> is_abs n"
  by (cases n) (auto simp: valid_name_def is_abs_def startswith_def)

lemma walk_join2_name:
  "valid_name n \<Longrightarrow> walk cwd (join2 a n) = walk cwd a @ [n]"
  by (simp add: walk_join2 valid_name_def)

lemma wants_dir_valid [simp]: "valid_name (basename p) \<Longrightarrow> \<not> wants_dir p"
  by (auto simp: wants_dir_def valid_name_def)

lemma not_abs_no_sep: "CHR ''/'' \<notin> set p \<Longrightarrow> \<not> is_abs p"
  by (cases p) (auto simp: is_abs_def startswith_def)

section \<open>Resolved paths consist of proper names\<close>

lemma split_on_no_sep_elem: "x \<in> set (split_on c s) \<Longrightarrow> c \<notin> set x"
proof (induction s arbitrary: x)
  case Nil
  then show ?case by simp
next
  case (Cons a s)
  show ?case
  proof (cases "a = c")
    case True
    with Cons show ?thesis by auto
  next
    case False
    obtain y ys where ys: "split_on c s = y # ys"
      by (cases "split_on c s") simp_all
    with False Cons.prems have "x = a # y \<or> x \<in> set ys" by simp
    then show ?thesis
    proof
      assume "x = a # y"
      with False Cons.IH [of y] ys show ?thesis by simp
    next
      assume "x \<in> set ys"
      with Cons.IH [of x] ys show ?thesis by simp
    qed
  qed
qed

lemma norm_step_valid_names:
  "list_all valid_name st \<Longrightarrow> CHR ''/'' \<notin> set c \<Longrightarrow> list_all valid_name (norm_step st c)"
  by (auto simp: norm_step_def valid_name_def list_all_iff dest: in_set_butlastD)

lemma foldl_norm_step_valid_names:
  "list_all valid_name st \<Longrightarrow> (\<forall>c \<in> set cs. CHR ''/'' \<notin> set c) \<Longrightarrow>
     list_all valid_name (foldl norm_step st cs)"
  by (induction cs arbitrary: st) (auto simp: norm_step_valid_names)

lemma walk_valid_names:
  "list_all valid_name wd \<Longrightarrow> list_all valid_name (walk wd p)"
  unfolding walk_def
  by (rule foldl_norm_step_valid_names) (auto dest: split_on_no_sep_elem)

section \<open>Plain paths\<close>

lemma join_names_split_on [simp]: "join_names (split_on CHR ''/'' p) = p"
proof (induction p)
  case Nil
  then show ?case by simp
next
  case (Cons x xs)
  obtain y ys where "split_on CHR ''/'' xs = y # ys"
    by (cases "split_on CHR ''/'' xs") simp_all
  with Cons show ?case by (cases ys) auto
qed

lemma join_names_Cons: "ns \<noteq> [] \<Longrightarrow> join_names (n # ns) = n @ CHR ''/'' # join_names ns"
  by (cases ns) simp_all

lemma split_on_join_names:
  "ns \<noteq> [] \<Longrightarrow> \<forall>n \<in> set ns. CHR ''/'' \<notin> set n \<Longrightarrow> split_on CHR ''/'' (join_names ns) = ns"
proof (induction ns rule: join_names.induct)
  case (3 n m ns)
  then show ?case by (simp add: split_on_append_sep)
qed simp_all

lemma join_names_snoc:
  "ns \<noteq> [] \<Longrightarrow> join_names (ns @ [n]) = join_names ns @ CHR ''/'' # n"
  by (induction ns rule: join_names.induct) simp_all

lemma valid_name_no_sep: "valid_name n \<Longrightarrow> CHR ''/'' \<notin> set n"
  by (simp add: valid_name_def)

lemma plain_iff:
  "plain p \<longleftrightarrow> (\<exists>ns. ns \<noteq> [] \<and> list_all valid_name ns \<and> p = join_names ns)"
proof
  assume "plain p"
  then have "list_all valid_name (split_on CHR ''/'' p)" by (simp add: plain_def)
  moreover have "p = join_names (split_on CHR ''/'' p)" by simp
  ultimately show "\<exists>ns. ns \<noteq> [] \<and> list_all valid_name ns \<and> p = join_names ns"
    using split_on_ne by blast
next
  assume "\<exists>ns. ns \<noteq> [] \<and> list_all valid_name ns \<and> p = join_names ns"
  then show "plain p"
    by (auto simp: plain_def split_on_join_names list_all_iff valid_name_no_sep)
qed

lemma plain_join_names [simp]:
  "ns \<noteq> [] \<Longrightarrow> list_all valid_name ns \<Longrightarrow> plain (join_names ns)"
  by (auto simp: plain_iff)

lemma plain_not_Nil [simp]: "\<not> plain []"
  by (simp add: plain_def valid_name_def)

lemma plain_not_abs: "plain p \<Longrightarrow> \<not> is_abs p"
  by (cases p) (auto simp: plain_def is_abs_def startswith_def valid_name_def)

lemma walk_plain: "plain p \<Longrightarrow> walk wd p = wd @ split_on CHR ''/'' p"
  by (simp add: walk_def plain_not_abs foldl_norm_step_valid plain_def)

lemma walk_join_names:
  "ns \<noteq> [] \<Longrightarrow> list_all valid_name ns \<Longrightarrow> walk wd (join_names ns) = wd @ ns"
  by (simp add: walk_plain split_on_join_names list_all_iff valid_name_no_sep)

lemma join_names_not_Nil: "ns \<noteq> [] \<Longrightarrow> list_all valid_name ns \<Longrightarrow> join_names ns \<noteq> []"
  using plain_join_names plain_not_Nil by metis

lemma last_join_names:
  "ns \<noteq> [] \<Longrightarrow> list_all valid_name ns \<Longrightarrow> last (join_names ns) = last (last ns)"
  by (induction ns rule: join_names.induct) (auto simp: valid_name_def join_names_not_Nil)

lemma rstrip_sep_snoc: "x \<noteq> [] \<Longrightarrow> last x \<noteq> CHR ''/'' \<Longrightarrow> rstrip_sep (x @ ''/'') = x"
  by (cases x rule: rev_cases) (simp_all add: rstrip_sep_def)

lemma strip_head_snoc_sep:
  assumes "x \<noteq> []" "last x \<noteq> CHR ''/''"
  shows "strip_head (x @ ''/'') = x"
proof -
  from assms have "\<exists>c \<in> set x. c \<noteq> CHR ''/''" using last_in_set by blast
  then have "\<not> list_all (\<lambda>c. c = CHR ''/'') (x @ ''/'')" by (auto simp: list_all_iff)
  with assms show ?thesis by (simp add: strip_head_def rstrip_sep_snoc)
qed

lemma valid_name_last: "valid_name n \<Longrightarrow> last n \<noteq> CHR ''/''"
  by (cases n rule: rev_cases) (auto simp: valid_name_def)

lemma dirname_join_names_snoc:
  assumes "ns \<noteq> []" "list_all valid_name ns" "CHR ''/'' \<notin> set n"
  shows "dirname (join_names (ns @ [n])) = join_names ns"
proof -
  have "last (join_names ns) \<noteq> CHR ''/''"
    using assms by (simp add: last_join_names valid_name_last list_all_iff)
  with assms show ?thesis
    using strip_head_snoc_sep [of "join_names ns"]
    by (simp add: dirname_def join_names_snoc join_names_not_Nil)
qed

lemma basename_join_names_snoc:
  "ns \<noteq> [] \<Longrightarrow> CHR ''/'' \<notin> set n \<Longrightarrow> basename (join_names (ns @ [n])) = n"
  by (simp add: join_names_snoc)

lemma dirname_name [simp]: "CHR ''/'' \<notin> set n \<Longrightarrow> dirname n = []"
  by (simp add: dirname_def strip_head_def)

lemma plain_cases:
  assumes "plain p"
  obtains (single) "valid_name p" "dirname p = []" "basename p = p"
  | (nested) ns n where "ns \<noteq> []" "list_all valid_name ns" "valid_name n"
      "p = join_names (ns @ [n])" "dirname p = join_names ns" "basename p = n"
proof -
  from assms obtain ms where ms: "ms \<noteq> []" "list_all valid_name ms" "p = join_names ms"
    by (auto simp: plain_iff)
  then obtain ns n where split: "ms = ns @ [n]"
    by (cases ms rule: rev_cases) auto
  with ms have v: "list_all valid_name ns" "valid_name n" by simp_all
  show ?thesis
  proof (cases "ns = []")
    case True
    with ms split v show ?thesis by (intro single) (simp_all add: valid_name_no_sep)
  next
    case False
    with ms split v show ?thesis
      by (intro nested [of ns n])
        (simp_all add: dirname_join_names_snoc basename_join_names_snoc valid_name_no_sep)
  qed
qed

lemma join_names_append:
  "ms \<noteq> [] \<Longrightarrow> ns \<noteq> [] \<Longrightarrow> join_names (ms @ ns) = join_names ms @ CHR ''/'' # join_names ns"
  by (induction ms rule: join_names.induct) (simp_all add: join_names_Cons)

lemma plain_last: "plain p \<Longrightarrow> last p \<noteq> CHR ''/''"
  using valid_name_last last_join_names by (auto simp: plain_iff list_all_iff)

lemma plain_not_endswith_sep: "plain p \<Longrightarrow> \<not> endswith p ''/''"
  using plain_last [of p] by (auto simp: endswith_sep_iff)

lemma join2_plain:
  assumes "plain a" "plain b"
  shows "join2 a b = a @ CHR ''/'' # b"
proof -
  from assms(1) have "a \<noteq> []" by auto
  from join2_rel [OF plain_not_abs [OF assms(2)] this plain_not_endswith_sep [OF assms(1)]]
  show ?thesis by simp
qed

lemma join2_names:
  assumes "ms \<noteq> []" "list_all valid_name ms" "ns \<noteq> []" "list_all valid_name ns"
  shows "join2 (join_names ms) (join_names ns) = join_names (ms @ ns)"
  using assms by (simp add: join2_plain join_names_append)

lemma path_join_names:
  assumes "valid_name a" "list_all valid_name ns"
  shows "path_join a ns = join_names (a # ns)"
  using assms
proof (induction ns rule: rev_induct)
  case Nil
  then show ?case by simp
next
  case (snoc n ns)
  then have "path_join a (ns @ [n]) = join2 (join_names (a # ns)) (join_names [n])"
    by (simp add: path_join_def)
  also have "\<dots> = join_names ((a # ns) @ [n])"
    using snoc.prems by (intro join2_names) simp_all
  finally show ?case by simp
qed

lemma path_join_snoc: "path_join a (ns @ [n]) = join2 (path_join a ns) n"
  by (simp add: path_join_def)

lemma path_join_dir:
  assumes "valid_name a" "list_all valid_name ns"
  shows "path_join a (ns @ [[]]) = join_names (a # ns) @ ''/''"
proof -
  have "plain (join_names (a # ns))" using assms by (intro plain_join_names) simp_all
  then show ?thesis
    using assms plain_not_endswith_sep [of "join_names (a # ns)"]
      join_names_not_Nil [of "a # ns"]
    by (auto simp: path_join_snoc path_join_names join2_Nil_right simp del: join_names.simps)
qed

lemma path_join_names_append:
  assumes "ps \<noteq> []" "list_all valid_name ps" "list_all valid_name ns"
  shows "path_join (join_names ps) ns = join_names (ps @ ns)"
  using assms(3)
proof (induction ns rule: rev_induct)
  case Nil
  then show ?case by simp
next
  case (snoc n ns)
  with assms(1,2) join2_names [of "ps @ ns" "[n]"] show ?case
    by (simp add: path_join_snoc)
qed

section \<open>Properties\<close>

text \<open>
  C35. \<^verbatim>\<open>os.path.join\<close> of proper names gives a path that is cut into the same
  names again and that resolves to the working directory followed by the names.
\<close>

theorem names_roundtrip:
  "valid_name a \<Longrightarrow> list_all valid_name ns \<Longrightarrow>
     split_on CHR ''/'' (path_join a ns) = a # ns \<and> walk wd (path_join a ns) = wd @ a # ns"
  by (simp add: path_join_names walk_join_names split_on_join_names list_all_iff
      valid_name_no_sep)

theorem names_roundtrip_witness:
  "split_on CHR ''/'' (path_join ''data'' [''BUILD_TEST'', ''app.js'']) =
     ''data'' # [''BUILD_TEST'', ''app.js''] \<and>
   walk [''proj''] (path_join ''data'' [''BUILD_TEST'', ''app.js'']) =
     [''proj''] @ ''data'' # [''BUILD_TEST'', ''app.js'']"
  by (rule names_roundtrip; code_simp)

end
