(* ===== verification/FileSys.thy ===== *)
theory FileSys
  imports PyPath
begin

text \<open>
  The file system the script reads and writes, and the calls of \<^verbatim>\<open>os\<close>,
  \<^verbatim>\<open>os.path\<close>, \<^verbatim>\<open>shutil\<close> and the built-in \<^verbatim>\<open>open\<close> and \<^verbatim>\<open>print\<close> that
  \<^verbatim>\<open>src/build_webui.py\<close> makes on it.

  \<^item> A \<open>node\<close> is a regular file with its content or a directory with its entries.
    The entries are an association list: its order is the order in which
    \<^verbatim>\<open>os.scandir\<close> lists the directory, which decides the order of \<^verbatim>\<open>glob\<close>; a
    new entry is appended. \<open>wf_node\<close> says that the names of a directory are
    distinct and are proper names (\<open>valid_name\<close>).
  \<^item> The \<open>world\<close> is the tree at \<^verbatim>\<open>/\<close>, the working directory (as the list of names
    from the root) and the lines printed so far.
  \<^item> A path string is resolved by \<open>walk\<close> (theory \<open>PyPath\<close>) to a list of names;
    \<open>fs_lookup\<close> follows it from the root, \<open>fs_put\<close> stores a node under an
    existing directory, \<open>fs_del\<close> removes an entry.
  \<^item> Each library call is a definition in the state-and-exception monad, with the
    exceptions of the call as \<open>Inl\<close> results: \<open>os_mkdir\<close>, \<open>os_makedirs\<close> (the
    recursion of the library on the head of the path, with its termination
    proof), \<open>open_write\<close>, \<open>read_file\<close>, \<open>copyfile\<close>, \<open>shutil_copy\<close>,
    \<open>shutil_rmtree\<close>, \<open>print_line\<close>, and the tests \<open>os_path_exists\<close>,
    \<open>os_path_isfile\<close>, \<open>os_path_isdir\<close>.

  Not modelled: symbolic and hard links, permissions and ownership (every call is
  permitted), special files, concurrent processes. \<^verbatim>\<open>..\<close> is resolved on the path
  string, as \<^verbatim>\<open>os.path.normpath\<close> does; without symbolic links this is the
  kernel's resolution whenever the directory left behind exists.
\<close>

section \<open>The tree\<close>

datatype node = is_File: File bytes | is_Dir: Dir "(string \<times> node) list"

record world =
  root :: node
  cwd :: "string list"
  stdout :: "string list"

fun fs_lookup :: "node \<Rightarrow> string list \<Rightarrow> node option" where
  "fs_lookup n [] = Some n"
| "fs_lookup (File _) (c # cs) = None"
| "fs_lookup (Dir es) (c # cs) =
     (case map_of es c of None \<Rightarrow> None | Some n \<Rightarrow> fs_lookup n cs)"

fun fs_err :: "node \<Rightarrow> string list \<Rightarrow> pyerr" where
  "fs_err n [] = FileNotFoundError"
| "fs_err (File _) (c # cs) = NotADirectoryError"
| "fs_err (Dir es) (c # cs) =
     (case map_of es c of None \<Rightarrow> FileNotFoundError | Some n \<Rightarrow> fs_err n cs)"

fun fs_put :: "string list \<Rightarrow> node \<Rightarrow> node \<Rightarrow> node" where
  "fs_put [] v n = v"
| "fs_put (c # cs) v (File b) = File b"
| "fs_put (c # cs) v (Dir es) =
     (case map_of es c of
        None \<Rightarrow> if cs = [] then Dir (AList.update c v es) else Dir es
      | Some n \<Rightarrow> Dir (AList.update c (fs_put cs v n) es))"

fun fs_del :: "string list \<Rightarrow> node \<Rightarrow> node" where
  "fs_del [] n = n"
| "fs_del (c # cs) (File b) = File b"
| "fs_del (c # cs) (Dir es) =
     (if cs = [] then Dir (AList.delete c es)
      else case map_of es c of
          None \<Rightarrow> Dir es
        | Some n \<Rightarrow> Dir (AList.update c (fs_del cs n) es))"

fun wf_node :: "node \<Rightarrow> bool" and wf_entries :: "(string \<times> node) list \<Rightarrow> bool" where
  "wf_node (File _) = True"
| "wf_node (Dir es) = wf_entries es"
| "wf_entries [] = True"
| "wf_entries ((n, x) # es) =
     (valid_name n \<and> n \<notin> fst ` set es \<and> wf_node x \<and> wf_entries es)"

definition wf_world :: "world \<Rightarrow> bool" where
  "wf_world w \<longleftrightarrow> wf_node (root w) \<and> is_Dir (root w) \<and> list_all valid_name (cwd w)"

definition file_at :: "node \<Rightarrow> string list \<Rightarrow> bytes option" where
  "file_at t cs = (case fs_lookup t cs of Some (File b) \<Rightarrow> Some b | _ \<Rightarrow> None)"

definition dir_at :: "node \<Rightarrow> string list \<Rightarrow> bool" where
  "dir_at t cs = (case fs_lookup t cs of Some (Dir _) \<Rightarrow> True | _ \<Rightarrow> False)"

definition no_file_on :: "node \<Rightarrow> string list \<Rightarrow> bool" where
  "no_file_on t p = list_all (\<lambda>q. file_at t q = None) (prefixes p)"

section \<open>Tests of \<^verbatim>\<open>os.path\<close>\<close>

definition stat :: "world \<Rightarrow> path \<Rightarrow> node option" where
  "stat w p =
     (if p = [] then None
      else case fs_lookup (root w) (walk (cwd w) p) of
          None \<Rightarrow> None
        | Some n \<Rightarrow> if wants_dir p \<and> is_File n then None else Some n)"

definition os_path_exists :: "world \<Rightarrow> path \<Rightarrow> bool" where
  "os_path_exists w p = (stat w p \<noteq> None)"

definition os_path_isfile :: "world \<Rightarrow> path \<Rightarrow> bool" where
  "os_path_isfile w p = (case stat w p of Some (File _) \<Rightarrow> True | _ \<Rightarrow> False)"

definition os_path_isdir :: "world \<Rightarrow> path \<Rightarrow> bool" where
  "os_path_isdir w p = (case stat w p of Some (Dir _) \<Rightarrow> True | _ \<Rightarrow> False)"

definition samefile :: "world \<Rightarrow> path \<Rightarrow> path \<Rightarrow> bool" where
  "samefile w a b \<longleftrightarrow>
     stat w a \<noteq> None \<and> stat w b \<noteq> None \<and> walk (cwd w) a = walk (cwd w) b"

section \<open>Statements that change the world\<close>

definition print_line :: "string \<Rightarrow> (world, unit) prog" where
  "print_line s w = (Inr (), w\<lparr>stdout := stdout w @ [s]\<rparr>)"

definition store :: "string list \<Rightarrow> node \<Rightarrow> world \<Rightarrow> world" where
  "store cs v w = w\<lparr>root := fs_put cs v (root w)\<rparr>"

definition dot_name :: "path \<Rightarrow> bool" where
  "dot_name p \<longleftrightarrow> basename p = ''.'' \<or> basename p = ''..''"

definition at_dot :: "world \<Rightarrow> path \<Rightarrow> pyerr \<Rightarrow> pyerr" where
  "at_dot w p e =
     (case fs_lookup (root w) (walk (cwd w) (dirname p)) of
        None \<Rightarrow> fs_err (root w) (walk (cwd w) (dirname p))
      | Some (File _) \<Rightarrow> NotADirectoryError
      | Some (Dir _) \<Rightarrow> e)"

definition os_mkdir :: "path \<Rightarrow> (world, unit) prog" where
  "os_mkdir p w =
     (let cs = walk (cwd w) p in
      if p = [] then (Inl FileNotFoundError, w)
      else if dot_name p then (Inl (at_dot w p FileExistsError), w)
      else if cs = [] then (Inl FileExistsError, w)
      else case fs_lookup (root w) (butlast cs) of
          None \<Rightarrow> (Inl (fs_err (root w) (butlast cs)), w)
        | Some (File _) \<Rightarrow> (Inl NotADirectoryError, w)
        | Some (Dir es) \<Rightarrow>
            (case map_of es (last cs) of
               Some _ \<Rightarrow> (Inl FileExistsError, w)
             | None \<Rightarrow> (Inr (), store cs (Dir []) w)))"

definition mk_head :: "path \<Rightarrow> path" where
  "mk_head name = (if basename name = [] then dirname (dirname name) else dirname name)"

definition mk_tail :: "path \<Rightarrow> path" where
  "mk_tail name = (if basename name = [] then basename (dirname name) else basename name)"

lemma mk_head_shorter: "mk_tail name \<noteq> [] \<Longrightarrow> length (mk_head name) < length name"
proof (cases "basename name = []")
  case True
  assume "mk_tail name \<noteq> []"
  with True have "length (dirname (dirname name)) < length (dirname name)"
    by (simp add: mk_tail_def dirname_shorter)
  also have "length (dirname name) \<le> length name"
    using length_dirname_basename [of name] by simp
  finally show ?thesis using True by (simp add: mk_head_def)
next
  case False
  then show ?thesis by (simp add: mk_head_def dirname_shorter)
qed

function os_makedirs :: "path \<Rightarrow> (world, unit) prog" where
  "os_makedirs name w =
     (if mk_head name \<noteq> [] \<and> mk_tail name \<noteq> [] \<and> \<not> os_path_exists w (mk_head name)
      then (case os_makedirs (mk_head name) w of
              (Inl e, w') \<Rightarrow>
                if e \<noteq> FileExistsError then (Inl e, w')
                else if mk_tail name = ''.'' then (Inr (), w')
                else os_mkdir name w'
            | (Inr _, w') \<Rightarrow>
                if mk_tail name = ''.'' then (Inr (), w') else os_mkdir name w')
      else os_mkdir name w)"
  by pat_completeness auto
termination
  by (relation "measure (\<lambda>(name, w). length name)") (auto simp: mk_head_shorter)

declare os_makedirs.simps [simp del]

definition open_write :: "path \<Rightarrow> bytes \<Rightarrow> (world, unit) prog" where
  "open_write p content w =
     (let cs = walk (cwd w) p in
      if p = [] then (Inl FileNotFoundError, w)
      else if dot_name p then (Inl (at_dot w p IsADirectoryError), w)
      else if cs = [] then (Inl IsADirectoryError, w)
      else case fs_lookup (root w) (butlast cs) of
          None \<Rightarrow> (Inl (fs_err (root w) (butlast cs)), w)
        | Some (File _) \<Rightarrow> (Inl NotADirectoryError, w)
        | Some (Dir es) \<Rightarrow>
            (case map_of es (last cs) of
               Some (Dir _) \<Rightarrow> (Inl IsADirectoryError, w)
             | Some (File _) \<Rightarrow>
                 if basename p = [] then (Inl NotADirectoryError, w)
                 else (Inr (), store cs (File content) w)
             | None \<Rightarrow>
                 if basename p = [] then (Inl IsADirectoryError, w)
                 else (Inr (), store cs (File content) w)))"

definition read_file :: "path \<Rightarrow> (world, bytes) prog" where
  "read_file p w =
     (if p = [] then (Inl FileNotFoundError, w)
      else case fs_lookup (root w) (walk (cwd w) p) of
          None \<Rightarrow> (Inl (fs_err (root w) (walk (cwd w) p)), w)
        | Some (Dir _) \<Rightarrow> (Inl IsADirectoryError, w)
        | Some (File b) \<Rightarrow>
            if wants_dir p then (Inl NotADirectoryError, w) else (Inr b, w))"

definition copyfile :: "path \<Rightarrow> path \<Rightarrow> (world, unit) prog" where
  "copyfile src dst =
     bindS (getS (\<lambda>w. samefile w src dst)) (\<lambda>same.
       if same then raiseS SameFileError
       else bindS (read_file src) (\<lambda>content. open_write dst content))"

definition shutil_copy :: "path \<Rightarrow> path \<Rightarrow> (world, path) prog" where
  "shutil_copy src dst =
     bindS (getS (\<lambda>w. os_path_isdir w dst)) (\<lambda>isdir.
       let dst' = (if isdir then join2 dst (basename src) else dst)
       in bindS (copyfile src dst') (\<lambda>_. returnS dst'))"

definition shutil_rmtree :: "path \<Rightarrow> (world, unit) prog" where
  "shutil_rmtree p w =
     (let cs = walk (cwd w) p in
      case stat w p of
        None \<Rightarrow> (Inl (if p = [] then FileNotFoundError else fs_err (root w) cs), w)
      | Some (File _) \<Rightarrow> (Inl NotADirectoryError, w)
      | Some (Dir _) \<Rightarrow>
          if cs = [] \<or> dot_name p then (Inl OSError, store cs (Dir []) w)
          else (Inr (), w\<lparr>root := fs_del cs (root w)\<rparr>))"

section \<open>Lookup after an update\<close>

lemma fs_lookup_Nil_iff [simp]: "fs_lookup n [] = Some m \<longleftrightarrow> m = n"
  by auto

lemma fs_lookup_File [simp]: "fs_lookup (File b) cs = (if cs = [] then Some (File b) else None)"
  by (cases cs) auto

lemma fs_lookup_append:
  "fs_lookup n (ps @ qs) = (case fs_lookup n ps of None \<Rightarrow> None | Some m \<Rightarrow> fs_lookup m qs)"
proof (induction n ps rule: fs_lookup.induct)
  case (3 es c cs)
  then show ?case by (cases "map_of es c") auto
qed auto

lemma fs_lookup_snoc:
  "fs_lookup n (ps @ [c]) =
     (case fs_lookup n ps of Some (Dir es) \<Rightarrow> map_of es c | _ \<Rightarrow> None)"
  by (auto simp: fs_lookup_append split: option.splits node.splits)

lemma fs_put_File [simp]: "qs \<noteq> [] \<Longrightarrow> fs_put qs v (File b) = File b"
  by (cases qs) auto

lemma fs_del_File [simp]: "fs_del qs (File b) = File b"
  by (cases qs) auto

lemma fs_lookup_put_above:
  "qs \<noteq> [] \<Longrightarrow>
     fs_lookup (fs_put (ps @ qs) v t) ps = map_option (fs_put qs v) (fs_lookup t ps)"
proof (induction t ps rule: fs_lookup.induct)
  case (1 n)
  then show ?case by simp
next
  case (2 b c cs)
  then show ?case by simp
next
  case (3 es c cs)
  then show ?case
    by (cases "map_of es c") (auto simp: update_conv')
qed

lemma fs_put_prefix:
  "fs_lookup t ps = Some m \<Longrightarrow> qs \<noteq> [] \<Longrightarrow>
     fs_lookup (fs_put (ps @ qs) v t) ps = Some (fs_put qs v m)"
  by (simp add: fs_lookup_put_above)

lemma fs_lookup_put_same:
  "fs_lookup t ps = Some (Dir es) \<Longrightarrow> fs_lookup (fs_put (ps @ [c]) v t) (ps @ [c]) = Some v"
  by (simp add: fs_lookup_snoc fs_put_prefix update_conv' split: option.splits)

lemma fs_lookup_put_other:
  "y \<noteq> z \<Longrightarrow> fs_lookup (fs_put (xs @ z # zs) v t) (xs @ y # ys) = fs_lookup t (xs @ y # ys)"
proof (induction t xs rule: fs_lookup.induct)
  case (1 n)
  then show ?case
    by (cases n) (auto simp: update_conv' split: option.splits)
next
  case (2 b c cs)
  then show ?case by simp
next
  case (3 es c cs)
  then show ?case
    by (cases "map_of es c") (auto simp: update_conv')
qed

lemma fs_lookup_put_parallel:
  assumes "p \<parallel> q"
  shows "fs_lookup (fs_put p v t) q = fs_lookup t q"
proof -
  from assms obtain xs z zs y ys where "z \<noteq> y" "p = xs @ z # zs" "q = xs @ y # ys"
    by (blast dest: parallel_decomp)
  then show ?thesis using fs_lookup_put_other [of y z xs zs v t ys] by simp
qed

lemma fs_lookup_del_above:
  "qs \<noteq> [] \<Longrightarrow>
     fs_lookup (fs_del (ps @ qs) t) ps = map_option (fs_del qs) (fs_lookup t ps)"
proof (induction t ps rule: fs_lookup.induct)
  case (3 es c cs)
  then show ?case
    by (cases "map_of es c") (auto simp: update_conv' delete_conv')
qed auto

lemma fs_lookup_del_same:
  "fs_lookup (fs_del (ps @ [c]) t) (ps @ c # qs) = None"
proof (induction t ps rule: fs_lookup.induct)
  case (1 n)
  then show ?case by (cases n) (auto simp: delete_conv')
next
  case (3 es c' cs)
  then show ?case
    by (cases "map_of es c'") (auto simp: update_conv')
qed auto

lemma fs_lookup_del_other:
  "y \<noteq> z \<Longrightarrow> fs_lookup (fs_del (xs @ z # zs) t) (xs @ y # ys) = fs_lookup t (xs @ y # ys)"
proof (induction t xs rule: fs_lookup.induct)
  case (1 n)
  then show ?case
    by (cases n) (auto simp: update_conv' delete_conv' split: option.splits)
next
  case (3 es c cs)
  then show ?case
    by (cases "map_of es c") (auto simp: update_conv')
qed auto

lemma fs_lookup_del_parallel:
  assumes "p \<parallel> q"
  shows "fs_lookup (fs_del p t) q = fs_lookup t q"
proof -
  from assms obtain xs z zs y ys where "z \<noteq> y" "p = xs @ z # zs" "q = xs @ y # ys"
    by (blast dest: parallel_decomp)
  then show ?thesis using fs_lookup_del_other [of y z xs zs t ys] by simp
qed

section \<open>Well-formed trees\<close>

lemma wf_entries_iff:
  "wf_entries es \<longleftrightarrow> distinct (map fst es) \<and> (\<forall>(n, x) \<in> set es. valid_name n \<and> wf_node x)"
  by (induction es) force+

lemma wf_entries_distinct: "wf_entries es \<Longrightarrow> distinct (map fst es)"
  by (simp add: wf_entries_iff)

lemma wf_entries_map_of:
  "wf_entries es \<Longrightarrow> map_of es c = Some n \<Longrightarrow> valid_name c \<and> wf_node n"
  by (auto simp: wf_entries_iff dest!: map_of_SomeD)

lemma set_update_subset: "set (AList.update c v es) \<subseteq> insert (c, v) (set es)"
  by (induction es) auto

lemma wf_entries_update [wf_intros]:
  assumes "wf_entries es" "valid_name c" "wf_node v"
  shows "wf_entries (AList.update c v es)"
  using assms set_update_subset [of c v es]
  by (auto simp: wf_entries_iff distinct_update)

lemma set_delete_subset: "set (AList.delete c es) \<subseteq> set es"
  by (auto simp: AList.delete_eq)

lemma wf_entries_delete [wf_intros]: "wf_entries es \<Longrightarrow> wf_entries (AList.delete c es)"
  using set_delete_subset [of c es] by (auto simp: wf_entries_iff distinct_delete)

lemma wf_node_lookup:
  "wf_node t \<Longrightarrow> fs_lookup t p = Some n \<Longrightarrow> wf_node n"
proof (induction t p rule: fs_lookup.induct)
  case (3 es c cs)
  then show ?case
    by (cases "map_of es c") (auto dest: wf_entries_map_of)
qed auto

lemma wf_node_put [wf_intros]:
  "wf_node t \<Longrightarrow> wf_node v \<Longrightarrow> list_all valid_name p \<Longrightarrow> wf_node (fs_put p v t)"
proof (induction p v t rule: fs_put.induct)
  case (3 c cs v es)
  then show ?case
    by (cases "map_of es c") (auto intro!: wf_entries_update dest: wf_entries_map_of)
qed auto

lemma wf_node_del [wf_intros]: "wf_node t \<Longrightarrow> wf_node (fs_del p t)"
proof (induction p t rule: fs_del.induct)
  case (3 c cs es)
  then show ?case
    by (cases "map_of es c")
      (auto intro!: wf_entries_update wf_entries_delete dest: wf_entries_map_of)
qed auto

lemma is_Dir_put [simp]: "p \<noteq> [] \<Longrightarrow> is_Dir (fs_put p v t) = is_Dir t"
  by (cases "(p, v, t)" rule: fs_put.cases) (auto split: option.splits)

lemma is_Dir_del [simp]: "is_Dir (fs_del p t) = is_Dir t"
  by (cases "(p, t)" rule: fs_del.cases) (auto split: option.splits)

section \<open>The files and directories of a tree\<close>

lemma dir_at_iff: "dir_at t cs \<longleftrightarrow> (\<exists>es. fs_lookup t cs = Some (Dir es))"
  by (auto simp: dir_at_def split: option.splits node.splits)

lemma file_at_iff: "file_at t cs = Some b \<longleftrightarrow> fs_lookup t cs = Some (File b)"
  by (auto simp: file_at_def split: option.splits node.splits)

lemma fs_lookup_prefix_Dir:
  "fs_lookup t (q @ r) = Some m \<Longrightarrow> r \<noteq> [] \<Longrightarrow> dir_at t q"
  by (cases r) (auto simp: fs_lookup_append dir_at_def split: option.splits node.splits)

lemma dir_at_prefix: "dir_at t ps \<Longrightarrow> prefix q ps \<Longrightarrow> dir_at t q"
  by (metis append_Nil2 dir_at_iff fs_lookup_prefix_Dir prefixE)

lemma is_Dir_put_nonempty: "is_Dir m \<Longrightarrow> qs \<noteq> [] \<Longrightarrow> is_Dir (fs_put qs v m)"
  by simp

lemma fs_put_parent:
  "fs_lookup t ps = Some (Dir es) \<Longrightarrow>
     fs_lookup (fs_put (ps @ [c]) v t) ps = Some (Dir (AList.update c v es))"
  by (simp add: fs_put_prefix split: option.splits)

lemma fs_lookup_put_below:
  "fs_lookup t ps = Some (Dir es) \<Longrightarrow>
     fs_lookup (fs_put (ps @ [c]) v t) (ps @ c # r) = fs_lookup v r"
  using fs_lookup_append [of "fs_put (ps @ [c]) v t" ps "c # r"]
  by (simp add: fs_put_parent update_conv')

lemma is_File_put [simp]: "qs \<noteq> [] \<Longrightarrow> is_File (fs_put qs v m) = is_File m"
  by (cases "(qs, v, m)" rule: fs_put.cases) (auto split: option.splits)

lemma is_File_del [simp]: "is_File (fs_del qs m) = is_File m"
  by (cases "(qs, m)" rule: fs_del.cases) (auto split: option.splits)

lemma file_at_eq_kind:
  assumes eq: "fs_lookup t' q = map_option f (fs_lookup t q)"
    and keep: "\<And>b. f (File b) = File b"
    and kind: "\<And>m. is_File (f m) = is_File m"
  shows "file_at t' q = file_at t q \<and> dir_at t' q = dir_at t q"
proof (cases "fs_lookup t q")
  case None
  with eq show ?thesis by (simp add: file_at_def dir_at_def)
next
  case (Some m)
  show ?thesis
  proof (cases m)
    case (File b)
    with Some eq keep show ?thesis by (simp add: file_at_def dir_at_def)
  next
    case (Dir es)
    with kind [of m] obtain es' where "f m = Dir es'" by (cases "f m") auto
    with Some eq Dir show ?thesis by (simp add: file_at_def dir_at_def)
  qed
qed

lemma file_at_put_above [simp]:
  "qs \<noteq> [] \<Longrightarrow> file_at (fs_put (q @ qs) v t) q = file_at t q"
  using file_at_eq_kind [of "fs_put (q @ qs) v t" q "fs_put qs v" t]
  by (simp add: fs_lookup_put_above)

lemma dir_at_put_above [simp]:
  "qs \<noteq> [] \<Longrightarrow> dir_at (fs_put (q @ qs) v t) q = dir_at t q"
  using file_at_eq_kind [of "fs_put (q @ qs) v t" q "fs_put qs v" t]
  by (simp add: fs_lookup_put_above)

lemma file_at_del_above [simp]:
  "qs \<noteq> [] \<Longrightarrow> file_at (fs_del (q @ qs) t) q = file_at t q"
  using file_at_eq_kind [of "fs_del (q @ qs) t" q "fs_del qs" t]
  by (simp add: fs_lookup_del_above)

lemma dir_at_del_above [simp]:
  "qs \<noteq> [] \<Longrightarrow> dir_at (fs_del (q @ qs) t) q = dir_at t q"
  using file_at_eq_kind [of "fs_del (q @ qs) t" q "fs_del qs" t]
  by (simp add: fs_lookup_del_above)

lemma not_file_at_dir: "dir_at t q \<Longrightarrow> file_at t q = None"
  by (auto simp: dir_at_iff file_at_def)

text \<open>The three ways a path can lie relative to the entry that is written.\<close>

lemma entry_cases:
  obtains (below) r where "q = ps @ c # r"
  | (above) "prefix q ps"
  | (beside) "(ps @ [c]) \<parallel> q"
proof (cases "ps @ [c]" q rule: prefix_cases)
  case 1
  then obtain r where "q = (ps @ [c]) @ r" by (auto simp: prefix_def)
  then show ?thesis using below by simp
next
  case 2
  then have "prefix q ps" by (metis prefix_snoc strict_prefix_def)
  then show ?thesis by (rule above)
next
  case 3
  then show ?thesis by (rule beside)
qed

lemma below_is_None:
  assumes "\<not> dir_at t (ps @ [c])" and "r \<noteq> []"
  shows "fs_lookup t (ps @ c # r) = None"
proof (rule ccontr)
  assume "fs_lookup t (ps @ c # r) \<noteq> None"
  then obtain m where "fs_lookup t ((ps @ [c]) @ r) = Some m" by auto
  then have "dir_at t (ps @ [c])" using assms(2) by (rule fs_lookup_prefix_Dir)
  with assms(1) show False by simp
qed

lemma file_at_put_file:
  assumes ps: "fs_lookup t ps = Some (Dir es)"
    and nodir: "\<not> dir_at t (ps @ [c])"
  shows "file_at (fs_put (ps @ [c]) (File b) t) = (file_at t)(ps @ [c] \<mapsto> b)"
proof
  fix q
  show "file_at (fs_put (ps @ [c]) (File b) t) q = ((file_at t)(ps @ [c] \<mapsto> b)) q"
  proof (cases q ps c rule: entry_cases)
    case (below r)
    with ps below_is_None [OF nodir, of r] show ?thesis
      by (cases "r = []") (simp_all add: file_at_def fs_lookup_put_below)
  next
    case above
    then obtain r where "ps = q @ r" by (auto simp: prefix_def)
    then have "file_at (fs_put (ps @ [c]) (File b) t) q = file_at t q"
      using file_at_put_above [of "r @ [c]" q "File b" t] by simp
    moreover from above have "q \<noteq> ps @ [c]" by (auto dest: prefix_length_le)
    ultimately show ?thesis by simp
  next
    case beside
    then have "q \<noteq> ps @ [c]" by auto
    with beside show ?thesis by (simp add: file_at_def fs_lookup_put_parallel)
  qed
qed

lemma dir_at_put_file:
  assumes ps: "fs_lookup t ps = Some (Dir es)"
    and nodir: "\<not> dir_at t (ps @ [c])"
  shows "dir_at (fs_put (ps @ [c]) (File b) t) = dir_at t"
proof
  fix q
  show "dir_at (fs_put (ps @ [c]) (File b) t) q = dir_at t q"
  proof (cases q ps c rule: entry_cases)
    case (below r)
    with ps below_is_None [OF nodir, of r] nodir show ?thesis
      by (cases "r = []") (simp_all add: dir_at_def fs_lookup_put_below)
  next
    case above
    then obtain r where "ps = q @ r" by (auto simp: prefix_def)
    then show ?thesis using dir_at_put_above [of "r @ [c]" q "File b" t] by simp
  next
    case beside
    then show ?thesis by (simp add: dir_at_def fs_lookup_put_parallel)
  qed
qed

lemma file_at_put_newdir:
  assumes ps: "fs_lookup t ps = Some (Dir es)"
    and new: "fs_lookup t (ps @ [c]) = None"
  shows "file_at (fs_put (ps @ [c]) (Dir []) t) = file_at t"
proof
  fix q
  show "file_at (fs_put (ps @ [c]) (Dir []) t) q = file_at t q"
  proof (cases q ps c rule: entry_cases)
    case (below r)
    have "fs_lookup t ((ps @ [c]) @ r) = None"
      using new by (simp add: fs_lookup_append del: append_assoc)
    with below ps show ?thesis
      by (cases r) (simp_all add: file_at_def fs_lookup_put_below)
  next
    case above
    then obtain r where "ps = q @ r" by (auto simp: prefix_def)
    then show ?thesis using file_at_put_above [of "r @ [c]" q "Dir []" t] by simp
  next
    case beside
    then show ?thesis by (simp add: file_at_def fs_lookup_put_parallel)
  qed
qed

lemma dir_at_put_newdir:
  assumes ps: "fs_lookup t ps = Some (Dir es)"
    and new: "fs_lookup t (ps @ [c]) = None"
  shows "dir_at (fs_put (ps @ [c]) (Dir []) t) = (dir_at t)(ps @ [c] := True)"
proof
  fix q
  show "dir_at (fs_put (ps @ [c]) (Dir []) t) q = ((dir_at t)(ps @ [c] := True)) q"
  proof (cases q ps c rule: entry_cases)
    case (below r)
    have "fs_lookup t ((ps @ [c]) @ r) = None"
      using new by (simp add: fs_lookup_append del: append_assoc)
    with below ps show ?thesis
      by (cases r) (simp_all add: dir_at_def fs_lookup_put_below)
  next
    case above
    then obtain r where "ps = q @ r" by (auto simp: prefix_def)
    then have "dir_at (fs_put (ps @ [c]) (Dir []) t) q = dir_at t q"
      using dir_at_put_above [of "r @ [c]" q "Dir []" t] by simp
    moreover from above have "q \<noteq> ps @ [c]" by (auto dest: prefix_length_le)
    ultimately show ?thesis by simp
  next
    case beside
    then have "q \<noteq> ps @ [c]" by auto
    with beside show ?thesis by (simp add: dir_at_def fs_lookup_put_parallel)
  qed
qed

lemma file_at_del:
  "file_at (fs_del (ps @ [c]) t) q = (if prefix (ps @ [c]) q then None else file_at t q)"
proof (cases q ps c rule: entry_cases)
  case (below r)
  then show ?thesis by (simp add: file_at_def fs_lookup_del_same)
next
  case above
  then obtain r where "ps = q @ r" by (auto simp: prefix_def)
  then have "file_at (fs_del (ps @ [c]) t) q = file_at t q"
    using file_at_del_above [of "r @ [c]" q t] by simp
  moreover from above have "\<not> prefix (ps @ [c]) q"
    by (auto dest!: prefix_length_le)
  ultimately show ?thesis by simp
next
  case beside
  then have "\<not> prefix (ps @ [c]) q" by (simp add: parallel_def)
  with beside show ?thesis by (simp add: file_at_def fs_lookup_del_parallel)
qed

lemma dir_at_del:
  "dir_at (fs_del (ps @ [c]) t) q = (\<not> prefix (ps @ [c]) q \<and> dir_at t q)"
proof (cases q ps c rule: entry_cases)
  case (below r)
  then show ?thesis by (simp add: dir_at_def fs_lookup_del_same)
next
  case above
  then obtain r where "ps = q @ r" by (auto simp: prefix_def)
  then have "dir_at (fs_del (ps @ [c]) t) q = dir_at t q"
    using dir_at_del_above [of "r @ [c]" q t] by simp
  moreover from above have "\<not> prefix (ps @ [c]) q"
    by (auto dest!: prefix_length_le)
  ultimately show ?thesis by simp
next
  case beside
  then have "\<not> prefix (ps @ [c]) q" by (simp add: parallel_def)
  with beside show ?thesis by (simp add: dir_at_def fs_lookup_del_parallel)
qed

lemma no_file_on_iff: "no_file_on t p \<longleftrightarrow> (\<forall>q. prefix q p \<longrightarrow> file_at t q = None)"
  by (auto simp: no_file_on_def list_all_iff in_set_prefixes)

lemma no_file_onD: "no_file_on t p \<Longrightarrow> prefix q p \<Longrightarrow> file_at t q = None"
  by (simp add: no_file_on_iff)

lemma no_file_on_prefix: "no_file_on t p \<Longrightarrow> prefix q p \<Longrightarrow> no_file_on t q"
  by (auto simp: no_file_on_iff)

section \<open>A small tree for examples\<close>

text \<open>
  A project directory \<^verbatim>\<open>/proj\<close> with the three source trees of the web UI, a
  configuration file, an output directory left over from an earlier build, and
  the build system's project file.
\<close>

definition example_tree :: node where
  "example_tree = Dir [(''proj'', Dir [(''data'', Dir
     [(''webui'', Dir
        [(''common'', Dir [(''logo.bin'', File ''LOGO''), (''js'', Dir [(''app.js'', File ''APP'')])]),
         (''template'', Dir [(''banner.tmpl.html'', File ''<h1>{{title}}</h1>''),
                            (''style.css'', File ''CSS'')]),
         (''device_specific'', Dir [(''BUILD_TEST'', Dir [(''.keep'', File []),
                                                         (''logo.bin'', File ''TESTLOGO'')])]),
         (''config'', Dir [(''t.yaml'', File ''title'')])]),
      (''BUILD_TEST'', Dir [(''stale.txt'', File ''OLD'')])]),
     (''platformio.ini'', File ''[fujinet]'')])]"

definition example_world :: world where
  "example_world = \<lparr>root = example_tree, cwd = [''proj''], stdout = []\<rparr>"

end
