(* ===== verification/FileOps.thy ===== *)
theory FileOps
  imports FileSys
begin

text \<open>
  What the library calls of theory \<open>FileSys\<close> do to the state, in terms of the
  abstract view of the tree: the map \<open>file_at\<close> from resolved paths to file
  contents and the set \<open>dir_at\<close> of directories.
  \<^item> Frames: a call on the file system does not print and does not change the
    working directory; \<open>print_line\<close> does not touch the tree.
  \<^item> Invariant: every call maintains \<open>wf_world\<close>.
  \<^item> For each call, when it returns and what the tree is then, and that a call
    that raises has changed nothing (\<open>shutil_rmtree\<close> on \<^verbatim>\<open>.\<close> apart).
  \<^item> What a call leaves untouched in the tree: the entry at a path beside the one
    that is written.
  \<^item> Writes that fail: opening a file below a missing directory or below a regular
    file.
  The facts about \<open>os_makedirs\<close> are in theory \<open>Makedirs\<close>.
\<close>

section \<open>Parts of the state\<close>

named_theorems frame_intros "statements that leave a part of the state unchanged"

lemma store_simps [simp]:
  "root (store cs v w) = fs_put cs v (root w)"
  "cwd (store cs v w) = cwd w"
  "stdout (store cs v w) = stdout w"
  by (simp_all add: store_def)

lemma print_line_simps [simp]:
  "fst (print_line s w) = Inr ()"
  "root (snd (print_line s w)) = root w"
  "cwd (snd (print_line s w)) = cwd w"
  "stdout (snd (print_line s w)) = stdout w @ [s]"
  by (simp_all add: print_line_def)

lemma fs_lookup_None_iff: "fs_lookup t q = None \<longleftrightarrow> file_at t q = None \<and> \<not> dir_at t q"
  by (auto simp: file_at_def dir_at_def split: option.splits node.splits)

lemma walk_snoc_butlast: "cs \<noteq> [] \<Longrightarrow> butlast cs @ [last cs] = cs"
  by simp

lemma wf_world_store:
  assumes "wf_world w" "wf_node v" "list_all valid_name cs" "cs = [] \<Longrightarrow> is_Dir v"
  shows "wf_world (store cs v w)"
  using assms by (cases "cs = []") (auto simp: wf_world_def intro: wf_node_put)

lemma wf_world_walk: "wf_world w \<Longrightarrow> list_all valid_name (walk (cwd w) p)"
  by (simp add: wf_world_def walk_valid_names)

section \<open>\<^verbatim>\<open>os.mkdir\<close>\<close>

lemma os_mkdir_Inr_iff:
  "os_mkdir p w = (Inr u, w') \<longleftrightarrow>
     p \<noteq> [] \<and> \<not> dot_name p \<and> walk (cwd w) p \<noteq> [] \<and>
     dir_at (root w) (butlast (walk (cwd w) p)) \<and>
     fs_lookup (root w) (walk (cwd w) p) = None \<and>
     w' = store (walk (cwd w) p) (Dir []) w"
proof (cases "walk (cwd w) p" rule: rev_cases)
  case Nil
  then show ?thesis by (simp add: os_mkdir_def)
next
  case (snoc ps c)
  then show ?thesis
    by (auto simp: os_mkdir_def Let_def fs_lookup_snoc dir_at_def
        split: option.splits node.splits)
qed

lemma os_mkdir_state:
  "snd (os_mkdir p w) =
     (if succeeds (os_mkdir p w) then store (walk (cwd w) p) (Dir []) w else w)"
  by (auto simp: os_mkdir_def Let_def split: option.splits node.splits)

lemma os_mkdir_Inr_file_at:
  assumes "os_mkdir p w = (Inr u, w')"
  shows "file_at (root w') = file_at (root w)"
proof -
  from assms obtain es where "fs_lookup (root w) (butlast (walk (cwd w) p)) = Some (Dir es)"
    by (auto simp: os_mkdir_Inr_iff dir_at_iff)
  with assms show ?thesis
    using file_at_put_newdir [of "root w" "butlast (walk (cwd w) p)" es "last (walk (cwd w) p)"]
    by (simp add: os_mkdir_Inr_iff)
qed

lemma os_mkdir_file_at [simp]: "file_at (root (snd (os_mkdir p w))) = file_at (root w)"
proof (cases "os_mkdir p w")
  case (Pair r w')
  then show ?thesis
    using os_mkdir_state [of p w] os_mkdir_Inr_file_at [of p w _ w']
    by (cases r) auto
qed

lemma os_mkdir_dir_at:
  assumes "os_mkdir p w = (Inr u, w')"
  shows "dir_at (root w') = (dir_at (root w))(walk (cwd w) p := True)"
proof -
  from assms obtain es where "fs_lookup (root w) (butlast (walk (cwd w) p)) = Some (Dir es)"
    by (auto simp: os_mkdir_Inr_iff dir_at_iff)
  with assms show ?thesis
    using dir_at_put_newdir [of "root w" "butlast (walk (cwd w) p)" es "last (walk (cwd w) p)"]
    by (simp add: os_mkdir_Inr_iff)
qed

lemma os_mkdir_dir_mono: "dir_at (root w) q \<Longrightarrow> dir_at (root (snd (os_mkdir p w))) q"
proof (cases "os_mkdir p w")
  case (Pair r w')
  assume "dir_at (root w) q"
  with Pair show ?thesis
    using os_mkdir_state [of p w] os_mkdir_dir_at [of p w _ w']
    by (cases r) auto
qed

lemma os_mkdir_wf [wf_intros]: "maintains wf_world (os_mkdir p)"
  by (rule maintainsI)
    (auto simp: os_mkdir_state os_mkdir_Inr_iff intro!: wf_world_store wf_world_walk)

lemma os_mkdir_frame [frame_intros]:
  "preserves cwd (os_mkdir p)" "preserves stdout (os_mkdir p)"
  by (simp_all add: preserves_def os_mkdir_state)

section \<open>Plain paths in the tree\<close>

lemma stat_proper:
  "p \<noteq> [] \<Longrightarrow> \<not> wants_dir p \<Longrightarrow> stat w p = fs_lookup (root w) (walk (cwd w) p)"
  by (simp add: stat_def split: option.splits)

lemma plain_basename: "plain p \<Longrightarrow> valid_name (basename p)"
  by (cases p rule: plain_cases) simp_all

lemma plain_proper [simp]:
  assumes "plain p"
  shows "p \<noteq> []" "\<not> wants_dir p" "\<not> dot_name p" "basename p \<noteq> []"
  using assms plain_basename [OF assms]
  by (auto simp: dot_name_def wants_dir_def valid_name_def)

lemma stat_plain: "plain p \<Longrightarrow> stat w p = fs_lookup (root w) (walk (cwd w) p)"
  by (simp add: stat_proper)

lemma exists_plain:
  "plain p \<Longrightarrow> os_path_exists w p \<longleftrightarrow> fs_lookup (root w) (walk (cwd w) p) \<noteq> None"
  by (simp add: os_path_exists_def stat_plain)

section \<open>Tests\<close>

lemma stat_Nil [simp]: "stat w [] = None"
  by (simp add: stat_def)

lemma os_path_isfile_iff:
  "os_path_isfile w p \<longleftrightarrow>
     p \<noteq> [] \<and> \<not> wants_dir p \<and> file_at (root w) (walk (cwd w) p) \<noteq> None"
  by (auto simp: os_path_isfile_def stat_def file_at_def split: option.splits node.splits)

lemma os_path_isdir_iff: "os_path_isdir w p \<longleftrightarrow> p \<noteq> [] \<and> dir_at (root w) (walk (cwd w) p)"
  by (auto simp: os_path_isdir_def stat_def dir_at_def split: option.splits node.splits)

lemma os_path_exists_iff:
  "os_path_exists w p \<longleftrightarrow>
     p \<noteq> [] \<and> (dir_at (root w) (walk (cwd w) p) \<or>
       \<not> wants_dir p \<and> file_at (root w) (walk (cwd w) p) \<noteq> None)"
  by (auto simp: os_path_exists_def stat_def dir_at_def file_at_def
      split: option.splits node.splits)

section \<open>Reading and writing files\<close>

lemma read_file_state [simp]: "snd (read_file p w) = w"
  by (simp add: read_file_def split: option.splits node.splits)

lemma read_file_Inr_iff:
  "read_file p w = (Inr b, w') \<longleftrightarrow>
     w' = w \<and> p \<noteq> [] \<and> \<not> wants_dir p \<and> file_at (root w) (walk (cwd w) p) = Some b"
  by (auto simp: read_file_def file_at_iff split: option.splits node.splits)

lemma read_file_isfile:
  "os_path_isfile w p \<Longrightarrow> read_file p w = (Inr (the (file_at (root w) (walk (cwd w) p))), w)"
  by (auto simp: read_file_Inr_iff os_path_isfile_iff)

lemma open_write_Inr_iff:
  "open_write p b w = (Inr u, w') \<longleftrightarrow>
     p \<noteq> [] \<and> \<not> dot_name p \<and> basename p \<noteq> [] \<and> walk (cwd w) p \<noteq> [] \<and>
     dir_at (root w) (butlast (walk (cwd w) p)) \<and> \<not> dir_at (root w) (walk (cwd w) p) \<and>
     w' = store (walk (cwd w) p) (File b) w"
proof (cases "walk (cwd w) p" rule: rev_cases)
  case Nil
  then show ?thesis by (simp add: open_write_def)
next
  case (snoc ps c)
  then show ?thesis
    by (auto simp: open_write_def Let_def fs_lookup_snoc dir_at_def
        split: option.splits node.splits)
qed

lemma open_write_state:
  "snd (open_write p b w) =
     (if succeeds (open_write p b w) then store (walk (cwd w) p) (File b) w else w)"
  by (auto simp: open_write_def Let_def split: option.splits node.splits)

lemma open_write_effect:
  assumes "open_write p b w = (Inr u, w')"
  shows "file_at (root w') = (file_at (root w))(walk (cwd w) p \<mapsto> b)"
    and "dir_at (root w') = dir_at (root w)"
proof -
  let ?cs = "walk (cwd w) p"
  from assms obtain es where es: "fs_lookup (root w) (butlast ?cs) = Some (Dir es)"
    and cs: "butlast ?cs @ [last ?cs] = ?cs" and nd: "\<not> dir_at (root w) ?cs"
    and w': "w' = store ?cs (File b) w"
    by (auto simp: open_write_Inr_iff dir_at_iff)
  from nd cs have nd': "\<not> dir_at (root w) (butlast ?cs @ [last ?cs])" by simp
  show "file_at (root w') = (file_at (root w))(?cs \<mapsto> b)"
    using file_at_put_file [OF es nd', of b] cs w' by simp
  show "dir_at (root w') = dir_at (root w)"
    using dir_at_put_file [OF es nd', of b] cs w' by simp
qed

lemma open_write_wf [wf_intros]: "maintains wf_world (open_write p b)"
  by (rule maintainsI)
    (auto simp: open_write_state succeeds_iff open_write_Inr_iff
      intro!: wf_world_store wf_world_walk)

lemma open_write_frame [frame_intros]:
  "preserves cwd (open_write p b)" "preserves stdout (open_write p b)"
  by (simp_all add: preserves_def open_write_state)

lemma read_file_frame [frame_intros]: "preserves f (read_file p)"
  by (simp add: preserves_def)

lemma read_file_wf [wf_intros]: "maintains P (read_file p)"
  by (simp add: maintains_def)

lemma print_line_frame [frame_intros]:
  "preserves root (print_line s)" "preserves cwd (print_line s)"
  by (simp_all add: preserves_def)

lemma print_line_wf [wf_intros]: "maintains wf_world (print_line s)"
  by (simp add: maintains_def wf_world_def)

section \<open>\<^verbatim>\<open>shutil.copy\<close>\<close>

lemma copyfile_Inr_iff:
  "copyfile src dst w = (Inr u, w') \<longleftrightarrow>
     \<not> samefile w src dst \<and>
     (\<exists>b. read_file src w = (Inr b, w) \<and> open_write dst b w = (Inr u, w'))"
proof (cases "read_file src w")
  case (Pair r v)
  then have "v = w" using read_file_state [of src w] by simp
  with Pair show ?thesis
    by (cases r) (simp_all add: copyfile_def bindS_def)
qed

lemma copyfile_wf [wf_intros]: "maintains wf_world (copyfile src dst)"
  unfolding copyfile_def by (intro maintains_intros wf_intros)

lemma copyfile_frame [frame_intros]:
  "preserves cwd (copyfile src dst)" "preserves stdout (copyfile src dst)"
  unfolding copyfile_def by (intro preserves_intros frame_intros)+

lemma shutil_copy_wf [wf_intros]: "maintains wf_world (shutil_copy src dst)"
  unfolding shutil_copy_def Let_def by (intro maintains_intros wf_intros)

lemma shutil_copy_frame [frame_intros]:
  "preserves cwd (shutil_copy src dst)" "preserves stdout (shutil_copy src dst)"
  unfolding shutil_copy_def Let_def by (intro preserves_intros frame_intros)+

lemma shutil_copy_Inr_iff:
  "shutil_copy src dst w = (Inr d, w') \<longleftrightarrow>
     d = (if os_path_isdir w dst then join2 dst (basename src) else dst) \<and>
     copyfile src d w = (Inr (), w')"
  by (auto simp: shutil_copy_def Let_def bindS_eq_Inr_iff)

lemma shutil_copy_file:
  assumes "os_path_isfile w src"
    and "dst \<noteq> []" "\<not> dot_name dst" "basename dst \<noteq> []" "walk (cwd w) dst \<noteq> []"
    and "dir_at (root w) (butlast (walk (cwd w) dst))"
    and "\<not> dir_at (root w) (walk (cwd w) dst)"
    and "walk (cwd w) src \<noteq> walk (cwd w) dst"
  shows "shutil_copy src dst w =
    (Inr dst, store (walk (cwd w) dst) (File (the (file_at (root w) (walk (cwd w) src)))) w)"
  using assms
  by (simp add: shutil_copy_Inr_iff copyfile_Inr_iff os_path_isdir_iff samefile_def
      read_file_isfile open_write_Inr_iff)

section \<open>\<^verbatim>\<open>shutil.rmtree\<close>\<close>

lemma shutil_rmtree_Inr_iff:
  "shutil_rmtree p w = (Inr u, w') \<longleftrightarrow>
     os_path_isdir w p \<and> walk (cwd w) p \<noteq> [] \<and> \<not> dot_name p \<and>
     w' = w\<lparr>root := fs_del (walk (cwd w) p) (root w)\<rparr>"
  by (auto simp: shutil_rmtree_def os_path_isdir_def Let_def split: option.splits node.splits)

lemma file_at_fs_del:
  "cs \<noteq> [] \<Longrightarrow> file_at (fs_del cs t) q = (if prefix cs q then None else file_at t q)"
  by (cases cs rule: rev_cases) (simp_all add: file_at_del)

lemma dir_at_fs_del:
  "cs \<noteq> [] \<Longrightarrow> dir_at (fs_del cs t) q \<longleftrightarrow> \<not> prefix cs q \<and> dir_at t q"
  by (cases cs rule: rev_cases) (simp_all add: dir_at_del)

lemma shutil_rmtree_effect:
  assumes "shutil_rmtree p w = (Inr u, w')"
  shows "file_at (root w') q = (if prefix (walk (cwd w) p) q then None else file_at (root w) q)"
    and "dir_at (root w') q \<longleftrightarrow> \<not> prefix (walk (cwd w) p) q \<and> dir_at (root w) q"
    and "cwd w' = cwd w" and "stdout w' = stdout w"
  using assms by (simp_all add: shutil_rmtree_Inr_iff file_at_fs_del dir_at_fs_del)

lemma wf_world_del: "wf_world w \<Longrightarrow> wf_world (w\<lparr>root := fs_del cs (root w)\<rparr>)"
  by (simp add: wf_world_def wf_node_del)

lemma shutil_rmtree_wf [wf_intros]: "maintains wf_world (shutil_rmtree p)"
  by (rule maintainsI)
    (auto simp: shutil_rmtree_def Let_def split: option.splits node.splits
      intro!: wf_world_del wf_world_store wf_world_walk)

lemma shutil_rmtree_frame [frame_intros]:
  "preserves cwd (shutil_rmtree p)" "preserves stdout (shutil_rmtree p)"
  by (auto simp: preserves_def shutil_rmtree_def Let_def split: option.splits node.splits)

section \<open>Further facts about the calls\<close>

lemma shutil_copy_effect:
  assumes "shutil_copy src dst w = (Inr d, w')" "\<not> os_path_isdir w dst"
  shows "d = dst"
    and "file_at (root w') =
      (file_at (root w))(walk (cwd w) dst \<mapsto> the (file_at (root w) (walk (cwd w) src)))"
    and "dir_at (root w') = dir_at (root w)"
proof -
  from assms show "d = dst" by (simp add: shutil_copy_Inr_iff)
  with assms obtain b where b: "file_at (root w) (walk (cwd w) src) = Some b"
    and ow: "open_write dst b w = (Inr (), w')"
    by (auto simp: shutil_copy_Inr_iff copyfile_Inr_iff read_file_Inr_iff)
  from open_write_effect [OF ow] b
  show "file_at (root w') =
      (file_at (root w))(walk (cwd w) dst \<mapsto> the (file_at (root w) (walk (cwd w) src)))"
    and "dir_at (root w') = dir_at (root w)"
    by simp_all
qed

lemma stat_cong:
  "root w' = root w \<Longrightarrow> cwd w' = cwd w \<Longrightarrow> stat w' = stat w"
  by (rule ext) (simp add: stat_def)

lemma tests_cong:
  assumes "root w' = root w" "cwd w' = cwd w"
  shows "os_path_exists w' = os_path_exists w" "os_path_isfile w' = os_path_isfile w"
    "os_path_isdir w' = os_path_isdir w"
  using stat_cong [OF assms]
  by (auto simp: os_path_exists_def os_path_isfile_def os_path_isdir_def fun_eq_iff)

lemma os_path_isfile_eqI:
  "file_at (root w') = file_at (root w) \<Longrightarrow> cwd w' = cwd w \<Longrightarrow>
     os_path_isfile w' p = os_path_isfile w p"
  by (simp add: os_path_isfile_iff)

lemma read_file_cong:
  "root w' = root w \<Longrightarrow> cwd w' = cwd w \<Longrightarrow> fst (read_file p w') = fst (read_file p w)"
  by (simp add: read_file_def split: option.splits node.splits)

lemma open_write_names:
  assumes "list_all valid_name (ds @ [n])"
    and "dir_at (root w) (cwd w @ ds)" "\<not> dir_at (root w) (cwd w @ ds @ [n])"
  shows "open_write (join_names (ds @ [n])) b w = (Inr (), store (cwd w @ ds @ [n]) (File b) w)"
proof -
  have "plain (join_names (ds @ [n]))" using assms(1) by (intro plain_join_names) simp_all
  moreover have "walk (cwd w) (join_names (ds @ [n])) = cwd w @ ds @ [n]"
    using assms(1) by (simp add: walk_join_names)
  ultimately show ?thesis using assms(2,3) by (simp add: open_write_Inr_iff butlast_append)
qed

lemma printed_state:
  assumes "w0 = snd (print_line s w)"
  shows "root w0 = root w" "cwd w0 = cwd w" "stdout w0 = stdout w @ [s]"
    "w0 = w\<lparr>stdout := stdout w @ [s]\<rparr>"
  by (simp_all add: assms print_line_def)

lemma read_file_pure: "preserves (\<lambda>w. w) (read_file p)"
  by (simp add: preserves_def)

section \<open>What a call leaves untouched in the tree\<close>

lemma fs_lookup_prefix_exists:
  "fs_lookup t q \<noteq> None \<Longrightarrow> prefix cs q \<Longrightarrow> fs_lookup t cs \<noteq> None"
  by (auto simp: prefix_def fs_lookup_append split: option.splits)

lemma parallel_new:
  assumes "fs_lookup t q \<noteq> None" "fs_lookup t cs = None" "\<not> prefix q cs"
  shows "cs \<parallel> q"
  using assms fs_lookup_prefix_exists [of t q cs] by (auto simp: parallel_def)

lemma os_mkdir_lookup_frame:
  assumes "fs_lookup (root w) q \<noteq> None" "\<not> prefix q (walk (cwd w) p)"
  shows "fs_lookup (root (snd (os_mkdir p w))) q = fs_lookup (root w) q"
proof (cases "succeeds (os_mkdir p w)")
  case True
  then have "fs_lookup (root w) (walk (cwd w) p) = None"
    by (auto simp: succeeds_iff os_mkdir_Inr_iff)
  with assms have "walk (cwd w) p \<parallel> q" by (intro parallel_new)
  with True show ?thesis by (simp add: os_mkdir_state fs_lookup_put_parallel)
next
  case False
  then show ?thesis by (simp add: os_mkdir_state)
qed

lemma os_mkdir_names_lookup_frame:
  assumes "list_all valid_name ns" "ns \<noteq> []"
    and "fs_lookup (root w) q \<noteq> None" "\<not> prefix q (cwd w @ ns)"
  shows "fs_lookup (root (snd (os_mkdir (join_names ns) w))) q = fs_lookup (root w) q"
  using assms os_mkdir_lookup_frame [of w q "join_names ns"] by (simp add: walk_join_names)

lemma open_write_lookup_frame:
  assumes "walk (cwd w) p \<parallel> q"
  shows "fs_lookup (root (snd (open_write p b w))) q = fs_lookup (root w) q"
  using assms by (simp add: open_write_state fs_lookup_put_parallel)

lemma shutil_rmtree_lookup_frame:
  assumes "shutil_rmtree p w = (Inr u, w')" "walk (cwd w) p \<parallel> q"
  shows "fs_lookup (root w') q = fs_lookup (root w) q"
  using assms by (auto simp: shutil_rmtree_Inr_iff fs_lookup_del_parallel)

section \<open>Writes that fail\<close>

text \<open>Opening a file for writing below a directory that does not exist, or below
  a regular file.\<close>

lemma fs_err_missing:
  "fs_lookup t p = None \<Longrightarrow> (\<And>q. prefix q p \<Longrightarrow> file_at t q = None) \<Longrightarrow>
     fs_err t p = FileNotFoundError"
proof (induction t p rule: fs_err.induct)
  case (1 n)
  then show ?case by simp
next
  case (2 b c cs)
  from 2(2) [of "[]"] show ?case by (simp add: file_at_def)
next
  case (3 es c cs)
  show ?case
  proof (cases "map_of es c")
    case None
    then show ?thesis by simp
  next
    case (Some n)
    have "file_at n q = None" if "prefix q cs" for q
      using 3(3) [of "c # q"] that Some by (simp add: file_at_def)
    with 3(1) [OF Some] 3(2) Some show ?thesis by simp
  qed
qed

lemma open_write_names_missing:
  assumes "list_all valid_name (ds @ [n])" "fs_lookup (root w) (cwd w @ ds) = None"
    and "\<And>q. prefix q (cwd w @ ds) \<Longrightarrow> file_at (root w) q = None"
  shows "open_write (join_names (ds @ [n])) b w = (Inl FileNotFoundError, w)"
proof -
  have "plain (join_names (ds @ [n]))" using assms(1) by (intro plain_join_names) simp_all
  moreover have "walk (cwd w) (join_names (ds @ [n])) = cwd w @ ds @ [n]"
    using assms(1) by (simp add: walk_join_names)
  ultimately show ?thesis
    using assms(2) fs_err_missing [OF assms(2,3)]
    by (simp add: open_write_def butlast_append)
qed

lemma open_write_names_below_file:
  assumes "list_all valid_name (ds @ [n])" "file_at (root w) (cwd w @ ds) = Some x"
  shows "open_write (join_names (ds @ [n])) b w = (Inl NotADirectoryError, w)"
proof -
  have "plain (join_names (ds @ [n]))" using assms(1) by (intro plain_join_names) simp_all
  moreover have "walk (cwd w) (join_names (ds @ [n])) = cwd w @ ds @ [n]"
    using assms(1) by (simp add: walk_join_names)
  ultimately show ?thesis
    using assms(2) by (simp add: open_write_def butlast_append file_at_iff)
qed

section \<open>Properties\<close>

text \<open>
  C18. \<^verbatim>\<open>shutil.rmtree\<close> on an existing directory that is not the root and is
  not named by \<^verbatim>\<open>.\<close> or \<^verbatim>\<open>..\<close> returns; afterwards nothing exists at or below
  the directory and everything else is as before.
\<close>

theorem shutil_rmtree_removes:
  assumes "os_path_isdir w p" "walk (cwd w) p \<noteq> []" "\<not> dot_name p"
  shows "fst (shutil_rmtree p w) = Inr () \<and>
    (\<forall>q. file_at (root (snd (shutil_rmtree p w))) q =
          (if prefix (walk (cwd w) p) q then None else file_at (root w) q)) \<and>
    (\<forall>q. dir_at (root (snd (shutil_rmtree p w))) q \<longleftrightarrow>
          \<not> prefix (walk (cwd w) p) q \<and> dir_at (root w) q)"
proof -
  have "shutil_rmtree p w = (Inr (), w\<lparr>root := fs_del (walk (cwd w) p) (root w)\<rparr>)"
    using assms by (simp add: shutil_rmtree_Inr_iff)
  then show ?thesis using assms(2) by (simp add: file_at_fs_del dir_at_fs_del)
qed

theorem shutil_rmtree_removes_witness:
  "fst (shutil_rmtree ''data/BUILD_TEST'' example_world) = Inr () \<and>
    (\<forall>q. file_at (root (snd (shutil_rmtree ''data/BUILD_TEST'' example_world))) q =
          (if prefix (walk (cwd example_world) ''data/BUILD_TEST'') q then None
           else file_at (root example_world) q)) \<and>
    (\<forall>q. dir_at (root (snd (shutil_rmtree ''data/BUILD_TEST'' example_world))) q \<longleftrightarrow>
          \<not> prefix (walk (cwd example_world) ''data/BUILD_TEST'') q \<and>
          dir_at (root example_world) q)"
  by (rule shutil_rmtree_removes; code_simp)

end
