(* ===== verification/Makedirs.thy ===== *)
theory Makedirs
  imports FileOps
begin

text \<open>
  \<^verbatim>\<open>os.makedirs\<close>, the call of line 15 of \<^verbatim>\<open>src/build_webui.py\<close>, as theory
  \<open>FileSys\<close> defines it (\<open>os_makedirs\<close>, the recursion of the library on the head
  of its argument).
  \<^item> For every argument: an invariant or a part of the state that \<open>os_mkdir\<close>
    keeps is kept by \<open>os_makedirs\<close>; it never changes a file and never removes a
    directory.
  \<^item> On plain paths (relative, every component a proper name) the recursion
    unfolds along the names: with no file in the way it returns, and the
    directories are then the old ones and the prefixes of the path; with a file in
    the way it raises and has created nothing; an entry that is not on the path is
    left as it is.
\<close>

section \<open>For every argument\<close>

lemma os_makedirs_maintains:
  assumes "\<And>p. maintains P (os_mkdir p)"
  shows "maintains P (os_makedirs name)"
proof (rule maintainsI)
  fix w assume "P w"
  then show "P (snd (os_makedirs name w))"
  proof (induction name w rule: os_makedirs.induct)
    case (1 name w)
    show ?case
    proof (cases "mk_head name \<noteq> [] \<and> mk_tail name \<noteq> [] \<and> \<not> os_path_exists w (mk_head name)")
      case True
      with 1 have "P (snd (os_makedirs (mk_head name) w))" by simp
      with True show ?thesis
        by (subst os_makedirs.simps)
          (auto split: prod.splits sum.splits dest: maintainsD [OF assms])
    next
      case False
      with 1 show ?thesis
        by (subst os_makedirs.simps) (auto dest: maintainsD [OF assms])
    qed
  qed
qed

lemma os_makedirs_wf [wf_intros]: "maintains wf_world (os_makedirs name)"
  by (rule os_makedirs_maintains) (rule os_mkdir_wf)

lemma os_makedirs_preserves:
  assumes "\<And>p. preserves f (os_mkdir p)"
  shows "preserves f (os_makedirs name)"
  using assms unfolding preserves_iff_maintains by (blast intro: os_makedirs_maintains)

lemma os_makedirs_frame [frame_intros]:
  "preserves cwd (os_makedirs name)" "preserves stdout (os_makedirs name)"
  by (rule os_makedirs_preserves, rule os_mkdir_frame)+

lemma os_makedirs_file_at [simp]:
  "file_at (root (snd (os_makedirs name w))) = file_at (root w)"
  using os_makedirs_maintains [of "\<lambda>v. file_at (root v) = file_at (root w)" name]
  by (simp add: maintains_def)

lemma os_makedirs_dir_mono:
  "dir_at (root w) q \<Longrightarrow> dir_at (root (snd (os_makedirs name w))) q"
  using os_makedirs_maintains [of "\<lambda>v. dir_at (root v) q" name]
  by (simp add: maintains_def os_mkdir_dir_mono)

section \<open>Unfolding on plain paths\<close>

lemma mk_head_tail_snoc:
  assumes "ns \<noteq> []" "list_all valid_name ns" "valid_name n"
  shows "mk_head (join_names (ns @ [n])) = join_names ns"
    and "mk_tail (join_names (ns @ [n])) = n"
  using assms
  by (simp_all add: mk_head_def mk_tail_def dirname_join_names_snoc
      basename_join_names_snoc valid_name_no_sep valid_name_def)

lemma mk_head_name: "valid_name n \<Longrightarrow> mk_head n = []"
  by (simp add: mk_head_def valid_name_no_sep valid_name_def)

lemma os_makedirs_single: "valid_name n \<Longrightarrow> os_makedirs n w = os_mkdir n w"
  by (subst os_makedirs.simps) (simp add: mk_head_name)

lemma os_makedirs_snoc:
  assumes "ns \<noteq> []" "list_all valid_name ns" "valid_name n"
  shows "os_makedirs (join_names (ns @ [n])) w =
    (if os_path_exists w (join_names ns) then os_mkdir (join_names (ns @ [n])) w
     else case os_makedirs (join_names ns) w of
            (Inl e, w') \<Rightarrow>
              if e \<noteq> FileExistsError then (Inl e, w') else os_mkdir (join_names (ns @ [n])) w'
          | (Inr _, w') \<Rightarrow> os_mkdir (join_names (ns @ [n])) w')"
  using assms mk_head_tail_snoc [OF assms]
  by (subst os_makedirs.simps)
    (auto simp: join_names_not_Nil valid_name_def split: prod.splits sum.splits)

lemma os_makedirs_present:
  assumes "ns = [] \<or> os_path_exists w (join_names ns)" "list_all valid_name ns" "valid_name n"
  shows "os_makedirs (join_names (ns @ [n])) w = os_mkdir (join_names (ns @ [n])) w"
proof (cases "ns = []")
  case True
  with assms(3) show ?thesis by (simp add: os_makedirs_single)
next
  case False
  with assms show ?thesis by (simp add: os_makedirs_snoc)
qed

section \<open>The last step: \<^verbatim>\<open>os.mkdir\<close> of a plain path\<close>

lemma os_mkdir_ok:
  assumes "p \<noteq> []" "\<not> dot_name p" "walk (cwd w) p = ps @ [c]"
    and "dir_at (root w) ps" "fs_lookup (root w) (ps @ [c]) = None"
  shows "os_mkdir p w = (Inr (), store (ps @ [c]) (Dir []) w)"
  using assms by (simp add: os_mkdir_Inr_iff)

lemma os_mkdir_names:
  assumes "list_all valid_name (ns @ [n])"
    and "dir_at (root w) (cwd w @ ns)" "fs_lookup (root w) (cwd w @ ns @ [n]) = None"
  shows "os_mkdir (join_names (ns @ [n])) w = (Inr (), store (cwd w @ ns @ [n]) (Dir []) w)"
proof -
  have "plain (join_names (ns @ [n]))" using assms(1) by (intro plain_join_names) simp_all
  moreover have "walk (cwd w) (join_names (ns @ [n])) = (cwd w @ ns) @ [n]"
    using assms(1) by (simp add: walk_join_names)
  ultimately show ?thesis
    using assms(2,3) os_mkdir_ok [of "join_names (ns @ [n])" w "cwd w @ ns" n] by simp
qed

lemma dir_at_snoc_prefix:
  assumes "dir_at t ps"
  shows "((dir_at t)(ps @ [c] := True)) q \<longleftrightarrow> dir_at t q \<or> prefix q (ps @ [c])"
  using assms by (auto simp: prefix_snoc dest: dir_at_prefix)

lemma os_mkdir_names_dirs:
  assumes "list_all valid_name (ns @ [n])"
    and "dir_at (root w) (cwd w @ ns)" "fs_lookup (root w) (cwd w @ ns @ [n]) = None"
  shows "dir_at (root (snd (os_mkdir (join_names (ns @ [n])) w))) q \<longleftrightarrow>
           dir_at (root w) q \<or> prefix q (cwd w @ ns @ [n])"
proof -
  note ok = os_mkdir_names [OF assms]
  have "walk (cwd w) (join_names (ns @ [n])) = (cwd w @ ns) @ [n]"
    using assms(1) by (simp add: walk_join_names)
  with os_mkdir_dir_at [OF ok]
  have "dir_at (root (snd (os_mkdir (join_names (ns @ [n])) w))) =
      (dir_at (root w))((cwd w @ ns) @ [n] := True)"
    by (simp add: ok)
  then show ?thesis using dir_at_snoc_prefix [OF assms(2), of n q] by simp
qed

text \<open>With a file in the way, \<^verbatim>\<open>os.makedirs\<close> raises and has created nothing.\<close>

lemma os_mkdir_below_file:
  assumes "list_all valid_name (ns @ [n])" "file_at (root w) (cwd w @ ns) = Some b"
  shows "os_mkdir (join_names (ns @ [n])) w = (Inl NotADirectoryError, w)"
proof -
  have "plain (join_names (ns @ [n]))" using assms(1) by (intro plain_join_names) simp_all
  moreover have "walk (cwd w) (join_names (ns @ [n])) = (cwd w @ ns) @ [n]"
    using assms(1) by (simp add: walk_join_names)
  ultimately show ?thesis
    using assms(2) by (simp add: os_mkdir_def file_at_iff Let_def butlast_append)
qed

lemma file_at_below_None:
  "file_at t q = Some b \<Longrightarrow> strict_prefix q r \<Longrightarrow> fs_lookup t r = None"
  by (auto simp: strict_prefix_def prefix_def file_at_iff fs_lookup_append split: if_splits)

section \<open>Creating the missing directories\<close>

text \<open>
  On a plain path with no file in the way and no entry at the path itself,
  \<^verbatim>\<open>os.makedirs\<close> returns; the directories are then the old ones and the
  prefixes of the path.
\<close>

lemma exists_names:
  "ns \<noteq> [] \<Longrightarrow> list_all valid_name ns \<Longrightarrow>
     os_path_exists w (join_names ns) \<longleftrightarrow> fs_lookup (root w) (cwd w @ ns) \<noteq> None"
  by (simp add: exists_plain walk_join_names)

lemma os_makedirs_names:
  assumes "list_all valid_name ns" "ns \<noteq> []"
    and "dir_at (root w) (cwd w)"
    and "\<And>q. prefix q (cwd w @ ns) \<Longrightarrow> file_at (root w) q = None"
    and "\<not> dir_at (root w) (cwd w @ ns)"
  shows "fst (os_makedirs (join_names ns) w) = Inr () \<and>
         (\<forall>q. dir_at (root (snd (os_makedirs (join_names ns) w))) q \<longleftrightarrow>
                dir_at (root w) q \<or> prefix q (cwd w @ ns))"
  using assms
proof (induction ns rule: rev_induct)
  case Nil
  then show ?case by simp
next
  case (snoc n ns)
  let ?p = "join_names (ns @ [n])"
  from snoc.prems(1) have v: "list_all valid_name ns" "valid_name n" by simp_all
  have none: "fs_lookup (root w) (cwd w @ ns @ [n]) = None"
    using snoc.prems(4) [of "cwd w @ ns @ [n]"] snoc.prems(5) by (simp add: fs_lookup_None_iff)
  note step = os_mkdir_names [OF snoc.prems(1)] os_mkdir_names_dirs [OF snoc.prems(1)]
  have pp: "prefix q (cwd w @ ns @ [n])" if "prefix q (cwd w @ ns)" for q
    using that prefix_prefix [of q "cwd w @ ns" "[n]"] by simp
  show ?case
  proof (cases "ns = [] \<or> os_path_exists w (join_names ns)")
    case True
    then have "os_makedirs ?p w = os_mkdir ?p w"
      using v by (rule os_makedirs_present)
    moreover have "dir_at (root w) (cwd w @ ns)"
      using True v snoc.prems(3) snoc.prems(4) [of "cwd w @ ns"]
      by (cases "ns = []") (auto simp: exists_names fs_lookup_None_iff)
    ultimately show ?thesis using none step [of w] by simp
  next
    case False
    then have ne: "ns \<noteq> []" and nd: "\<not> dir_at (root w) (cwd w @ ns)"
      using v by (auto simp: exists_names fs_lookup_None_iff)
    let ?w1 = "snd (os_makedirs (join_names ns) w)"
    have ih: "fst (os_makedirs (join_names ns) w) = Inr ()"
      "\<And>q. dir_at (root ?w1) q \<longleftrightarrow> dir_at (root w) q \<or> prefix q (cwd w @ ns)"
      using snoc.IH [OF v(1) ne snoc.prems(3) _ nd] snoc.prems(4) pp by simp_all
    have c1: "cwd ?w1 = cwd w" using os_makedirs_frame(1) by (simp add: preserves_def)
    have "os_makedirs ?p w = os_mkdir ?p ?w1"
      using False ih(1) by (cases "os_makedirs (join_names ns) w") (simp add: os_makedirs_snoc [OF ne v])
    moreover have "dir_at (root ?w1) (cwd ?w1 @ ns)" by (simp add: ih c1)
    moreover have "fs_lookup (root ?w1) (cwd ?w1 @ ns @ [n]) = None"
      using none by (simp add: fs_lookup_None_iff ih c1)
    ultimately show ?thesis using step [of ?w1] pp by (auto simp: ih c1)
  qed
qed

text \<open>With a file in the way, \<^verbatim>\<open>os.makedirs\<close> raises and has created nothing.\<close>

lemma os_makedirs_blocked:
  assumes "list_all valid_name ns" "file_at (root w) (cwd w @ ms) = Some b"
    and "strict_prefix ms ns"
  shows "os_makedirs (join_names ns) w = (Inl NotADirectoryError, w)"
  using assms
proof (induction ns rule: rev_induct)
  case Nil
  then show ?case by simp
next
  case (snoc n ns)
  let ?p = "join_names (ns @ [n])"
  from snoc.prems have v: "list_all valid_name ns" "valid_name n" and pre: "prefix ms ns"
    by (auto simp: strict_prefix_def prefix_snoc)
  show ?case
  proof (cases "ms = ns")
    case True
    then have "ns = [] \<or> os_path_exists w (join_names ns)"
      using snoc.prems(2) v by (cases "ns = []") (auto simp: exists_names file_at_iff)
    then have "os_makedirs ?p w = os_mkdir ?p w"
      using v by (rule os_makedirs_present)
    with True snoc.prems os_mkdir_below_file [of ns n w b] show ?thesis by simp
  next
    case False
    with pre have sp: "strict_prefix ms ns" and ne: "ns \<noteq> []"
      by (auto simp: strict_prefix_def)
    then have "strict_prefix (cwd w @ ms) (cwd w @ ns)" by (simp add: strict_prefix_def)
    with snoc.prems(2) have "\<not> os_path_exists w (join_names ns)"
      using ne v by (simp add: exists_names file_at_below_None)
    with snoc.IH [OF v(1) snoc.prems(2) sp] show ?thesis
      by (simp add: os_makedirs_snoc [OF ne v])
  qed
qed

text \<open>An entry that exists and is not on the path is left as it is.\<close>

lemma os_makedirs_lookup_frame:
  assumes "list_all valid_name ns" "ns \<noteq> []"
    and "fs_lookup (root w) q \<noteq> None" "\<not> prefix q (cwd w @ ns)"
  shows "fs_lookup (root (snd (os_makedirs (join_names ns) w))) q = fs_lookup (root w) q"
  using assms
proof (induction ns rule: rev_induct)
  case Nil
  then show ?case by simp
next
  case (snoc n ns)
  from snoc.prems have v: "list_all valid_name ns" "valid_name n" by simp_all
  note last = os_mkdir_names_lookup_frame [OF snoc.prems(1), of _ q]
  show ?case
  proof (cases "ns = []")
    case True
    with v snoc.prems last [of w] show ?thesis by (simp add: os_makedirs_single)
  next
    case False
    let ?w1 = "snd (os_makedirs (join_names ns) w)"
    have "\<not> prefix q (cwd w @ ns)"
      using snoc.prems(4) prefix_prefix [of q "cwd w @ ns" "[n]"] by auto
    with snoc.IH [OF v(1) False snoc.prems(3)]
    have ih: "fs_lookup (root ?w1) q = fs_lookup (root w) q" .
    have c1: "cwd ?w1 = cwd w" using os_makedirs_frame(1) by (simp add: preserves_def)
    have "fs_lookup (root (snd (os_mkdir (join_names (ns @ [n])) ?w1))) q = fs_lookup (root w) q"
      using last [of ?w1] snoc.prems(3,4) by (simp add: ih c1)
    with ih last [of w] snoc.prems(3,4) show ?thesis
      by (cases "os_makedirs (join_names ns) w")
        (auto simp: os_makedirs_snoc [OF False v] split: sum.splits)
  qed
qed

section \<open>Properties\<close>

text \<open>
  C12. \<^verbatim>\<open>os.makedirs\<close> on a plain relative path, when the working directory
  exists, no file lies on the path and the path itself does not exist: the call
  returns, no file has changed, and the directories are the old ones and the
  prefixes of the path.
\<close>

theorem os_makedirs_creates:
  assumes "ns \<noteq> []" "list_all valid_name ns" "dir_at (root w) (cwd w)"
    and "no_file_on (root w) (cwd w @ ns)" "\<not> dir_at (root w) (cwd w @ ns)"
  shows "fst (os_makedirs (join_names ns) w) = Inr () \<and>
    file_at (root (snd (os_makedirs (join_names ns) w))) = file_at (root w) \<and>
    (\<forall>q. dir_at (root (snd (os_makedirs (join_names ns) w))) q \<longleftrightarrow>
          dir_at (root w) q \<or> prefix q (cwd w @ ns))"
  using os_makedirs_names [OF assms(2,1,3) no_file_onD [OF assms(4)] assms(5)] by simp

theorem os_makedirs_creates_witness:
  "fst (os_makedirs (join_names [''data'', ''BUILD_TEST'', ''js'', ''lib'']) example_world) = Inr () \<and>
    file_at (root (snd (os_makedirs (join_names [''data'', ''BUILD_TEST'', ''js'', ''lib'']) example_world))) =
      file_at (root example_world) \<and>
    (\<forall>q. dir_at (root (snd (os_makedirs (join_names [''data'', ''BUILD_TEST'', ''js'', ''lib'']) example_world))) q \<longleftrightarrow>
          dir_at (root example_world) q \<or>
          prefix q (cwd example_world @ [''data'', ''BUILD_TEST'', ''js'', ''lib'']))"
  by (rule os_makedirs_creates; code_simp)

text \<open>
  C27. \<^verbatim>\<open>os.makedirs\<close> with a regular file on the way raises
  \<^verbatim>\<open>NotADirectoryError\<close> and has created nothing.
\<close>

theorem os_makedirs_file_in_the_way:
  assumes "list_all valid_name ns" "file_at (root w) (cwd w @ ms) \<noteq> None" "strict_prefix ms ns"
  shows "os_makedirs (join_names ns) w = (Inl NotADirectoryError, w)"
  using assms os_makedirs_blocked [of ns w ms] by auto

theorem os_makedirs_file_in_the_way_witness:
  "os_makedirs (join_names [''data'', ''BUILD_TEST'', ''stale.txt'', ''js'']) example_world =
     (Inl NotADirectoryError, example_world)"
  by (rule os_makedirs_file_in_the_way [where ms = "[''data'', ''BUILD_TEST'', ''stale.txt'']"];
      code_simp)

text \<open>
  C28. \<^verbatim>\<open>os.makedirs\<close> never changes the content of a file and never removes a
  directory, whatever its argument and whether it returns or raises.
\<close>

theorem os_makedirs_only_adds:
  "file_at (root (snd (os_makedirs name w))) = file_at (root w) \<and>
   (dir_at (root w) q \<longrightarrow> dir_at (root (snd (os_makedirs name w))) q)"
  by (simp add: os_makedirs_dir_mono)

theorem os_makedirs_only_adds_witness:
  "file_at (root (snd (os_makedirs ''data/BUILD_TEST/stale.txt/x'' example_world))) =
     file_at (root example_world) \<and>
   dir_at (root (snd (os_makedirs ''data/BUILD_TEST/stale.txt/x'' example_world)))
     [''proj'', ''data'', ''webui'']"
  using os_makedirs_only_adds [of "''data/BUILD_TEST/stale.txt/x''" example_world
      "[''proj'', ''data'', ''webui'']"]
  by (simp add: dir_at_def example_world_def example_tree_def)

end
