(* ===== verification/Glob.thy ===== *)
theory Glob
  imports Makedirs
begin

text \<open>
  \<^verbatim>\<open>glob.iglob(f'{prefix}**', recursive=True)\<close>, the call of lines 79, 86 and 97 of
  \<^verbatim>\<open>src/build_webui.py\<close>, for a \<^verbatim>\<open>prefix\<close> that ends in a separator and holds none of
  the magic characters \<^verbatim>\<open>*\<close>, \<^verbatim>\<open>?\<close> and \<^verbatim>\<open>[\<close>. (The three prefixes of the script end
  in a separator by construction; \<open>has_magic\<close> is the library's test, and the
  theorems about the device-specific tree assume that the build platform passes
  it.)

  The library splits the pattern into the directory and \<^verbatim>\<open>**\<close>, yields the directory
  itself (joined with the empty name, hence with a trailing separator) when it is
  a directory, and then walks it: \<open>rlistdir\<close> is \<^verbatim>\<open>glob._rlistdir\<close>, which lists a
  directory in the order of \<^verbatim>\<open>os.scandir\<close>, skips the names that start with a dot
  (\<open>ishidden\<close>) together with everything below them, and yields every other entry
  followed by the walk of that entry. The generator is lazy in Python; the model
  takes the listing when the loop starts, which is the same as long as the loop
  body does not write below the directory that is listed.

  The lemmas describe the listing by the paths of the tree: \<open>rlistdir_paths\<close> and
  \<open>tree_paths_iff\<close> (a path is listed when it exists and none of its names starts
  with a dot), \<open>iglob_recursive_names\<close> (the listing for a prefix of proper names),
  and \<open>distinct_tree_paths\<close> (no path is listed twice).
\<close>

definition ishidden :: "string \<Rightarrow> bool" where
  "ishidden x = (case x of [] \<Rightarrow> False | c # _ \<Rightarrow> c = CHR ''.'')"

definition has_magic :: "string \<Rightarrow> bool" where
  "has_magic s = (\<exists>c \<in> set s. c = CHR ''*'' \<or> c = CHR ''?'' \<or> c = CHR ''['')"

fun rlistdir :: "node \<Rightarrow> path list" and rlistdir_es :: "(string \<times> node) list \<Rightarrow> path list" where
  "rlistdir (File _) = []"
| "rlistdir (Dir es) = rlistdir_es es"
| "rlistdir_es [] = []"
| "rlistdir_es ((x, n) # es) =
     (if ishidden x then [] else x # map (join2 x) (rlistdir n)) @ rlistdir_es es"

definition iglob_recursive :: "world \<Rightarrow> path \<Rightarrow> path list" where
  "iglob_recursive w pfx =
     (let d = dirname (pfx @ ''**'') in
      case stat w d of
        Some (Dir es) \<Rightarrow> map (join2 d) ([] # rlistdir_es es)
      | _ \<Rightarrow> [])"

fun tree_paths :: "node \<Rightarrow> string list list"
  and entries_paths :: "(string \<times> node) list \<Rightarrow> string list list" where
  "tree_paths (File _) = []"
| "tree_paths (Dir es) = entries_paths es"
| "entries_paths [] = []"
| "entries_paths ((x, n) # es) =
     (if ishidden x then [] else [x] # map ((#) x) (tree_paths n)) @ entries_paths es"

definition glob_paths :: "node \<Rightarrow> string list \<Rightarrow> string list list" where
  "glob_paths t ps =
     (case fs_lookup t ps of Some (Dir es) \<Rightarrow> [] # entries_paths es | _ \<Rightarrow> [])"

definition listed :: "string list \<Rightarrow> string list \<Rightarrow> path" where
  "listed ps ns = join_names ps @ ''/'' @ join_names ns"

section \<open>The listing as a list of paths\<close>

text \<open>
  \<open>tree_paths\<close> lists the paths of a tree (as lists of names) in the order in which
  \<^verbatim>\<open>glob\<close> lists them; \<open>glob_paths t ps\<close> are the paths that the pattern
  \<^verbatim>\<open>ps/**\<close> lists relative to the directory \<open>ps\<close> of the tree \<open>t\<close>, the empty path for the directory
  itself first; \<open>listed ps ns\<close> is the string \<^verbatim>\<open>glob\<close> yields for such a path.
\<close>

lemma tree_paths_valid:
  "wf_node t \<Longrightarrow> ns \<in> set (tree_paths t) \<Longrightarrow> ns \<noteq> [] \<and> list_all valid_name ns"
  "wf_entries es \<Longrightarrow> ns \<in> set (entries_paths es) \<Longrightarrow> ns \<noteq> [] \<and> list_all valid_name ns"
  by (induction t and es arbitrary: ns and ns rule: tree_paths_entries_paths.induct)
    (auto split: if_splits)

lemma join2_name_names:
  "valid_name x \<Longrightarrow> ns \<noteq> [] \<Longrightarrow> list_all valid_name ns \<Longrightarrow>
     join2 x (join_names ns) = join_names (x # ns)"
  using join2_names [of "[x]" ns] by simp

lemma rlistdir_paths:
  "wf_node t \<Longrightarrow> rlistdir t = map join_names (tree_paths t)"
  "wf_entries es \<Longrightarrow> rlistdir_es es = map join_names (entries_paths es)"
proof (induction t and es rule: rlistdir_rlistdir_es.induct)
  case (4 x n es)
  then have v: "valid_name x" "wf_node n" "wf_entries es" by simp_all
  have "map (join2 x) (map join_names (tree_paths n)) =
      map join_names (map ((#) x) (tree_paths n))"
    using tree_paths_valid(1) [OF v(2)] v(1) by (simp add: join2_name_names)
  with 4 v show ?case by simp
qed simp_all

text \<open>The listing is the list of the paths of the tree that have no hidden component.\<close>

lemma tree_paths_iff:
  "wf_node t \<Longrightarrow>
     ns \<in> set (tree_paths t) \<longleftrightarrow>
       ns \<noteq> [] \<and> fs_lookup t ns \<noteq> None \<and> \<not> list_ex ishidden ns"
  "wf_entries es \<Longrightarrow>
     ns \<in> set (entries_paths es) \<longleftrightarrow>
       ns \<noteq> [] \<and> fs_lookup (Dir es) ns \<noteq> None \<and> \<not> list_ex ishidden ns"
proof (induction t and es arbitrary: ns and ns rule: tree_paths_entries_paths.induct)
  case (1 b)
  then show ?case by (cases ns) auto
next
  case (2 es)
  then show ?case by simp
next
  case 3
  then show ?case by (cases ns) auto
next
  case (4 x n es)
  from "4.prems" have v: "wf_node n" "wf_entries es" "x \<notin> fst ` set es" by simp_all
  then have nx: "map_of es x = None" by (simp add: map_of_eq_None_iff)
  have rest: "ms \<in> set (entries_paths es) \<longleftrightarrow>
      ms \<noteq> [] \<and> fs_lookup (Dir es) ms \<noteq> None \<and> \<not> list_ex ishidden ms" for ms
    using "4.IH"(2) v(2) by simp
  show ?case
  proof (cases ns)
    case Nil
    then show ?thesis using rest [of "[]"] by auto
  next
    case (Cons y ys)
    show ?thesis
    proof (cases "y = x")
      case True
      have "ns \<notin> set (entries_paths es)"
        using rest [of ns] nx Cons True by simp
      moreover have "ys \<in> set (tree_paths n) \<longleftrightarrow>
          ys \<noteq> [] \<and> fs_lookup n ys \<noteq> None \<and> \<not> list_ex ishidden ys" if "\<not> ishidden x"
        using "4.IH"(1) [OF that v(1)] by simp
      ultimately show ?thesis using Cons True by (cases "ys = []") auto
    next
      case False
      with Cons rest [of ns] show ?thesis by (auto split: option.splits)
    qed
  qed
qed

lemma dirname_glob_pattern:
  assumes "ps \<noteq> []" "list_all valid_name ps"
  shows "dirname (join_names ps @ ''/**'') = join_names ps"
proof -
  have "head_raw (join_names ps @ CHR ''/'' # ''**'') = join_names ps @ ''/''"
    by (rule head_raw_append_sep) simp
  moreover have "plain (join_names ps)" using assms by simp
  ultimately show ?thesis
    using plain_last [of "join_names ps"] strip_head_snoc_sep [of "join_names ps"]
    by (auto simp: dirname_def)
qed

lemma join2_listed:
  assumes "ps \<noteq> []" "list_all valid_name ps" "ns = [] \<or> list_all valid_name ns"
  shows "join2 (join_names ps) (join_names ns) = listed ps ns"
proof (cases "ns = []")
  case True
  have "plain (join_names ps)" using assms by simp
  then show ?thesis
    using True plain_not_endswith_sep [of "join_names ps"]
    by (auto simp: listed_def join2_Nil_right)
next
  case False
  with assms show ?thesis by (simp add: listed_def join2_plain)
qed

lemma listed_names:
  "ns \<noteq> [] \<Longrightarrow> ps \<noteq> [] \<Longrightarrow> listed ps ns = join_names (ps @ ns)"
  by (simp add: listed_def join_names_append)

text \<open>The listing of \<^verbatim>\<open>glob.iglob(prefix + '**', recursive=True)\<close> for a prefix that
  names a directory by proper names and ends with a separator.\<close>

lemma iglob_recursive_names:
  assumes "wf_world w" "ps \<noteq> []" "list_all valid_name ps"
  shows "iglob_recursive w (join_names ps @ ''/'') = map (listed ps) (glob_paths (root w) (cwd w @ ps))"
proof (cases "fs_lookup (root w) (cwd w @ ps)")
  case None
  with assms show ?thesis
    by (simp add: iglob_recursive_def dirname_glob_pattern stat_plain walk_join_names
        glob_paths_def)
next
  case (Some t)
  show ?thesis
  proof (cases t)
    case (File b)
    with Some assms show ?thesis
      by (simp add: iglob_recursive_def dirname_glob_pattern stat_plain walk_join_names
          glob_paths_def)
  next
    case (Dir es)
    with Some assms(1) have wf: "wf_entries es"
      using wf_node_lookup [of "root w" "cwd w @ ps" t] by (simp add: wf_world_def)
    have "join2 (join_names ps) (join_names ns) = listed ps ns"
      if "ns \<in> set ([] # entries_paths es)" for ns
      using that assms(2,3) tree_paths_valid(2) [OF wf, of ns] by (intro join2_listed) auto
    then have "map (join2 (join_names ps)) (map join_names ([] # entries_paths es)) =
        map (listed ps) ([] # entries_paths es)"
      unfolding map_map by (intro map_cong) simp_all
    with Some Dir assms wf show ?thesis
      by (simp add: iglob_recursive_def dirname_glob_pattern stat_plain walk_join_names
          glob_paths_def rlistdir_paths)
  qed
qed

lemma glob_paths_append:
  "fs_lookup t ps = Some s \<Longrightarrow> glob_paths t (ps @ qs) = glob_paths s qs"
  by (simp add: glob_paths_def fs_lookup_append)

lemma glob_paths_Nil_Dir:
  "ns \<in> set (glob_paths S ls) \<Longrightarrow> \<exists>es. fs_lookup S ls = Some (Dir es)"
  by (cases "fs_lookup S ls" rule: option.exhaust; cases "the (fs_lookup S ls)")
    (auto simp: glob_paths_def)

lemma glob_paths_valid:
  assumes "wf_node t" "ns \<in> set (glob_paths t ps)" "ns \<noteq> []"
  shows "list_all valid_name ns" "\<not> list_ex ishidden ns" "fs_lookup t (ps @ ns) \<noteq> None"
proof -
  from assms(2) obtain es where es: "fs_lookup t ps = Some (Dir es)"
    by (cases "fs_lookup t ps" rule: option.exhaust; cases "the (fs_lookup t ps)")
      (auto simp: glob_paths_def)
  with assms(1) have wf: "wf_entries es" using wf_node_lookup [of t ps "Dir es"] by simp
  from es assms(2,3) have ns: "ns \<in> set (entries_paths es)" by (simp add: glob_paths_def)
  show "list_all valid_name ns" using tree_paths_valid(2) [OF wf ns] by simp
  show "\<not> list_ex ishidden ns" using ns wf by (simp add: tree_paths_iff)
  show "fs_lookup t (ps @ ns) \<noteq> None"
    using ns es wf by (simp add: tree_paths_iff fs_lookup_append)
qed

text \<open>No path is listed twice.\<close>

lemma entries_paths_hd:
  "ns \<in> set (entries_paths es) \<Longrightarrow> ns \<noteq> [] \<and> hd ns \<in> fst ` set es"
  by (induction es) (auto split: if_splits)

lemma distinct_tree_paths:
  "wf_node t \<Longrightarrow> distinct (tree_paths t)"
  "wf_entries es \<Longrightarrow> distinct (entries_paths es)"
proof (induction t and es rule: tree_paths_entries_paths.induct)
  case (4 x n es)
  show ?case
  proof (cases "ishidden x")
    case True
    with 4 show ?thesis by simp
  next
    case False
    with 4 have "distinct (map ((#) x) (tree_paths n))" by (simp add: distinct_map)
    moreover have "[x] \<notin> set (map ((#) x) (tree_paths n))"
      using 4 tree_paths_valid(1) [of n "[]"] by auto
    moreover have "ns \<notin> set (entries_paths es)" if "hd ns = x" for ns
      using 4 that entries_paths_hd [of ns es] by auto
    ultimately show ?thesis using 4 False by (auto simp: image_iff)
  qed
qed simp_all

lemma distinct_glob_paths:
  assumes "wf_node t"
  shows "distinct (glob_paths t ps)"
proof (cases "glob_paths t ps = []")
  case False
  then obtain ns where "ns \<in> set (glob_paths t ps)" by (cases "glob_paths t ps") auto
  from glob_paths_Nil_Dir [OF this] obtain es where es: "fs_lookup t ps = Some (Dir es)" ..
  with assms have "wf_entries es" using wf_node_lookup [of t ps "Dir es"] by simp
  with es show ?thesis
    using distinct_tree_paths(2) [of es] entries_paths_hd [of "[]" es]
    by (auto simp: glob_paths_def)
qed simp

section \<open>Properties\<close>

text \<open>
  C30. What the listing yields is well formed: apart from the directory itself,
  every name that \<^verbatim>\<open>glob.iglob(prefix + '**', recursive=True)\<close> yields for a prefix
  of proper names is a plain path (proper names joined by single separators),
  exists, starts with the prefix, and its last name does not start with a dot.
\<close>

theorem iglob_recursive_plain:
  assumes "wf_world w" "ps \<noteq> []" "list_all valid_name ps"
    and "f \<in> set (iglob_recursive w (join_names ps @ ''/''))" "f \<noteq> join_names ps @ ''/''"
  shows "plain f \<and> os_path_exists w f \<and> startswith f (join_names ps @ ''/'') \<and>
    \<not> ishidden (basename f)"
proof -
  from assms(4) obtain ns where ns: "ns \<in> set (glob_paths (root w) (cwd w @ ps))"
    and f: "f = listed ps ns"
    by (auto simp: iglob_recursive_names [OF assms(1-3)])
  from assms(5) f have n: "ns \<noteq> []" by (auto simp: listed_def)
  from assms(1) have "wf_node (root w)" by (simp add: wf_world_def)
  note v = glob_paths_valid [OF this ns n]
  have fj: "f = join_names ((ps @ butlast ns) @ [last ns])"
    using n assms(2) by (simp add: f listed_names)
  have vn: "list_all valid_name (ps @ ns)" using v(1) assms(3) by simp
  then have pl: "plain (join_names (ps @ ns))" using assms(2) by (intro plain_join_names) simp_all
  have "valid_name (last ns)" using v(1) n by (simp add: list_all_iff)
  then have "basename f = last ns"
    unfolding fj using assms(2) by (intro basename_join_names_snoc) (simp_all add: valid_name_def)
  moreover have "os_path_exists w (join_names (ps @ ns))"
    using v(3) vn assms(2) by (simp add: exists_plain [OF pl] walk_join_names)
  moreover have "startswith f (join_names ps @ ''/'')" by (simp add: f listed_def startswith_def)
  ultimately show ?thesis using pl v(2) n assms(2) by (simp add: f listed_names list_ex_iff)
qed

theorem iglob_recursive_plain_witness:
  "plain ''data/webui/common/js/app.js'' \<and> os_path_exists example_world ''data/webui/common/js/app.js'' \<and>
   startswith ''data/webui/common/js/app.js'' (join_names [''data'', ''webui'', ''common''] @ ''/'') \<and>
   \<not> ishidden (basename ''data/webui/common/js/app.js'')"
  by (rule iglob_recursive_plain; code_simp)

end
