(* ===== verification/Jinja.thy ===== *)
theory Jinja
  imports Makedirs
begin

text \<open>
  The part of the template engine \<^verbatim>\<open>src/build_webui.py\<close> relies on (lines 4, 22, 23
  and 59): an environment with a file-system loader, \<^verbatim>\<open>get_template\<close>, and
  \<^verbatim>\<open>render\<close>.

  \<^item> \<open>template_env\<close> is the environment: the search path of its loader and the
    engine's rendering function. The language of templates is not modelled:
    \<open>render\<close> is a parameter that maps the source text of a template and the
    configuration to the rendered text or to the error the engine raises. Every
    lemma about the script holds for any such function. A template that includes
    or extends another one would make the engine read further files; the model
    has no such templates.
  \<^item> \<open>get_template\<close> is the loader: \<open>split_template_path\<close> cuts the name at \<^verbatim>\<open>/\<close>,
    refuses a \<^verbatim>\<open>..\<close> piece and drops empty and \<^verbatim>\<open>.\<close> pieces; the file under the
    search path is read if it is a regular file, and \<^verbatim>\<open>TemplateNotFound\<close> is raised
    otherwise.
  \<^item> \<open>subst_render\<close> is a small engine for witnesses and examples: it replaces
    \<^verbatim>\<open>{{name}}\<close> by the value of \<open>name\<close> in a configuration given as an
    association list and raises on an undefined name. Its scan \<open>subst_vars\<close>
    takes fuel; \<open>subst_vars_fuel\<close> shows that the fuel \<open>subst_render\<close> gives it is
    enough.
\<close>

record 'cfg template_env =
  searchpath :: path
  render :: "bytes \<Rightarrow> 'cfg \<Rightarrow> pyerr + bytes"

definition split_template_path :: "string \<Rightarrow> pyerr + string list" where
  "split_template_path template =
     (let pieces = split_on CHR ''/'' template in
      if ''..'' \<in> set pieces then Inl (TemplateNotFound template)
      else Inr (filter (\<lambda>piece. piece \<noteq> [] \<and> piece \<noteq> ''.'') pieces))"

definition get_template :: "'cfg template_env \<Rightarrow> string \<Rightarrow> (world, bytes) prog" where
  "get_template env name =
     (case split_template_path name of
        Inl e \<Rightarrow> raiseS e
      | Inr pieces \<Rightarrow>
          (let filename = path_join (searchpath env) pieces in
           bindS (getS (\<lambda>w. os_path_isfile w filename)) (\<lambda>found.
             if found then read_file filename else raiseS (TemplateNotFound name))))"

definition render_template :: "'cfg template_env \<Rightarrow> bytes \<Rightarrow> 'cfg \<Rightarrow> (world, bytes) prog" where
  "render_template env source config = liftE (\<lambda>_. render env source config)"

section \<open>A substitution engine\<close>

fun subst_vars :: "(string \<times> string) list \<Rightarrow> nat \<Rightarrow> string \<Rightarrow> pyerr + string" where
  "subst_vars cfg 0 s = Inl TemplateError"
| "subst_vars cfg (Suc fuel) [] = Inr []"
| "subst_vars cfg (Suc fuel) (c # cs) =
     (if prefix ''{{'' (c # cs) then
        (let body = drop 2 (c # cs);
             name = takeWhile (\<lambda>x. x \<noteq> CHR ''}'') body;
             rest = drop (length name) body
         in if prefix ''}}'' rest then
              (case map_of cfg name of
                 None \<Rightarrow> Inl TemplateError
               | Some v \<Rightarrow>
                   (case subst_vars cfg fuel (drop 2 rest) of
                      Inl e \<Rightarrow> Inl e
                    | Inr out \<Rightarrow> Inr (v @ out)))
            else Inl TemplateError)
      else (case subst_vars cfg fuel cs of Inl e \<Rightarrow> Inl e | Inr out \<Rightarrow> Inr (c # out)))"

definition subst_render :: "bytes \<Rightarrow> (string \<times> string) list \<Rightarrow> pyerr + bytes" where
  "subst_render source cfg = subst_vars cfg (Suc (length source)) source"

definition example_env :: "(string \<times> string) list template_env" where
  "example_env = \<lparr>searchpath = ''data/webui/template'', render = subst_render\<rparr>"

section \<open>The loader\<close>

lemma get_template_state [simp]: "snd (get_template env name w) = w"
  by (simp add: get_template_def Let_def split: sum.splits)

lemma get_template_Inr_iff:
  "get_template env name w = (Inr src, w') \<longleftrightarrow>
     w' = w \<and> (\<exists>pieces. split_template_path name = Inr pieces \<and>
       os_path_isfile w (path_join (searchpath env) pieces) \<and>
       file_at (root w) (walk (cwd w) (path_join (searchpath env) pieces)) = Some src)"
  by (auto simp: get_template_def Let_def read_file_Inr_iff os_path_isfile_iff
      split: sum.splits)

lemma get_template_not_found:
  "split_template_path name = Inr pieces \<Longrightarrow>
   \<not> os_path_isfile w (path_join (searchpath env) pieces) \<Longrightarrow>
     get_template env name w = (Inl (TemplateNotFound name), w)"
  by (simp add: get_template_def Let_def)

lemma get_template_cong:
  assumes "root w' = root w" "cwd w' = cwd w"
  shows "fst (get_template env name w') = fst (get_template env name w)"
proof -
  have "os_path_isfile w' = os_path_isfile w" using assms by (rule tests_cong)
  moreover have "fst (read_file p w') = fst (read_file p w)" for p
    using assms by (rule read_file_cong)
  ultimately show ?thesis
    by (simp add: get_template_def Let_def split: sum.splits)
qed

lemma render_template_apply [simp]:
  "render_template env source config w = (render env source config, w)"
  by (simp add: render_template_def)

lemma split_template_path_names:
  "ns \<noteq> [] \<Longrightarrow> list_all valid_name ns \<Longrightarrow> split_template_path (join_names ns) = Inr ns"
  by (auto simp: split_template_path_def split_on_join_names list_all_iff valid_name_def
      intro!: filter_True)

section \<open>Fuel of the substitution engine\<close>

text \<open>Each step of \<open>subst_vars\<close> consumes at least one character, so more fuel than
  the template has characters never changes the result.\<close>

lemma subst_vars_fuel:
  "length s < n \<Longrightarrow> length s < m \<Longrightarrow> subst_vars cfg n s = subst_vars cfg m s"
proof (induction n arbitrary: m s)
  case 0
  then show ?case by simp
next
  case (Suc n)
  then obtain m' where m: "m = Suc m'" by (cases m) auto
  show ?case
  proof (cases s)
    case Nil
    then show ?thesis by (simp add: m)
  next
    case (Cons c cs)
    have ih: "subst_vars cfg n s' = subst_vars cfg m' s'" if "length s' \<le> length cs" for s'
      using that Suc.prems Cons by (intro Suc.IH) (auto simp: m)
    show ?thesis unfolding Cons m subst_vars.simps Let_def
      by (intro refl if_cong option.case_cong sum.case_cong ih) simp_all
  qed
qed

section \<open>Properties\<close>



end
