(* ===== verification/PyRegex.thy ===== *)
theory PyRegex
  imports Prelude
begin

text \<open>
  The regular expression of line 84 of \<^verbatim>\<open>src/build_webui.py\<close>,
  \<^verbatim>\<open>^.*\.tmpl\.[a-zA-Z0-9_]+$\<close>, and what \<^verbatim>\<open>template_matcher.search(filename)\<close>
  decides. Regular expressions are a datatype over character classes, matched by
  Brzozowski derivatives (\<open>nullable\<close>, \<open>deriv\<close>, \<open>matches\<close>). \<^verbatim>\<open>search\<close> with a
  pattern anchored by \<^verbatim>\<open>^\<close> finds a match only at the start of the string, and \<^verbatim>\<open>$\<close>
  (without the MULTILINE flag) accepts the end of the string and the position
  before a newline that ends the string; \<open>search_anchored\<close> says so. The dot of
  the pattern does not match a newline.

  The lemmas say what the derivatives match for each constructor
  (\<open>matches_Times\<close>, \<open>matches_Star_Atom\<close>, \<open>matches_lit\<close>), and from them what the
  pattern matches (\<open>matches_tmpl_rexp\<close>).
\<close>

datatype rexp =
    Zero
  | One
  | Atom "char \<Rightarrow> bool"
  | Plus rexp rexp
  | Times rexp rexp
  | Star rexp

fun nullable :: "rexp \<Rightarrow> bool" where
  "nullable Zero = False"
| "nullable One = True"
| "nullable (Atom _) = False"
| "nullable (Plus r s) = (nullable r \<or> nullable s)"
| "nullable (Times r s) = (nullable r \<and> nullable s)"
| "nullable (Star _) = True"

fun deriv :: "char \<Rightarrow> rexp \<Rightarrow> rexp" where
  "deriv c Zero = Zero"
| "deriv c One = Zero"
| "deriv c (Atom P) = (if P c then One else Zero)"
| "deriv c (Plus r s) = Plus (deriv c r) (deriv c s)"
| "deriv c (Times r s) =
     (if nullable r then Plus (Times (deriv c r) s) (deriv c s) else Times (deriv c r) s)"
| "deriv c (Star r) = Times (deriv c r) (Star r)"

fun matches :: "rexp \<Rightarrow> string \<Rightarrow> bool" where
  "matches r [] = nullable r"
| "matches r (c # cs) = matches (deriv c r) cs"

definition newline :: char where
  "newline = CHR 0x0A"

definition search_anchored :: "rexp \<Rightarrow> string \<Rightarrow> bool" where
  "search_anchored r s \<longleftrightarrow>
     matches r s \<or> (s \<noteq> [] \<and> last s = newline \<and> matches r (butlast s))"

definition in_range :: "char \<Rightarrow> char \<Rightarrow> char \<Rightarrow> bool" where
  "in_range lo hi c \<longleftrightarrow> (of_char lo :: nat) \<le> of_char c \<and> (of_char c :: nat) \<le> of_char hi"

definition is_word_char :: "char \<Rightarrow> bool" where
  "is_word_char c \<longleftrightarrow>
     in_range CHR ''a'' CHR ''z'' c \<or> in_range CHR ''A'' CHR ''Z'' c \<or>
     in_range CHR ''0'' CHR ''9'' c \<or> c = CHR ''_''"

fun lit :: "string \<Rightarrow> rexp" where
  "lit [] = One"
| "lit (c # cs) = Times (Atom (\<lambda>x. x = c)) (lit cs)"

definition tmpl_rexp :: rexp where
  "tmpl_rexp =
     Times (Star (Atom (\<lambda>c. c \<noteq> newline)))
       (Times (lit ''.tmpl.'')
          (Times (Atom is_word_char) (Star (Atom is_word_char))))"

definition template_matcher :: "string \<Rightarrow> bool" where
  "template_matcher filename = search_anchored tmpl_rexp filename"

section \<open>What the derivatives match\<close>

lemma matches_Zero [simp]: "\<not> matches Zero s"
  by (induction s) simp_all

lemma matches_One [simp]: "matches One s \<longleftrightarrow> s = []"
  by (cases s) simp_all

lemma matches_Plus [simp]: "matches (Plus r t) s \<longleftrightarrow> matches r s \<or> matches t s"
  by (induction s arbitrary: r t) simp_all

lemma split_Cons:
  "(\<exists>u v. c # s = u @ v \<and> P u v) \<longleftrightarrow> P [] (c # s) \<or> (\<exists>u v. s = u @ v \<and> P (c # u) v)"
  by (auto simp: Cons_eq_append_conv)

lemma matches_Times:
  "matches (Times r t) s \<longleftrightarrow> (\<exists>u v. s = u @ v \<and> matches r u \<and> matches t v)"
proof (induction s arbitrary: r t)
  case Nil
  then show ?case by simp
next
  case (Cons c s)
  show ?case unfolding split_Cons by (auto simp: Cons)
qed

lemma matches_Atom_Times:
  "matches (Times (Atom P) r) s \<longleftrightarrow> (\<exists>c v. s = c # v \<and> P c \<and> matches r v)"
  by (cases s) (simp_all add: matches_Times)

lemma matches_Star_Atom [simp]: "matches (Star (Atom P)) s \<longleftrightarrow> list_all P s"
  by (induction s) (simp_all add: matches_Times)

lemma matches_lit [simp]: "matches (lit l) s \<longleftrightarrow> s = l"
  by (induction l arbitrary: s) (auto simp: matches_Atom_Times)

lemma matches_tmpl_rexp:
  "matches tmpl_rexp s \<longleftrightarrow>
     (\<exists>a w. s = a @ ''.tmpl.'' @ w \<and> newline \<notin> set a \<and> w \<noteq> [] \<and> list_all is_word_char w)"
proof -
  have w: "(\<exists>c v. w = c # v \<and> is_word_char c \<and> list_all is_word_char v) \<longleftrightarrow>
      w \<noteq> [] \<and> list_all is_word_char w" for w
    by (cases w) simp_all
  have a: "list_all (\<lambda>c. c \<noteq> newline) a \<longleftrightarrow> newline \<notin> set a" for a
    by (auto simp: list_all_iff)
  show ?thesis
    unfolding tmpl_rexp_def matches_Times [of "Star _"] matches_Times [of "lit _"]
      matches_Atom_Times matches_Star_Atom matches_lit w a
    by blast
qed

section \<open>Properties\<close>

text \<open>
  C32. The matcher decides the language the pattern of line 84 describes:
  \<^verbatim>\<open>template_matcher.search(filename)\<close> finds a match exactly when the name is
  some text without a newline, then \<^verbatim>\<open>.tmpl.\<close>, then one or more of the characters
  \<^verbatim>\<open>a-z\<close>, \<^verbatim>\<open>A-Z\<close>, \<^verbatim>\<open>0-9\<close> and \<^verbatim>\<open>_\<close>, then the end of the name or one
  newline that ends it.
\<close>

theorem template_matcher_iff:
  "template_matcher f \<longleftrightarrow>
     (\<exists>a w e. f = a @ ''.tmpl.'' @ w @ e \<and> newline \<notin> set a \<and> w \<noteq> [] \<and>
        list_all is_word_char w \<and> (e = [] \<or> e = [newline]))"
  (is "_ \<longleftrightarrow> ?R")
proof -
  have m: "template_matcher f \<longleftrightarrow>
      matches tmpl_rexp f \<or> (\<exists>g. f = g @ [newline] \<and> matches tmpl_rexp g)"
    unfolding template_matcher_def search_anchored_def by (cases f rule: rev_cases) auto
  show ?thesis unfolding m
  proof
    assume "matches tmpl_rexp f \<or> (\<exists>g. f = g @ [newline] \<and> matches tmpl_rexp g)"
    then show ?R
    proof
      assume "matches tmpl_rexp f"
      then obtain a w where "f = a @ ''.tmpl.'' @ w @ []" "newline \<notin> set a" "w \<noteq> []"
        "list_all is_word_char w" by (auto simp: matches_tmpl_rexp)
      then show ?R by blast
    next
      assume "\<exists>g. f = g @ [newline] \<and> matches tmpl_rexp g"
      then obtain a w where "f = a @ ''.tmpl.'' @ w @ [newline]" "newline \<notin> set a" "w \<noteq> []"
        "list_all is_word_char w" by (auto simp: matches_tmpl_rexp)
      then show ?R by blast
    qed
  next
    assume ?R
    then obtain a w e where f: "f = a @ ''.tmpl.'' @ w @ e" "newline \<notin> set a" "w \<noteq> []"
      "list_all is_word_char w" and e: "e = [] \<or> e = [newline]" by blast
    from f(2-4) have g: "matches tmpl_rexp (a @ ''.tmpl.'' @ w)"
      unfolding matches_tmpl_rexp by blast
    from e show "matches tmpl_rexp f \<or> (\<exists>g. f = g @ [newline] \<and> matches tmpl_rexp g)"
    proof
      assume "e = []"
      with g f(1) show ?thesis by simp
    next
      assume "e = [newline]"
      with f(1) have "f = (a @ ''.tmpl.'' @ w) @ [newline]" by simp
      with g show ?thesis by blast
    qed
  qed
qed

theorem template_matcher_iff_witness:
  "template_matcher ''banner.tmpl.html'' \<longleftrightarrow>
     (\<exists>a w e. ''banner.tmpl.html'' = a @ ''.tmpl.'' @ w @ e \<and> newline \<notin> set a \<and> w \<noteq> [] \<and>
        list_all is_word_char w \<and> (e = [] \<or> e = [newline]))"
  by (rule template_matcher_iff)

end
