(* ===== verification/Stager.thy ===== *)
theory Stager
  imports Glob Jinja PyRegex
begin

text \<open>
  The three functions of \<^verbatim>\<open>src/build_webui.py\<close>:
  \<^item> \<open>prep_dst\<close> (lines 7 to 16) maps a source file to its destination and creates
    the destination's directory when it does not exist. \<open>dest_path\<close> is its pure
    part, lines 8 to 12: the source prefix is removed from the name with
    \<^verbatim>\<open>str.replace\<close> and the rest is joined to \<^verbatim>\<open>data/<build_platform>\<close> or to the
    explicit output directory.
  \<^item> \<open>process_template\<close> (lines 19 to 26) prints a line, loads and renders the
    template, prepares the destination, collapses \<^verbatim>\<open>.tmpl.\<close> in the destination
    and writes the rendered text there.
  \<^item> \<open>copy_file\<close> (lines 28 to 30) prepares the destination and copies the file.
  An optional argument of the source (\<^verbatim>\<open>data_dir=None\<close>) is an \<open>option\<close>.
\<close>

definition dest_path :: "path \<Rightarrow> string \<Rightarrow> path \<Rightarrow> path option \<Rightarrow> path" where
  "dest_path fname build_platform pfx data_dir =
     (let rel_path = str_replace fname pfx [] in
      case data_dir of
        None \<Rightarrow> path_join ''data'' [build_platform, rel_path]
      | Some d \<Rightarrow> path_join d [rel_path])"

definition prep_dst :: "path \<Rightarrow> string \<Rightarrow> path \<Rightarrow> path option \<Rightarrow> (world, path) prog" where
  "prep_dst fname build_platform pfx data_dir =
     (let destination = dest_path fname build_platform pfx data_dir;
          dest_dir = dirname destination
      in bindS (getS (\<lambda>w. os_path_exists w dest_dir)) (\<lambda>present.
           thenS (whenS (\<not> present) (os_makedirs dest_dir))
             (returnS destination)))"

definition template_name :: "path \<Rightarrow> path \<Rightarrow> string" where
  "template_name fname pfx = str_replace (str_replace fname pfx []) [CHR 0x5C] ''/''"

definition process_template ::
  "path \<Rightarrow> string \<Rightarrow> 'cfg template_env \<Rightarrow> 'cfg \<Rightarrow> path \<Rightarrow> path option \<Rightarrow> (world, unit) prog"
where
  "process_template fname build_platform env config pfx build_data_dir =
     thenS (print_line (''processing template file '' @ fname))
       (bindS (get_template env (template_name fname pfx)) (\<lambda>template.
        bindS (render_template env template config) (\<lambda>r.
        bindS (prep_dst fname build_platform pfx build_data_dir) (\<lambda>d.
          open_write (str_replace d ''.tmpl.'' ''.'') r))))"

definition copy_file :: "path \<Rightarrow> string \<Rightarrow> path \<Rightarrow> path option \<Rightarrow> (world, unit) prog" where
  "copy_file fname build_platform pfx build_data_dir =
     bindS (prep_dst fname build_platform pfx build_data_dir) (\<lambda>destination.
       bindS (shutil_copy fname destination) (\<lambda>_. returnS ()))"

section \<open>The destination of a file\<close>

lemma dest_path_prefix:
  "pfx \<noteq> [] \<Longrightarrow> dest_path (pfx @ rel) bp pfx dd = dest_path rel bp pfx dd"
  by (simp add: dest_path_def str_replace_prefix)

lemma dest_path_below:
  assumes "pfx \<noteq> []" "\<not> sublist pfx rel"
  shows "dest_path (pfx @ rel) bp pfx dd =
           (case dd of None \<Rightarrow> path_join ''data'' [bp, rel] | Some d \<Rightarrow> path_join d [rel])"
  using assms by (simp add: dest_path_def str_replace_prefix str_replace_no_occ)

lemma valid_name_data [simp]: "valid_name ''data''"
  by (simp add: valid_name_def)

lemma dest_path_names:
  assumes "pfx \<noteq> []" "\<not> sublist pfx (join_names ns)"
    and "valid_name bp" "ns \<noteq> []" "list_all valid_name ns"
  shows "dest_path (pfx @ join_names ns) bp pfx None = join_names (''data'' # bp # ns)"
proof -
  have "join2 (join_names [''data'', bp]) (join_names ns) = join_names ([''data'', bp] @ ns)"
    using assms by (intro join2_names) simp_all
  moreover have "join2 ''data'' bp = join_names [''data'', bp]"
    using join2_names [of "[''data'']" "[bp]"] assms by simp
  ultimately show ?thesis
    using assms by (simp add: dest_path_below del: join_names.simps)
qed

section \<open>\<open>prep_dst\<close>\<close>

lemma prep_dst_wf [wf_intros]: "maintains wf_world (prep_dst f bp pfx dd)"
  unfolding prep_dst_def Let_def by (intro maintains_intros wf_intros)

lemma prep_dst_frame [frame_intros]:
  "preserves cwd (prep_dst f bp pfx dd)" "preserves stdout (prep_dst f bp pfx dd)"
  unfolding prep_dst_def Let_def by (intro preserves_intros frame_intros)+

lemma prep_dst_files [frame_intros]: "preserves (\<lambda>w. file_at (root w)) (prep_dst f bp pfx dd)"
  unfolding prep_dst_def Let_def
  by (intro preserves_intros) (simp add: preserves_def)

lemma prep_dst_dir_mono: "maintains (\<lambda>w. dir_at (root w) q) (prep_dst f bp pfx dd)"
  unfolding prep_dst_def Let_def
  by (intro maintains_intros) (simp add: maintains_def os_makedirs_dir_mono)

lemma prep_dst_result:
  "prep_dst f bp pfx dd w = (Inr d, w') \<Longrightarrow> d = dest_path f bp pfx dd"
  by (auto simp: prep_dst_def Let_def bindS_eq_Inr_iff thenS_eq_Inr_iff)

lemma prep_dst_unfold:
  "prep_dst f bp pfx dd w =
     (if os_path_exists w (dirname (dest_path f bp pfx dd)) then (Inr (dest_path f bp pfx dd), w)
      else case os_makedirs (dirname (dest_path f bp pfx dd)) w of
             (Inl e, w') \<Rightarrow> (Inl e, w')
           | (Inr _, w') \<Rightarrow> (Inr (dest_path f bp pfx dd), w'))"
  by (simp add: prep_dst_def Let_def thenS_def bindS_def split: prod.splits sum.splits)

text \<open>
  When the destination is a plain path below at least one directory and no file
  is in the way of that directory, \<open>prep_dst\<close> returns the destination, and the
  directories are then the old ones and the prefixes of the destination's
  directory.
\<close>

lemma prep_dst_names:
  assumes dest: "dest_path f bp pfx dd = join_names (ds @ [n])"
    and names: "ds \<noteq> []" "list_all valid_name (ds @ [n])"
    and wd: "dir_at (root w) (cwd w)"
    and free: "\<And>q. prefix q (cwd w @ ds) \<Longrightarrow> file_at (root w) q = None"
  shows "fst (prep_dst f bp pfx dd w) = Inr (join_names (ds @ [n])) \<and>
         (\<forall>q. dir_at (root (snd (prep_dst f bp pfx dd w))) q \<longleftrightarrow>
                dir_at (root w) q \<or> prefix q (cwd w @ ds))"
proof -
  from names have v: "list_all valid_name ds" "valid_name n" by simp_all
  have dir: "dirname (join_names (ds @ [n])) = join_names ds"
    using names v by (simp add: dirname_join_names_snoc valid_name_no_sep)
  have pl: "plain (join_names ds)" using names v by simp
  have wk: "walk (cwd w) (join_names ds) = cwd w @ ds" using names v by (simp add: walk_join_names)
  show ?thesis
  proof (cases "os_path_exists w (join_names ds)")
    case True
    then have "dir_at (root w) (cwd w @ ds)"
      using free [of "cwd w @ ds"] by (simp add: exists_plain pl wk fs_lookup_None_iff)
    then have "dir_at (root w) q" if "prefix q (cwd w @ ds)" for q
      using that by (rule dir_at_prefix)
    with True show ?thesis by (auto simp: prep_dst_unfold dir dest)
  next
    case False
    then have "\<not> dir_at (root w) (cwd w @ ds)"
      by (simp add: exists_plain pl wk fs_lookup_None_iff)
    from os_makedirs_names [OF v(1) names(1) wd free this] False
    show ?thesis
      by (cases "os_makedirs (join_names ds) w") (auto simp: prep_dst_unfold dir dest)
  qed
qed

text \<open>An entry that exists and is not on the way to the destination's directory is
  left as it is.\<close>

lemma prep_dst_lookup_frame:
  assumes dest: "dest_path f bp pfx dd = join_names (ds @ [n])"
    and names: "ds \<noteq> []" "list_all valid_name (ds @ [n])"
    and q: "fs_lookup (root w) q \<noteq> None" "\<not> prefix q (cwd w @ ds)"
  shows "fs_lookup (root (snd (prep_dst f bp pfx dd w))) q = fs_lookup (root w) q"
proof -
  from names have v: "list_all valid_name ds" "valid_name n" by simp_all
  have dir: "dirname (join_names (ds @ [n])) = join_names ds"
    using names v by (simp add: dirname_join_names_snoc valid_name_no_sep)
  from os_makedirs_lookup_frame [OF v(1) names(1) q] show ?thesis
    by (cases "os_makedirs (join_names ds) w")
      (auto simp: prep_dst_unfold dest dir split: sum.splits)
qed

lemma parallel_snoc_not_prefix: "q \<parallel> ps @ [n] \<Longrightarrow> \<not> prefix q ps"
  by (auto simp: parallel_def prefix_def)

text \<open>A file above the destination's directory makes \<open>prep_dst\<close> raise.\<close>

lemma prep_dst_blocked:
  assumes dest: "dest_path f bp pfx dd = join_names (ds @ [n])"
    and names: "list_all valid_name (ds @ [n])"
    and blk: "file_at (root w) (cwd w @ ms) = Some b" "strict_prefix ms ds"
  shows "prep_dst f bp pfx dd w = (Inl NotADirectoryError, w)"
proof -
  from names blk(2) have v: "list_all valid_name ds" "ds \<noteq> []" by auto
  have dir: "dirname (join_names (ds @ [n])) = join_names ds"
    using names v by (simp add: dirname_join_names_snoc valid_name_no_sep)
  have "strict_prefix (cwd w @ ms) (cwd w @ ds)" using blk(2) by (simp add: strict_prefix_def)
  with blk(1) have "\<not> os_path_exists w (join_names ds)"
    using v by (simp add: exists_plain walk_join_names file_at_below_None)
  with os_makedirs_blocked [OF v(1) blk] show ?thesis
    by (simp add: prep_dst_unfold dest dir)
qed

section \<open>\<open>copy_file\<close>\<close>

lemma copy_file_wf [wf_intros]: "maintains wf_world (copy_file f bp pfx dd)"
  unfolding copy_file_def by (intro maintains_intros wf_intros)

lemma copy_file_frame [frame_intros]:
  "preserves cwd (copy_file f bp pfx dd)" "preserves stdout (copy_file f bp pfx dd)"
  unfolding copy_file_def by (intro preserves_intros frame_intros)+

lemma copy_file_unfold:
  "copy_file f bp pfx dd w =
     (case prep_dst f bp pfx dd w of
        (Inl e, w1) \<Rightarrow> (Inl e, w1)
      | (Inr d, w1) \<Rightarrow>
          (case shutil_copy f d w1 of (Inl e, w2) \<Rightarrow> (Inl e, w2) | (Inr _, w2) \<Rightarrow> (Inr (), w2)))"
  by (simp add: copy_file_def bindS_def split: prod.splits sum.splits)

text \<open>
  \<open>copy_file\<close> on a regular file whose destination is a plain path, with no file in
  the way of the destination's directory and no directory at the destination:
  it returns, the destination then holds the content of the source, no other file
  has changed, and the directories are the old ones and the prefixes of the
  destination's directory.
\<close>

lemma copy_file_names:
  assumes dest: "dest_path f bp pfx dd = join_names (ds @ [n])"
    and names: "ds \<noteq> []" "list_all valid_name (ds @ [n])"
    and wd: "dir_at (root w) (cwd w)"
    and free: "\<And>q. prefix q (cwd w @ ds) \<Longrightarrow> file_at (root w) q = None"
    and src: "os_path_isfile w f"
    and tgt: "\<not> dir_at (root w) (cwd w @ ds @ [n])"
    and diff: "walk (cwd w) f \<noteq> cwd w @ ds @ [n]"
  shows "fst (copy_file f bp pfx dd w) = Inr ()"
    and "file_at (root (snd (copy_file f bp pfx dd w))) =
      (file_at (root w))(cwd w @ ds @ [n] \<mapsto> the (file_at (root w) (walk (cwd w) f)))"
    and "dir_at (root (snd (copy_file f bp pfx dd w))) q \<longleftrightarrow>
      dir_at (root w) q \<or> prefix q (cwd w @ ds)"
    and "fs_lookup (root w) q \<noteq> None \<Longrightarrow> q \<parallel> cwd w @ ds @ [n] \<Longrightarrow>
      fs_lookup (root (snd (copy_file f bp pfx dd w))) q = fs_lookup (root w) q"
proof -
  let ?d = "join_names (ds @ [n])"
  obtain w1 where p: "prep_dst f bp pfx dd w = (Inr ?d, w1)"
    and d1: "\<And>q. dir_at (root w1) q \<longleftrightarrow> dir_at (root w) q \<or> prefix q (cwd w @ ds)"
    using prep_dst_names [OF dest names wd free] by (cases "prep_dst f bp pfx dd w") auto
  have same: "cwd w1 = cwd w" "file_at (root w1) = file_at (root w)"
    using preservesD [OF prep_dst_frame(1), of f bp pfx dd w]
      preservesD [OF prep_dst_files, of f bp pfx dd w] p by simp_all
  have pl: "plain ?d" using names by (intro plain_join_names) simp_all
  have wk: "walk (cwd w) ?d = cwd w @ ds @ [n]" using names by (simp add: walk_join_names)
  have nd: "\<not> dir_at (root w1) (cwd w @ ds @ [n])" using tgt by (simp add: d1)
  have "shutil_copy f ?d w1 =
      (Inr ?d, store (walk (cwd w1) ?d) (File (the (file_at (root w1) (walk (cwd w1) f)))) w1)"
    using src diff nd pl
    by (intro shutil_copy_file) (simp_all add: same wk os_path_isfile_iff butlast_append d1)
  then obtain w2 where c: "shutil_copy f ?d w1 = (Inr ?d, w2)"
    and w2: "root w2 = fs_put (cwd w @ ds @ [n]) (File (the (file_at (root w) (walk (cwd w) f)))) (root w1)"
    by (simp add: same wk)
  have nid: "\<not> os_path_isdir w1 ?d" using nd by (simp add: os_path_isdir_iff same wk)
  have run: "copy_file f bp pfx dd w = (Inr (), w2)" by (simp add: copy_file_unfold p c)
  show "fst (copy_file f bp pfx dd w) = Inr ()" by (simp add: run)
  show "file_at (root (snd (copy_file f bp pfx dd w))) =
      (file_at (root w))(cwd w @ ds @ [n] \<mapsto> the (file_at (root w) (walk (cwd w) f)))"
    using shutil_copy_effect(2) [OF c nid] by (simp add: run same wk)
  show "dir_at (root (snd (copy_file f bp pfx dd w))) q \<longleftrightarrow>
      dir_at (root w) q \<or> prefix q (cwd w @ ds)"
    using shutil_copy_effect(3) [OF c nid] by (simp add: run d1)
  show "fs_lookup (root (snd (copy_file f bp pfx dd w))) q = fs_lookup (root w) q"
    if "fs_lookup (root w) q \<noteq> None" "q \<parallel> cwd w @ ds @ [n]"
    using prep_dst_lookup_frame [OF dest names that(1)] that(2) p
      parallel_snoc_not_prefix [of q "cwd w @ ds" n]
    by (simp add: run w2 fs_lookup_put_parallel parallel_commute)
qed

section \<open>\<open>process_template\<close>\<close>

lemma process_template_wf [wf_intros]:
  "maintains wf_world (process_template f bp env config pfx dd)"
  unfolding process_template_def
  by (intro maintains_intros wf_intros) (simp_all add: maintains_def)

lemma process_template_frame [frame_intros]:
  "preserves cwd (process_template f bp env config pfx dd)"
  unfolding process_template_def
  by (intro preserves_intros frame_intros) (simp_all add: preserves_def)

lemma process_template_unfold:
  assumes "w0 = snd (print_line (''processing template file '' @ f) w)"
  shows "process_template f bp env config pfx dd w =
     (case fst (get_template env (template_name f pfx) w0) of
        Inl e \<Rightarrow> (Inl e, w0)
      | Inr src \<Rightarrow>
          (case render env src config of
             Inl e \<Rightarrow> (Inl e, w0)
           | Inr r \<Rightarrow>
               (case prep_dst f bp pfx dd w0 of
                  (Inl e, w1) \<Rightarrow> (Inl e, w1)
                | (Inr d, w1) \<Rightarrow> open_write (str_replace d ''.tmpl.'' ''.'') r w1)))"
proof -
  obtain r where "get_template env (template_name f pfx) w0 = (r, w0)"
    by (metis get_template_state prod.collapse)
  then show ?thesis
    unfolding assms
    by (cases r)
      (auto simp: process_template_def thenS_def bindS_def print_line_def
        split: prod.splits sum.splits)
qed

text \<open>
  \<open>process_template\<close> on a template that the loader finds and the engine renders,
  when the destination is a plain path whose last name is the only place where
  \<^verbatim>\<open>.tmpl.\<close> occurs: it returns, the rendered text is at the destination with
  \<^verbatim>\<open>.tmpl.\<close> collapsed, no other file has changed, and one line is printed.
\<close>

lemma process_template_names:
  assumes tmpl: "fst (get_template env (template_name f pfx) w) = Inr src"
    and rend: "render env src config = Inr r"
    and dest: "dest_path f bp pfx dd = join_names (ds @ [n])"
    and names: "ds \<noteq> []" "list_all valid_name (ds @ [n])"
    and out: "str_replace (join_names (ds @ [n])) ''.tmpl.'' ''.'' = join_names (ds @ [n'])"
      "valid_name n'"
    and wd: "dir_at (root w) (cwd w)"
    and free: "\<And>q. prefix q (cwd w @ ds) \<Longrightarrow> file_at (root w) q = None"
    and tgt: "\<not> dir_at (root w) (cwd w @ ds @ [n'])"
  shows "fst (process_template f bp env config pfx dd w) = Inr ()"
    and "file_at (root (snd (process_template f bp env config pfx dd w))) =
      (file_at (root w))(cwd w @ ds @ [n'] \<mapsto> r)"
    and "dir_at (root (snd (process_template f bp env config pfx dd w))) q \<longleftrightarrow>
      dir_at (root w) q \<or> prefix q (cwd w @ ds)"
    and "stdout (snd (process_template f bp env config pfx dd w)) =
      stdout w @ [''processing template file '' @ f]"
    and "fs_lookup (root w) q \<noteq> None \<Longrightarrow> q \<parallel> cwd w @ ds @ [n'] \<Longrightarrow>
      fs_lookup (root (snd (process_template f bp env config pfx dd w))) q = fs_lookup (root w) q"
proof -
  define w0 where "w0 = snd (print_line (''processing template file '' @ f) w)"
  note w0 = printed_state [OF w0_def]
  let ?d' = "join_names (ds @ [n'])"
  have g: "fst (get_template env (template_name f pfx) w0) = Inr src"
    using get_template_cong [OF w0(1,2), of env "template_name f pfx"] tmpl by simp
  obtain w1 where p: "prep_dst f bp pfx dd w0 = (Inr (join_names (ds @ [n])), w1)"
    and d1: "\<And>q. dir_at (root w1) q \<longleftrightarrow> dir_at (root w) q \<or> prefix q (cwd w @ ds)"
    using prep_dst_names [OF dest names, of w0] wd free
    by (cases "prep_dst f bp pfx dd w0") (auto simp: w0(1,2))
  have same: "cwd w1 = cwd w" "file_at (root w1) = file_at (root w)"
    "stdout w1 = stdout w @ [''processing template file '' @ f]"
    using preservesD [OF prep_dst_frame(1), of f bp pfx dd w0]
      preservesD [OF prep_dst_frame(2), of f bp pfx dd w0]
      preservesD [OF prep_dst_files, of f bp pfx dd w0] p by (simp_all add: w0(1,2,3))
  have v': "list_all valid_name (ds @ [n'])" using names out(2) by simp
  have ow: "open_write ?d' r w1 = (Inr (), store (cwd w1 @ ds @ [n']) (File r) w1)"
    using tgt by (intro open_write_names [OF v']) (simp_all add: same d1)
  have run: "process_template f bp env config pfx dd w =
      (Inr (), store (cwd w1 @ ds @ [n']) (File r) w1)"
    by (simp add: process_template_unfold [OF w0_def] g rend p out ow)
  have wk: "walk (cwd w) ?d' = cwd w @ ds @ [n']" using v' by (simp add: walk_join_names)
  show "fst (process_template f bp env config pfx dd w) = Inr ()" by (simp add: run)
  show "file_at (root (snd (process_template f bp env config pfx dd w))) =
      (file_at (root w))(cwd w @ ds @ [n'] \<mapsto> r)"
    using open_write_effect(1) [OF ow] by (simp add: run same wk)
  show "dir_at (root (snd (process_template f bp env config pfx dd w))) q \<longleftrightarrow>
      dir_at (root w) q \<or> prefix q (cwd w @ ds)"
    using open_write_effect(2) [OF ow] by (simp add: run d1)
  show "stdout (snd (process_template f bp env config pfx dd w)) =
      stdout w @ [''processing template file '' @ f]"
    by (simp add: run same)
  show "fs_lookup (root (snd (process_template f bp env config pfx dd w))) q = fs_lookup (root w) q"
    if "fs_lookup (root w) q \<noteq> None" "q \<parallel> cwd w @ ds @ [n']"
    using prep_dst_lookup_frame [OF dest names, of w0 q] that p
      parallel_snoc_not_prefix [of q "cwd w @ ds" n']
    by (simp add: run same w0(1,2) fs_lookup_put_parallel parallel_commute)
qed

text \<open>
  When the loader or the engine raises, \<open>process_template\<close> raises the same
  exception; it has printed its line and has not touched the tree.
\<close>

lemma process_template_load_error:
  assumes "fst (get_template env (template_name f pfx) w) = Inl e"
  shows "process_template f bp env config pfx dd w =
    (Inl e, w\<lparr>stdout := stdout w @ [''processing template file '' @ f]\<rparr>)"
proof -
  define w0 where "w0 = snd (print_line (''processing template file '' @ f) w)"
  note w0 = printed_state [OF w0_def]
  have "fst (get_template env (template_name f pfx) w0) = Inl e"
    using get_template_cong [OF w0(1,2), of env "template_name f pfx"] assms by simp
  then show ?thesis by (simp add: process_template_unfold [OF w0_def] w0(4))
qed

lemma process_template_render_error:
  assumes "fst (get_template env (template_name f pfx) w) = Inr src"
    and "render env src config = Inl e"
  shows "process_template f bp env config pfx dd w =
    (Inl e, w\<lparr>stdout := stdout w @ [''processing template file '' @ f]\<rparr>)"
proof -
  define w0 where "w0 = snd (print_line (''processing template file '' @ f) w)"
  note w0 = printed_state [OF w0_def]
  have "fst (get_template env (template_name f pfx) w0) = Inr src"
    using get_template_cong [OF w0(1,2), of env "template_name f pfx"] assms by simp
  then show ?thesis using assms(2) by (simp add: process_template_unfold [OF w0_def] w0(4))
qed

section \<open>Properties\<close>

text \<open>
  C11. A file found below a source prefix is mapped to the same relative path
  below \<^verbatim>\<open>data/<build_platform>\<close>, and that destination resolves to the output
  directory followed by the names of the relative path.
\<close>

theorem dest_path_below_output:
  assumes "pfx \<noteq> []" "\<not> sublist pfx (join_names ns)"
    and "valid_name bp" "ns \<noteq> []" "list_all valid_name ns"
  shows "dest_path (pfx @ join_names ns) bp pfx None = join_names (''data'' # bp # ns) \<and>
    walk wd (dest_path (pfx @ join_names ns) bp pfx None) = wd @ ''data'' # bp # ns"
  using assms dest_path_names [OF assms] walk_join_names [of "''data'' # bp # ns" wd]
  by simp

theorem dest_path_below_output_witness:
  "dest_path (''data/webui/common/'' @ join_names [''js'', ''app.js'']) ''BUILD_TEST''
      ''data/webui/common/'' None = join_names (''data'' # ''BUILD_TEST'' # [''js'', ''app.js'']) \<and>
   walk [''proj''] (dest_path (''data/webui/common/'' @ join_names [''js'', ''app.js''])
      ''BUILD_TEST'' ''data/webui/common/'' None) = [''proj''] @ ''data'' # ''BUILD_TEST'' # [''js'', ''app.js'']"
  by (rule dest_path_below_output; code_simp)

text \<open>
  C33. With an explicit output directory the destination is the relative path
  joined to that directory; the build platform plays no part.
\<close>

theorem dest_path_explicit_dir:
  assumes "pfx \<noteq> []" "\<not> sublist pfx rel" "\<not> is_abs rel"
  shows "dest_path (pfx @ rel) bp pfx (Some d) = join2 d rel \<and>
    walk wd (dest_path (pfx @ rel) bp pfx (Some d)) =
      foldl norm_step (walk wd d) (split_on CHR ''/'' rel)"
  using assms by (simp add: dest_path_below walk_join2)

theorem dest_path_explicit_dir_witness:
  "dest_path (''data/webui/common/'' @ ''js/app.js'') ''BUILD_TEST'' ''data/webui/common/''
      (Some ''/build/out'') = join2 ''/build/out'' ''js/app.js'' \<and>
   walk [''proj''] (dest_path (''data/webui/common/'' @ ''js/app.js'') ''BUILD_TEST''
      ''data/webui/common/'' (Some ''/build/out'')) =
     foldl norm_step (walk [''proj''] ''/build/out'') (split_on CHR ''/'' ''js/app.js'')"
  by (rule dest_path_explicit_dir; code_simp)

text \<open>
  C19. \<^verbatim>\<open>fname.replace(prefix, '')\<close> removes every occurrence of the prefix, not
  only the leading one: a file whose relative path contains the prefix string
  again is mapped to the destination of the path without it.
\<close>

theorem dest_path_removes_inner_prefix:
  assumes "pfx \<noteq> []" "\<not> sublist pfx (a @ butlast pfx)" "\<not> sublist pfx b"
  shows "dest_path (pfx @ a @ pfx @ b) bp pfx dd =
    (case dd of None \<Rightarrow> path_join ''data'' [bp, a @ b] | Some d \<Rightarrow> path_join d [a @ b])"
  using assms
  by (simp add: dest_path_def str_replace_prefix str_replace_first_occ str_replace_no_occ
      Let_def)

theorem dest_path_removes_inner_prefix_witness:
  "dest_path (''data/webui/common/'' @ ''x/'' @ ''data/webui/common/'' @ ''y'') ''BUILD_TEST''
     ''data/webui/common/'' None =
   (case None of None \<Rightarrow> path_join ''data'' [''BUILD_TEST'', ''x/'' @ ''y'']
    | Some d \<Rightarrow> path_join d [''x/'' @ ''y''])"
  by (rule dest_path_removes_inner_prefix; code_simp)

text \<open>
  C10. \<open>prep_dst\<close>, when the destination is a plain path, the working directory
  exists and no file lies on the way to the destination's directory: it returns
  the destination, no file has changed, nothing is printed, and the directories
  are the old ones and the prefixes of the destination's directory.
\<close>

theorem prep_dst_creates_parent:
  assumes "dest_path f bp pfx dd = join_names (ds @ [n])"
    and "ds \<noteq> []" "list_all valid_name (ds @ [n])"
    and "dir_at (root w) (cwd w)" "no_file_on (root w) (cwd w @ ds)"
  shows "fst (prep_dst f bp pfx dd w) = Inr (join_names (ds @ [n])) \<and>
    file_at (root (snd (prep_dst f bp pfx dd w))) = file_at (root w) \<and>
    stdout (snd (prep_dst f bp pfx dd w)) = stdout w \<and>
    (\<forall>q. dir_at (root (snd (prep_dst f bp pfx dd w))) q \<longleftrightarrow>
          dir_at (root w) q \<or> prefix q (cwd w @ ds))"
  using prep_dst_names [OF assms(1-4) no_file_onD [OF assms(5)]]
    preservesD [OF prep_dst_files, of f bp pfx dd w]
    preservesD [OF prep_dst_frame(2), of f bp pfx dd w]
  by simp

theorem prep_dst_creates_parent_witness:
  "fst (prep_dst ''data/webui/common/js/app.js'' ''BUILD_NEW'' ''data/webui/common/'' None example_world) =
      Inr (join_names ([''data'', ''BUILD_NEW'', ''js''] @ [''app.js''])) \<and>
    file_at (root (snd (prep_dst ''data/webui/common/js/app.js'' ''BUILD_NEW'' ''data/webui/common/'' None example_world))) =
      file_at (root example_world) \<and>
    stdout (snd (prep_dst ''data/webui/common/js/app.js'' ''BUILD_NEW'' ''data/webui/common/'' None example_world)) =
      stdout example_world \<and>
    (\<forall>q. dir_at (root (snd (prep_dst ''data/webui/common/js/app.js'' ''BUILD_NEW'' ''data/webui/common/'' None example_world))) q \<longleftrightarrow>
          dir_at (root example_world) q \<or> prefix q (cwd example_world @ [''data'', ''BUILD_NEW'', ''js'']))"
  by (rule prep_dst_creates_parent; code_simp)

text \<open>
  C26. \<open>prep_dst\<close> with a regular file above the destination's directory raises
  \<^verbatim>\<open>NotADirectoryError\<close> and leaves the state as it is.
\<close>

theorem prep_dst_file_in_the_way:
  assumes "dest_path f bp pfx dd = join_names (ds @ [n])" "list_all valid_name (ds @ [n])"
    and "file_at (root w) (cwd w @ ms) \<noteq> None" "strict_prefix ms ds"
  shows "prep_dst f bp pfx dd w = (Inl NotADirectoryError, w)"
  using assms prep_dst_blocked [of f bp pfx dd ds n w ms] by auto

theorem prep_dst_file_in_the_way_witness:
  "prep_dst ''data/webui/common/stale.txt/js/app.js'' ''BUILD_TEST'' ''data/webui/common/'' None
     example_world = (Inl NotADirectoryError, example_world)"
  by (rule prep_dst_file_in_the_way
       [where ds = "[''data'', ''BUILD_TEST'', ''stale.txt'', ''js'']" and n = "''app.js''"
          and ms = "[''data'', ''BUILD_TEST'', ''stale.txt'']"]; code_simp)

text \<open>
  C4. \<open>copy_file\<close> on a regular file, when the destination is a plain path with
  no file on the way to its directory, is not a directory and is not the source
  itself: the call returns, the destination holds the content of the source, every
  other file is as before, and the directories are the old ones and the prefixes
  of the destination's directory.
\<close>

theorem copy_file_copies:
  assumes "dest_path f bp pfx dd = join_names (ds @ [n])"
    and "ds \<noteq> []" "list_all valid_name (ds @ [n])"
    and "dir_at (root w) (cwd w)" "no_file_on (root w) (cwd w @ ds)"
    and "os_path_isfile w f" "\<not> dir_at (root w) (cwd w @ ds @ [n])"
    and "walk (cwd w) f \<noteq> cwd w @ ds @ [n]"
  shows "fst (copy_file f bp pfx dd w) = Inr () \<and>
    file_at (root (snd (copy_file f bp pfx dd w))) =
      (file_at (root w))(cwd w @ ds @ [n] \<mapsto> the (file_at (root w) (walk (cwd w) f))) \<and>
    (\<forall>q. dir_at (root (snd (copy_file f bp pfx dd w))) q \<longleftrightarrow>
          dir_at (root w) q \<or> prefix q (cwd w @ ds))"
  using copy_file_names [OF assms(1-4) no_file_onD [OF assms(5)] assms(6-8)] by simp

theorem copy_file_copies_witness:
  "fst (copy_file ''data/webui/common/js/app.js'' ''BUILD_TEST'' ''data/webui/common/'' None example_world) = Inr () \<and>
    file_at (root (snd (copy_file ''data/webui/common/js/app.js'' ''BUILD_TEST'' ''data/webui/common/'' None example_world))) =
      (file_at (root example_world))(cwd example_world @ [''data'', ''BUILD_TEST'', ''js''] @ [''app.js''] \<mapsto>
         the (file_at (root example_world) (walk (cwd example_world) ''data/webui/common/js/app.js''))) \<and>
    (\<forall>q. dir_at (root (snd (copy_file ''data/webui/common/js/app.js'' ''BUILD_TEST'' ''data/webui/common/'' None example_world))) q \<longleftrightarrow>
          dir_at (root example_world) q \<or> prefix q (cwd example_world @ [''data'', ''BUILD_TEST'', ''js'']))"
  by (rule copy_file_copies; code_simp)

text \<open>
  C5. \<open>process_template\<close> on a template the loader finds and the engine
  renders, when \<^verbatim>\<open>.tmpl.\<close> occurs in the last name of the destination only: the
  call returns, the rendered text is at the destination with \<^verbatim>\<open>.tmpl.\<close> collapsed
  to a dot, every other file is as before, and one line is printed.
\<close>

theorem process_template_renders:
  assumes "fst (get_template env (template_name f pfx) w) = Inr src"
    and "render env src config = Inr r"
    and "dest_path f bp pfx dd = join_names (ds @ [n])"
    and "ds \<noteq> []" "list_all valid_name (ds @ [n])"
    and "str_replace (join_names (ds @ [n])) ''.tmpl.'' ''.'' = join_names (ds @ [n'])"
    and "valid_name n'"
    and "dir_at (root w) (cwd w)" "no_file_on (root w) (cwd w @ ds)"
    and "\<not> dir_at (root w) (cwd w @ ds @ [n'])"
  shows "fst (process_template f bp env config pfx dd w) = Inr () \<and>
    file_at (root (snd (process_template f bp env config pfx dd w))) =
      (file_at (root w))(cwd w @ ds @ [n'] \<mapsto> r) \<and>
    stdout (snd (process_template f bp env config pfx dd w)) =
      stdout w @ [''processing template file '' @ f]"
  using process_template_names(1,2,4) [OF assms(1-8) no_file_onD [OF assms(9)] assms(10)]
  by simp

theorem process_template_renders_witness:
  "fst (process_template ''data/webui/template/banner.tmpl.html'' ''BUILD_TEST'' example_env
      [(''title'', ''X'')] ''data/webui/template/'' None example_world) = Inr () \<and>
   file_at (root (snd (process_template ''data/webui/template/banner.tmpl.html'' ''BUILD_TEST''
      example_env [(''title'', ''X'')] ''data/webui/template/'' None example_world))) =
     (file_at (root example_world))(cwd example_world @ [''data'', ''BUILD_TEST''] @ [''banner.html'']
        \<mapsto> ''<h1>X</h1>'') \<and>
   stdout (snd (process_template ''data/webui/template/banner.tmpl.html'' ''BUILD_TEST''
      example_env [(''title'', ''X'')] ''data/webui/template/'' None example_world)) =
     stdout example_world @ [''processing template file '' @ ''data/webui/template/banner.tmpl.html'']"
  by (rule process_template_renders
       [where src = "''<h1>{{title}}</h1>''" and n = "''banner.tmpl.html''"]; code_simp)

text \<open>
  C25. When the engine raises while rendering, \<open>process_template\<close> raises the
  same exception; it has printed its line and has written nothing.
\<close>

theorem process_template_engine_error:
  assumes "fst (get_template env (template_name f pfx) w) = Inr src"
    and "render env src config = Inl e"
  shows "process_template f bp env config pfx dd w =
      (Inl e, w\<lparr>stdout := stdout w @ [''processing template file '' @ f]\<rparr>)"
  using assms by (rule process_template_render_error)

theorem process_template_engine_error_witness:
  "process_template ''data/webui/template/banner.tmpl.html'' ''BUILD_TEST'' example_env
      [] ''data/webui/template/'' None example_world =
    (Inl TemplateError, example_world\<lparr>stdout := stdout example_world @
       [''processing template file '' @ ''data/webui/template/banner.tmpl.html'']\<rparr>)"
  by (rule process_template_engine_error [where src = "''<h1>{{title}}</h1>''"]; code_simp)

text \<open>
  C21. Line 24 collapses \<^verbatim>\<open>.tmpl.\<close> in the whole destination, the directory
  included, after \<open>prep_dst\<close> has created the directory under its own name. For a
  template below a directory whose name holds \<^verbatim>\<open>.tmpl.\<close>, when the collapsed
  directory does not exist, \<open>process_template\<close> raises \<^verbatim>\<open>FileNotFoundError\<close>; it has
  created the directory of the destination and has written no file.
\<close>

theorem process_template_marker_in_directory:
  assumes tmpl: "fst (get_template env (template_name f pfx) w) = Inr src"
    and rend: "render env src config = Inr r"
    and dest: "dest_path f bp pfx dd = join_names (ds @ [n])"
    and names: "ds \<noteq> []" "list_all valid_name (ds @ [n])"
    and out: "str_replace (join_names (ds @ [n])) ''.tmpl.'' ''.'' = join_names (ds' @ [n'])"
      "list_all valid_name (ds' @ [n'])"
    and wd: "dir_at (root w) (cwd w)" and free: "no_file_on (root w) (cwd w @ ds)"
    and miss: "fs_lookup (root w) (cwd w @ ds') = None" "no_file_on (root w) (cwd w @ ds')"
      "\<not> prefix ds' ds"
  shows "fst (process_template f bp env config pfx dd w) = Inl FileNotFoundError \<and>
    file_at (root (snd (process_template f bp env config pfx dd w))) = file_at (root w) \<and>
    dir_at (root (snd (process_template f bp env config pfx dd w))) (cwd w @ ds)"
proof -
  define w0 where "w0 = snd (print_line (''processing template file '' @ f) w)"
  note w0 = printed_state [OF w0_def]
  have g: "fst (get_template env (template_name f pfx) w0) = Inr src"
    using get_template_cong [OF w0(1,2), of env "template_name f pfx"] tmpl by simp
  obtain w1 where p: "prep_dst f bp pfx dd w0 = (Inr (join_names (ds @ [n])), w1)"
    and d1: "\<And>q. dir_at (root w1) q \<longleftrightarrow> dir_at (root w) q \<or> prefix q (cwd w @ ds)"
    using prep_dst_names [OF dest names, of w0] wd no_file_onD [OF free]
    by (cases "prep_dst f bp pfx dd w0") (auto simp: w0(1,2))
  have same: "cwd w1 = cwd w" "file_at (root w1) = file_at (root w)"
    using preservesD [OF prep_dst_frame(1), of f bp pfx dd w0]
      preservesD [OF prep_dst_files, of f bp pfx dd w0] p by (simp_all add: w0(1,2))
  have "fs_lookup (root w1) (cwd w @ ds') = None"
    using miss(1,3) by (simp add: fs_lookup_None_iff d1 same)
  then have "open_write (join_names (ds' @ [n'])) r w1 = (Inl FileNotFoundError, w1)"
    using no_file_onD [OF miss(2)] by (intro open_write_names_missing [OF out(2)]) (simp_all add: same)
  then have "process_template f bp env config pfx dd w = (Inl FileNotFoundError, w1)"
    by (simp add: process_template_unfold [OF w0_def] g rend p out(1))
  then show ?thesis by (simp add: same d1)
qed

theorem process_template_marker_in_directory_witness:
  "fst (process_template ''data/webui/template/a.tmpl.d/x.tmpl.html'' ''BUILD_TEST'' example_env
      [(''title'', ''X'')] ''data/webui/template/'' None
      (store [''proj'', ''data'', ''webui'', ''template'', ''a.tmpl.d'']
         (Dir [(''x.tmpl.html'', File ''{{title}}'')]) example_world)) = Inl FileNotFoundError \<and>
   file_at (root (snd (process_template ''data/webui/template/a.tmpl.d/x.tmpl.html'' ''BUILD_TEST''
      example_env [(''title'', ''X'')] ''data/webui/template/'' None
      (store [''proj'', ''data'', ''webui'', ''template'', ''a.tmpl.d'']
         (Dir [(''x.tmpl.html'', File ''{{title}}'')]) example_world)))) =
     file_at (root (store [''proj'', ''data'', ''webui'', ''template'', ''a.tmpl.d'']
         (Dir [(''x.tmpl.html'', File ''{{title}}'')]) example_world)) \<and>
   dir_at (root (snd (process_template ''data/webui/template/a.tmpl.d/x.tmpl.html'' ''BUILD_TEST''
      example_env [(''title'', ''X'')] ''data/webui/template/'' None
      (store [''proj'', ''data'', ''webui'', ''template'', ''a.tmpl.d'']
         (Dir [(''x.tmpl.html'', File ''{{title}}'')]) example_world))))
     (cwd (store [''proj'', ''data'', ''webui'', ''template'', ''a.tmpl.d'']
         (Dir [(''x.tmpl.html'', File ''{{title}}'')]) example_world) @
      [''data'', ''BUILD_TEST'', ''a.tmpl.d''])"
  by (rule process_template_marker_in_directory
        [where src = "''{{title}}''" and n = "''x.tmpl.html''" and ds' = "[''data'', ''BUILD_TEST'', ''a.d'']"
           and n' = "''x.html''"]; code_simp)

text \<open>
  C22. Line 22 replaces every backslash of the relative path by a slash before the
  template is looked up. A template file whose name holds a backslash (a
  character that a POSIX file name may hold) is looked up under another name:
  when no file of that name exists below the search path, \<open>process_template\<close>
  raises \<^verbatim>\<open>TemplateNotFound\<close> although the file it was called for exists.
\<close>

theorem process_template_backslash_not_found:
  assumes "os_path_isfile w (pfx @ rel)" "pfx \<noteq> []" "\<not> sublist pfx rel"
    and "split_template_path (str_replace rel [CHR 0x5C] ''/'') = Inr pieces"
    and "\<not> os_path_isfile w (path_join (searchpath env) pieces)"
  shows "process_template (pfx @ rel) bp env config pfx dd w =
    (Inl (TemplateNotFound (str_replace rel [CHR 0x5C] ''/'')),
     w\<lparr>stdout := stdout w @ [''processing template file '' @ pfx @ rel]\<rparr>)"
proof -
  have "template_name (pfx @ rel) pfx = str_replace rel [CHR 0x5C] ''/''"
    using assms(2,3) by (simp add: template_name_def str_replace_prefix str_replace_no_occ)
  with get_template_not_found [OF assms(4,5)] show ?thesis
    by (intro process_template_load_error) simp
qed

theorem process_template_backslash_not_found_witness:
  "process_template (''data/webui/template/'' @ ''a'' @ [CHR 0x5C] @ ''b.tmpl.html'') ''BUILD_TEST''
      example_env [(''title'', ''X'')] ''data/webui/template/'' None
      (store [''proj'', ''data'', ''webui'', ''template'', ''a'' @ [CHR 0x5C] @ ''b.tmpl.html'']
         (File ''{{title}}'') example_world) =
    (Inl (TemplateNotFound (str_replace (''a'' @ [CHR 0x5C] @ ''b.tmpl.html'') [CHR 0x5C] ''/'')),
     (store [''proj'', ''data'', ''webui'', ''template'', ''a'' @ [CHR 0x5C] @ ''b.tmpl.html'']
         (File ''{{title}}'') example_world)
       \<lparr>stdout := stdout (store [''proj'', ''data'', ''webui'', ''template'',
             ''a'' @ [CHR 0x5C] @ ''b.tmpl.html''] (File ''{{title}}'') example_world) @
          [''processing template file '' @ ''data/webui/template/'' @
             ''a'' @ [CHR 0x5C] @ ''b.tmpl.html'']\<rparr>)"
  by (rule process_template_backslash_not_found [where pieces = "[''a'', ''b.tmpl.html'']"];
      code_simp)

text \<open>
  C24. When the directory of the destination is a regular file, \<open>prep_dst\<close> finds
  that it exists and creates nothing, and the copy raises
  \<^verbatim>\<open>NotADirectoryError\<close>; the state is unchanged. (This is what happens to the
  first file of a run whose output directory is a regular file: line 74 removes
  the output directory only when it is a directory.)
\<close>

theorem copy_file_below_file:
  assumes dest: "dest_path f bp pfx dd = join_names (ds @ [n])"
    and names: "ds \<noteq> []" "list_all valid_name (ds @ [n])"
    and blk: "file_at (root w) (cwd w @ ds) = Some x"
    and src: "os_path_isfile w f"
  shows "copy_file f bp pfx dd w = (Inl NotADirectoryError, w)"
proof -
  let ?d = "join_names (ds @ [n])"
  from names have v: "list_all valid_name ds" "valid_name n" by simp_all
  have dir: "dirname ?d = join_names ds"
    using names v by (simp add: dirname_join_names_snoc valid_name_no_sep)
  have "os_path_exists w (join_names ds)"
    using names(1) v(1) blk by (simp add: exists_plain walk_join_names file_at_iff)
  then have p: "prep_dst f bp pfx dd w = (Inr ?d, w)" by (simp add: prep_dst_unfold dest dir)
  have pl: "plain ?d" using names by (intro plain_join_names) simp_all
  have wk: "walk (cwd w) ?d = cwd w @ ds @ [n]" using names by (simp add: walk_join_names)
  have none: "fs_lookup (root w) (cwd w @ ds @ [n]) = None"
    using file_at_below_None [OF blk, of "cwd w @ ds @ [n]"] by (simp add: strict_prefix_def)
  then have "\<not> os_path_isdir w ?d" "\<not> samefile w f ?d"
    by (simp_all add: os_path_isdir_iff wk dir_at_iff samefile_def stat_plain [OF pl])
  moreover have "open_write ?d b w = (Inl NotADirectoryError, w)" for b
    using names(2) blk by (rule open_write_names_below_file)
  ultimately have "shutil_copy f ?d w = (Inl NotADirectoryError, w)"
    using read_file_isfile [OF src]
    by (simp add: shutil_copy_def copyfile_def bindS_def Let_def)
  with p show ?thesis by (simp add: copy_file_unfold)
qed

theorem copy_file_below_file_witness:
  "copy_file ''data/webui/common/logo.bin'' ''BUILD_X'' ''data/webui/common/'' None
     (store [''proj'', ''data'', ''BUILD_X''] (File ''x'') example_world) =
   (Inl NotADirectoryError, store [''proj'', ''data'', ''BUILD_X''] (File ''x'') example_world)"
  by (rule copy_file_below_file [where ds = "[''data'', ''BUILD_X'']" and n = "''logo.bin''"];
      code_simp)

end
