(* ===== verification/Script.thy ===== *)
theory Script
  imports Stager
begin

text \<open>
  The module body of \<^verbatim>\<open>src/build_webui.py\<close> (lines 32 to 99), statement by
  statement.

  \<^item> What the script reads from outside the file system is its input: \<open>pio_env\<close> is
    the \<^verbatim>\<open>env\<close> object that \<^verbatim>\<open>Import("env")\<close> binds under PlatformIO (\<open>None\<close>
    when the name is undefined and the script runs standalone), \<open>environ\<close> is
    \<^verbatim>\<open>os.environ\<close>. The parsers the script only calls are the parameters
    \<open>ini_parse\<close> (\<^verbatim>\<open>configparser\<close>: the text of \<^verbatim>\<open>platformio.ini\<close> to its sections)
    and \<open>yaml_load\<close> (the text of the configuration document to its value); the
    rendering function is part of the template environment.
  \<^item> \<open>resolve_context\<close> is lines 32 to 57 and yields the build context \<open>ctx\<close>;
    \<open>load_config\<close> is line 60; \<open>announce\<close> lines 62 to 65; \<open>check_platform\<close> lines
    67 and 68; \<open>clean_output\<close> lines 70 to 75; \<open>copy_common\<close>, \<open>copy_templates\<close>
    and \<open>copy_device_specific\<close> the loops of lines 78 to 81, 84 to 91 and 96 to
    99; \<open>build_webui\<close> runs them in the order of the file.
\<close>

section \<open>Inputs\<close>

record pio_env =
  PIOENV :: string
  PROGRAM_ARGS :: "string list"

record ctx =
  target :: string
  build_platform :: string
  build_data_dir :: "path option"

type_synonym ini = "(string \<times> (string \<times> string) list) list"

record 'cfg parsers =
  ini_parse :: "bytes \<Rightarrow> pyerr + ini"
  yaml_load :: "bytes \<Rightarrow> pyerr + 'cfg"

definition py_str :: "string option \<Rightarrow> string" where
  "py_str v = (case v of None \<Rightarrow> ''None'' | Some s \<Rightarrow> s)"

section \<open>The build context (lines 32 to 57)\<close>

definition read_ini :: "'cfg parsers \<Rightarrow> path \<Rightarrow> (world, ini) prog" where
  "read_ini ps filename w =
     (case read_file filename w of
        (Inl _, _) \<Rightarrow> (Inr [], w)
      | (Inr content, _) \<Rightarrow> (ini_parse ps content, w))"

definition ini_get :: "ini \<Rightarrow> string \<Rightarrow> string \<Rightarrow> pyerr + string" where
  "ini_get cfg section key =
     (case map_of cfg section of
        None \<Rightarrow> Inl (KeyError section)
      | Some kvs \<Rightarrow>
          (case map_of kvs key of None \<Rightarrow> Inl (KeyError key) | Some v \<Rightarrow> Inr v))"

definition context_from_environ :: "(string \<rightharpoonup> string) \<Rightarrow> (world, ctx) prog" where
  "context_from_environ environ =
     thenS (print_line ''Running build_webui.py outside the PlatformIO environment!'')
    (thenS (print_line ''Using environment variables:'')
    (thenS (print_line (''FUJINET_TARGET='' @ py_str (environ ''FUJINET_TARGET'')))
    (thenS (print_line (''FUJINET_BUILD_PLATFORM='' @ py_str (environ ''FUJINET_BUILD_PLATFORM'')))
      (if \<not> truthy (environ ''FUJINET_TARGET'') \<or> \<not> truthy (environ ''FUJINET_BUILD_PLATFORM'')
       then raiseS (Exception ''Missing environment variables'')
       else returnS
         \<lparr>target = the (environ ''FUJINET_TARGET''),
          build_platform = the (environ ''FUJINET_BUILD_PLATFORM''),
          build_data_dir = environ ''BUILD_DATA_DIR''\<rparr>))))"

definition context_from_pio :: "'cfg parsers \<Rightarrow> pio_env \<Rightarrow> (world, ctx) prog" where
  "context_from_pio ps env =
     bindS (read_ini ps ''platformio.ini'') (\<lambda>pio_config.
       case ini_get pio_config ''fujinet'' ''build_platform'' of
         Inl e \<Rightarrow> raiseS e
       | Inr bp \<Rightarrow> returnS
           \<lparr>target = (if ''dev'' \<in> set (PROGRAM_ARGS env) then ''dev'' else PIOENV env),
            build_platform = bp,
            build_data_dir = None\<rparr>)"

definition resolve_context ::
  "'cfg parsers \<Rightarrow> pio_env option \<Rightarrow> (string \<rightharpoonup> string) \<Rightarrow> (world, ctx) prog"
where
  "resolve_context ps env environ =
     (case env of
        None \<Rightarrow> context_from_environ environ
      | Some e \<Rightarrow> context_from_pio ps e)"

section \<open>Configuration, announcement, platform check, clean-up (lines 59 to 75)\<close>

definition template_root :: path where
  "template_root = ''data/webui/template''"

definition load_config :: "'cfg parsers \<Rightarrow> ctx \<Rightarrow> (world, 'cfg) prog" where
  "load_config ps c =
     bindS (read_file (path_join ''data'' [''webui'', ''config'', target c @ ''.yaml'']))
       (\<lambda>content. liftE (\<lambda>_. yaml_load ps content))"

definition announce :: "ctx \<Rightarrow> (world, unit) prog" where
  "announce c =
     (case build_data_dir c of
        None \<Rightarrow> print_line (''Building webUI into data/'' @ build_platform c)
      | Some d \<Rightarrow> print_line (''Building webUI into '' @ d))"

definition check_platform :: "ctx \<Rightarrow> (world, unit) prog" where
  "check_platform c =
     (if \<not> startswith (build_platform c) ''BUILD_''
      then raiseS (Exception ''build_platform does not match BUILD_*, aborting'')
      else returnS ())"

definition data_build_platform_path :: "ctx \<Rightarrow> path" where
  "data_build_platform_path c =
     (case build_data_dir c of
        None \<Rightarrow> path_join ''data'' [build_platform c]
      | Some d \<Rightarrow> d)"

definition clean_output :: "ctx \<Rightarrow> (world, unit) prog" where
  "clean_output c =
     bindS (getS (\<lambda>w. os_path_isdir w (data_build_platform_path c))) (\<lambda>present.
       whenS present (shutil_rmtree (data_build_platform_path c)))"

section \<open>The three layers (lines 77 to 99)\<close>

definition common_prefix :: path where
  "common_prefix = path_join ''data'' [''webui'', ''common'', [] ]"

definition webui_template_prefix :: path where
  "webui_template_prefix = path_join ''data'' [''webui'', ''template'', [] ]"

definition dev_specific_prefix :: "ctx \<Rightarrow> path" where
  "dev_specific_prefix c =
     path_join ''data'' [''webui'', ''device_specific'', build_platform c, [] ]"

definition copy_common :: "ctx \<Rightarrow> (world, unit) prog" where
  "copy_common c =
     bindS (getS (\<lambda>w. iglob_recursive w common_prefix)) (\<lambda>names.
       for_each (\<lambda>filename.
         bindS (getS (\<lambda>w. os_path_isfile w filename)) (\<lambda>isfile.
           whenS isfile
             (copy_file filename (build_platform c) common_prefix (build_data_dir c))))
         names)"

definition copy_templates :: "'cfg template_env \<Rightarrow> 'cfg \<Rightarrow> ctx \<Rightarrow> (world, unit) prog" where
  "copy_templates env config c =
     bindS (getS (\<lambda>w. iglob_recursive w webui_template_prefix)) (\<lambda>names.
       for_each (\<lambda>filename.
         bindS (getS (\<lambda>w. os_path_isfile w filename)) (\<lambda>isfile.
           whenS isfile
             (if template_matcher filename
              then process_template filename (build_platform c) env config
                     webui_template_prefix (build_data_dir c)
              else copy_file filename (build_platform c) webui_template_prefix
                     (build_data_dir c))))
         names)"

definition copy_device_specific :: "ctx \<Rightarrow> (world, unit) prog" where
  "copy_device_specific c =
     bindS (getS (\<lambda>w. iglob_recursive w (dev_specific_prefix c))) (\<lambda>names.
       for_each (\<lambda>filename.
         bindS (getS (\<lambda>w. os_path_isfile w filename)) (\<lambda>isfile.
           whenS (isfile \<and> filename \<noteq> ''.keep'')
             (copy_file filename (build_platform c) (dev_specific_prefix c)
                (build_data_dir c))))
         names)"

section \<open>The whole run\<close>

definition stage :: "'cfg template_env \<Rightarrow> 'cfg \<Rightarrow> ctx \<Rightarrow> (world, unit) prog" where
  "stage env config c =
     thenS (announce c)
    (thenS (check_platform c)
    (thenS (clean_output c)
    (thenS (copy_common c)
    (thenS (copy_templates env config c)
           (copy_device_specific c)))))"

definition build_webui ::
  "'cfg parsers \<Rightarrow> (bytes \<Rightarrow> 'cfg \<Rightarrow> pyerr + bytes) \<Rightarrow> pio_env option \<Rightarrow>
     (string \<rightharpoonup> string) \<Rightarrow> (world, unit) prog"
where
  "build_webui ps rend env environ =
     bindS (resolve_context ps env environ) (\<lambda>c.
     bindS (load_config ps c) (\<lambda>config.
       stage \<lparr>searchpath = template_root, render = rend\<rparr> config c))"

section \<open>Inputs for examples\<close>

definition example_parsers :: "(string \<times> string) list parsers" where
  "example_parsers =
     \<lparr>ini_parse = (\<lambda>_. Inr [(''fujinet'', [(''build_platform'', ''BUILD_TEST'')])]),
      yaml_load = (\<lambda>_. Inr [(''title'', ''X'')])\<rparr>"

definition example_environ :: "string \<Rightarrow> string \<Rightarrow> string \<rightharpoonup> string" where
  "example_environ t bp = map_of [(''FUJINET_TARGET'', t), (''FUJINET_BUILD_PLATFORM'', bp)]"

definition example_ctx :: ctx where
  "example_ctx = \<lparr>target = ''t'', build_platform = ''BUILD_TEST'', build_data_dir = None\<rparr>"

definition example_config :: "(string \<times> string) list" where
  "example_config = [(''title'', ''X'')]"

section \<open>Invariant and frames of the run\<close>

lemma read_ini_pure: "preserves (\<lambda>w. w) (read_ini ps f)"
  by (simp add: preserves_def read_ini_def split: prod.splits sum.splits)

lemma context_from_pio_pure: "preserves (\<lambda>w. w) (context_from_pio ps e)"
  unfolding context_from_pio_def by (intro preserves_intros read_ini_pure)

lemma load_config_pure: "preserves (\<lambda>w. w) (load_config ps c)"
  unfolding load_config_def by (intro preserves_intros read_file_pure)

lemma context_from_environ_frame [frame_intros]:
  "preserves root (context_from_environ environ)" "preserves cwd (context_from_environ environ)"
  unfolding context_from_environ_def by (intro preserves_intros frame_intros)+

lemma resolve_context_frame [frame_intros]:
  "preserves root (resolve_context ps env environ)" "preserves cwd (resolve_context ps env environ)"
  unfolding resolve_context_def
  by (intro preserves_intros frame_intros preserves_all [OF context_from_pio_pure])+

lemma resolve_context_wf [wf_intros]: "maintains wf_world (resolve_context ps env environ)"
  unfolding resolve_context_def context_from_environ_def
  by (intro maintains_intros wf_intros maintains_all [OF context_from_pio_pure])

lemma load_config_wf [wf_intros]: "maintains P (load_config ps c)"
  by (rule maintains_all [OF load_config_pure])

lemma announce_wf [wf_intros]: "maintains wf_world (announce c)"
  unfolding announce_def by (intro maintains_intros wf_intros)

lemma announce_frame [frame_intros]: "preserves root (announce c)" "preserves cwd (announce c)"
  unfolding announce_def by (intro preserves_intros frame_intros)+

lemma check_platform_wf [wf_intros]: "maintains P (check_platform c)"
  unfolding check_platform_def by (intro maintains_intros)

lemma clean_output_wf [wf_intros]: "maintains wf_world (clean_output c)"
  unfolding clean_output_def by (intro maintains_intros wf_intros)

lemma copy_common_wf [wf_intros]: "maintains wf_world (copy_common c)"
  unfolding copy_common_def by (intro maintains_intros wf_intros)

lemma copy_templates_wf [wf_intros]: "maintains wf_world (copy_templates env config c)"
  unfolding copy_templates_def by (intro maintains_intros wf_intros)

lemma copy_device_specific_wf [wf_intros]: "maintains wf_world (copy_device_specific c)"
  unfolding copy_device_specific_def by (intro maintains_intros wf_intros)

lemma stage_wf [wf_intros]: "maintains wf_world (stage env config c)"
  unfolding stage_def by (intro maintains_intros wf_intros)

lemma build_webui_maintains_wf: "maintains wf_world (build_webui ps rend env environ)"
  unfolding build_webui_def by (intro maintains_intros wf_intros)

lemma clean_output_cwd [frame_intros]: "preserves cwd (clean_output c)"
  unfolding clean_output_def by (intro preserves_intros frame_intros)

lemma copy_common_cwd [frame_intros]: "preserves cwd (copy_common c)"
  unfolding copy_common_def by (intro preserves_intros frame_intros)

lemma copy_templates_cwd [frame_intros]: "preserves cwd (copy_templates env config c)"
  unfolding copy_templates_def by (intro preserves_intros frame_intros)

lemma copy_device_specific_cwd [frame_intros]: "preserves cwd (copy_device_specific c)"
  unfolding copy_device_specific_def by (intro preserves_intros frame_intros)

lemma stage_cwd [frame_intros]: "preserves cwd (stage env config c)"
  unfolding stage_def check_platform_def by (intro preserves_intros frame_intros)

lemma build_webui_cwd: "preserves cwd (build_webui ps rend env environ)"
  unfolding build_webui_def
  by (intro preserves_intros frame_intros preserves_all [OF load_config_pure])

section \<open>What happens before the first write\<close>

lemma announce_returns: "fst (announce c w) = Inr ()"
  by (simp add: announce_def split: option.splits)

lemma check_platform_accepts:
  "startswith (build_platform c) ''BUILD_'' \<Longrightarrow> check_platform c w = (Inr (), w)"
  by (simp add: check_platform_def)

lemma stage_bad_platform:
  assumes "\<not> startswith (build_platform c) ''BUILD_''"
  shows "stage env config c w =
    (Inl (Exception ''build_platform does not match BUILD_*, aborting''), snd (announce c w))"
proof -
  obtain w1 where "announce c w = (Inr (), w1)"
    using announce_returns [of c w] by (metis prod.collapse)
  then show ?thesis
    using assms by (simp add: stage_def thenS_def bindS_def check_platform_def)
qed

lemma load_config_unfold:
  "load_config ps c w =
     (case fst (read_file (path_join ''data'' [''webui'', ''config'', target c @ ''.yaml'']) w) of
        Inl e \<Rightarrow> (Inl e, w)
      | Inr content \<Rightarrow> (yaml_load ps content, w))"
proof -
  obtain r where "read_file (path_join ''data'' [''webui'', ''config'', target c @ ''.yaml'']) w = (r, w)"
    by (metis read_file_state prod.collapse)
  then show ?thesis by (cases r) (simp_all add: load_config_def bindS_def)
qed

lemma build_webui_unfold:
  "build_webui ps rend env environ w =
     (case resolve_context ps env environ w of
        (Inl e, w1) \<Rightarrow> (Inl e, w1)
      | (Inr c, w1) \<Rightarrow>
          (case fst (load_config ps c w1) of
             Inl e \<Rightarrow> (Inl e, w1)
           | Inr config \<Rightarrow> stage \<lparr>searchpath = template_root, render = rend\<rparr> config c w1))"
proof (cases "resolve_context ps env environ w")
  case (Pair r w1)
  then show ?thesis
    by (cases r) (auto simp: build_webui_def bindS_def load_config_unfold split: sum.splits)
qed

section \<open>Properties\<close>



end
