(* ===== verification/Overlay.thy ===== *)
theory Overlay
  imports Makedirs
begin

text \<open>
  The specification side of the staging: the file system seen as a map from
  resolved paths to file contents together with the set of directories
  (\<open>view\<close>), the two operations on it that the run is built from (\<open>a_put\<close>:
  write a file and make the directories above it; \<open>a_clear\<close>: remove a
  directory with everything below it), and a \<open>plan\<close>: the list of writes in the
  order they are made, so that a later write to a path replaces an earlier one.

  \<open>performs I m pl\<close> says that the statement \<open>m\<close> implements the plan \<open>pl\<close>:
  from a state that satisfies \<open>I\<close> and in which the plan fits, \<open>m\<close> returns, keeps
  \<open>I\<close>, and the view of the state it leaves is the one that \<open>a_run pl\<close> computes.
  A plan fits when its targets are ready (nothing is a file on the way to a
  target, and no target is a directory) and separate (no target lies below
  another). The statements that implement a plan are closed under sequencing
  and under the \<^verbatim>\<open>for\<close> loop.

  \<open>aborts I m pl e\<close> is the same for a statement that raises: from such a
  state \<open>m\<close> raises \<open>e\<close>, keeps \<open>I\<close> and leaves the view that the writes of \<open>pl\<close>
  compute. A sequence aborts with the writes made before the statement that
  raises, a loop with the writes of the elements before the one that raises.
\<close>

section \<open>Views and plans\<close>

type_synonym view = "(string list \<rightharpoonup> bytes) \<times> (string list \<Rightarrow> bool)"

type_synonym plan = "(string list \<times> bytes) list"

definition view_of :: "world \<Rightarrow> view" where
  "view_of w = (file_at (root w), dir_at (root w))"

definition a_put :: "string list \<Rightarrow> bytes \<Rightarrow> view \<Rightarrow> view" where
  "a_put p b v = ((fst v)(p \<mapsto> b), \<lambda>q. snd v q \<or> prefix q (butlast p))"

definition a_clear :: "string list \<Rightarrow> view \<Rightarrow> view" where
  "a_clear p v = (\<lambda>q. if prefix p q then None else fst v q, \<lambda>q. \<not> prefix p q \<and> snd v q)"

definition a_run :: "plan \<Rightarrow> view \<Rightarrow> view" where
  "a_run pl v = fold (\<lambda>(p, b). a_put p b) pl v"

definition ready :: "string list \<Rightarrow> view \<Rightarrow> bool" where
  "ready p v \<longleftrightarrow> list_all (\<lambda>q. fst v q = None) (prefixes (butlast p)) \<and> \<not> snd v p"

definition apart :: "string list \<Rightarrow> string list \<Rightarrow> bool" where
  "apart p q \<longleftrightarrow> \<not> (prefix p q \<and> p \<noteq> q) \<and> \<not> (prefix q p \<and> p \<noteq> q)"

definition separate :: "string list list \<Rightarrow> bool" where
  "separate ps \<longleftrightarrow> list_all (\<lambda>p. p \<noteq> [] \<and> list_all (apart p) ps) ps"

definition fits :: "plan \<Rightarrow> view \<Rightarrow> bool" where
  "fits pl v \<longleftrightarrow> separate (map fst pl) \<and> list_all (\<lambda>p. ready p v) (map fst pl)"

definition performs :: "(world \<Rightarrow> bool) \<Rightarrow> (world, 'a) prog \<Rightarrow> plan \<Rightarrow> bool" where
  "performs I m pl \<longleftrightarrow>
     (\<forall>w. I w \<and> fits pl (view_of w) \<longrightarrow>
        succeeds (m w) \<and> I (snd (m w)) \<and> view_of (snd (m w)) = a_run pl (view_of w))"

definition aborts :: "(world \<Rightarrow> bool) \<Rightarrow> (world, 'a) prog \<Rightarrow> plan \<Rightarrow> pyerr \<Rightarrow> bool" where
  "aborts I m pl e \<longleftrightarrow>
     (\<forall>w. I w \<and> fits pl (view_of w) \<longrightarrow>
        fst (m w) = Inl e \<and> I (snd (m w)) \<and> view_of (snd (m w)) = a_run pl (view_of w))"

section \<open>Running a plan\<close>

lemma a_run_simps [simp]:
  "a_run [] v = v"
  "a_run ((p, b) # pl) v = a_run pl (a_put p b v)"
  "a_run (pl @ pl') v = a_run pl' (a_run pl v)"
  by (simp_all add: a_run_def)

text \<open>The files after a run: the last write to a path wins, other paths keep
  their content.\<close>

lemma a_run_files_at:
  "fst (a_run pl v) q = (case map_of (rev pl) q of Some b \<Rightarrow> Some b | None \<Rightarrow> fst v q)"
  by (induction pl arbitrary: v) (auto simp: a_put_def map_add_def split: option.splits)

lemma a_run_files: "fst (a_run pl v) = fst v ++ map_of (rev pl)"
  by (rule ext) (simp add: a_run_files_at map_add_def)

lemma a_run_dirs:
  "snd (a_run pl v) q \<longleftrightarrow> snd v q \<or> (\<exists>p \<in> set (map fst pl). prefix q (butlast p))"
proof (induction pl arbitrary: v)
  case Nil
  then show ?case by simp
next
  case (Cons x pl)
  obtain p b where x: "x = (p, b)" by (cases x)
  show ?case unfolding x by (auto simp: Cons.IH a_put_def)
qed

lemma a_run_files_other: "q \<notin> set (map fst pl) \<Longrightarrow> fst (a_run pl v) q = fst v q"
  by (simp add: a_run_files_at map_of_eq_None_iff [THEN iffD2] split: option.splits)

lemma a_run_files_target: "q \<in> set (map fst pl) \<Longrightarrow> fst (a_run pl v) q \<noteq> None"
  by (auto simp: a_run_files_at map_of_eq_None_iff split: option.splits)

lemma a_run_last_write:
  assumes "(q, b) \<in> set pl'" "distinct (map fst pl')"
  shows "fst (a_run (pl @ pl') v) q = Some b"
  using assms by (simp add: a_run_files_at map_add_def [symmetric] distinct_rev rev_map [symmetric])

lemma view_of_simps [simp]:
  "fst (view_of w) = file_at (root w)" "snd (view_of w) = dir_at (root w)"
  by (simp_all add: view_of_def)

lemma view_of_printed [simp]: "view_of (w\<lparr>stdout := x\<rparr>) = view_of w"
  by (simp add: view_of_def)

lemma a_clear_simps [simp]:
  "fst (a_clear p v) q = (if prefix p q then None else fst v q)"
  "snd (a_clear p v) q \<longleftrightarrow> \<not> prefix p q \<and> snd v q"
  by (simp_all add: a_clear_def)

text \<open>When every write of the last part of a plan to a path writes the same
  content, the path holds that content after the run.\<close>

lemma a_run_agreed:
  assumes "(q, b) \<in> set pl'" "\<forall>(p, x) \<in> set pl'. p = q \<longrightarrow> x = b"
  shows "fst (a_run (pl @ pl') v) q = Some b"
proof -
  from assms(1) have "q \<in> fst ` set (rev pl')" by force
  then obtain x where x: "map_of (rev pl') q = Some x"
    by (cases "map_of (rev pl') q") (auto simp: map_of_eq_None_iff)
  then have "(q, x) \<in> set pl'" by (auto dest: map_of_SomeD)
  with assms(2) x show ?thesis by (auto simp: a_run_files_at map_add_def)
qed

section \<open>Plans that fit\<close>

lemma ready_iff:
  "ready p v \<longleftrightarrow> (\<forall>q. prefix q (butlast p) \<longrightarrow> fst v q = None) \<and> \<not> snd v p"
  by (auto simp: ready_def list_all_iff)

lemma prefix_butlast_strict: "q \<noteq> [] \<Longrightarrow> prefix p (butlast q) \<Longrightarrow> prefix p q \<and> p \<noteq> q"
  by (cases q rule: rev_cases) (auto simp: prefix_def)

lemma ready_a_put:
  assumes "ready q v" "apart p q" "p \<noteq> []" "q \<noteq> []"
  shows "ready q (a_put p b v)"
  using assms prefix_butlast_strict [of q p] prefix_butlast_strict [of p q]
  by (auto simp: ready_iff a_put_def apart_def)

lemma ready_a_run:
  assumes "ready q v" "q \<noteq> []" "\<forall>p \<in> set (map fst pl). p \<noteq> [] \<and> apart p q"
  shows "ready q (a_run pl v)"
  using assms
proof (induction pl arbitrary: v)
  case Nil
  then show ?case by simp
next
  case (Cons x pl)
  obtain p b where x: "x = (p, b)" by (cases x)
  from Cons.prems have "ready q (a_put p b v)" by (intro ready_a_put) (simp_all add: x)
  with Cons.prems show ?case unfolding x by (simp add: Cons.IH)
qed

lemma ready_a_clear:
  assumes "prefix out p" "\<And>q. prefix q out \<Longrightarrow> q \<noteq> out \<Longrightarrow> fst v q = None"
  shows "ready p (a_clear out v)"
proof -
  have "prefix q out \<and> q \<noteq> out" if "prefix q (butlast p)" "\<not> prefix out q" for q
    using that assms(1) prefix_same_cases [of q p out] prefixeq_butlast [of p]
    by (auto dest: prefix_order.trans)
  with assms show ?thesis by (auto simp: ready_iff a_clear_def)
qed

lemma separate_iff: "separate ps \<longleftrightarrow> (\<forall>p \<in> set ps. p \<noteq> [] \<and> (\<forall>q \<in> set ps. apart p q))"
  by (auto simp: separate_def list_all_iff)

lemma separate_subset: "separate qs \<Longrightarrow> set ps \<subseteq> set qs \<Longrightarrow> separate ps"
  by (auto simp: separate_iff)

lemma fits_Nil [simp]: "fits [] v"
  by (simp add: fits_def separate_def)

lemma fits_append:
  assumes "fits (pl @ pl') v"
  shows "fits pl v" and "fits pl' (a_run pl v)"
proof -
  from assms have sep: "separate (map fst pl @ map fst pl')"
    and rdy: "\<And>p. p \<in> set (map fst pl) \<union> set (map fst pl') \<Longrightarrow> ready p v"
    by (auto simp: fits_def list_all_iff)
  from sep have s: "separate (map fst pl)" "separate (map fst pl')"
    by (auto elim: separate_subset)
  from s(1) rdy show "fits pl v" by (auto simp: fits_def list_all_iff)
  have "ready q (a_run pl v)" if "q \<in> set (map fst pl')" for q
    using that sep rdy [of q] by (intro ready_a_run) (auto simp: separate_iff)
  with s(2) show "fits pl' (a_run pl v)" by (auto simp: fits_def list_all_iff)
qed

section \<open>Statements that implement a plan\<close>

lemma performsI:
  assumes "\<And>w. I w \<Longrightarrow> fits pl (view_of w) \<Longrightarrow>
    succeeds (m w) \<and> I (snd (m w)) \<and> view_of (snd (m w)) = a_run pl (view_of w)"
  shows "performs I m pl"
  using assms by (simp add: performs_def)

lemma performsD:
  assumes "performs I m pl" "I w" "fits pl (view_of w)"
  shows "succeeds (m w)" "I (snd (m w))" "view_of (snd (m w)) = a_run pl (view_of w)"
  using assms by (simp_all add: performs_def)

lemma performs_returnS: "performs I (returnS x) []"
  by (simp add: performs_def succeeds_def)

lemma performs_bindS:
  assumes "performs I m pl" "\<And>x. performs I (f x) pl'"
  shows "performs I (bindS m f) (pl @ pl')"
proof (rule performsI)
  fix w assume w: "I w" "fits (pl @ pl') (view_of w)"
  note 1 = performsD [OF assms(1) w(1) fits_append(1) [OF w(2)]]
  from 1(1) obtain x w1 where m: "m w = (Inr x, w1)" by (auto simp: succeeds_iff)
  with 1 fits_append(2) [OF w(2)] have "I w1" "fits pl' (view_of w1)" by simp_all
  from performsD [OF assms(2) this] m 1(3)
  show "succeeds (bindS m f w) \<and> I (snd (bindS m f w)) \<and>
      view_of (snd (bindS m f w)) = a_run (pl @ pl') (view_of w)"
    by (simp add: bindS_def)
qed

lemma performs_thenS:
  "performs I m pl \<Longrightarrow> performs I m' pl' \<Longrightarrow> performs I (thenS m m') (pl @ pl')"
  unfolding thenS_def by (rule performs_bindS)

lemma performs_getS:
  assumes "\<And>w. I w \<Longrightarrow> performs I (f (g w)) pl"
  shows "performs I (bindS (getS g) f) pl"
  using assms by (simp add: performs_def bindS_def getS_def)

lemma performs_whenS:
  "(b \<Longrightarrow> performs I m pl) \<Longrightarrow> (\<not> b \<Longrightarrow> pl = []) \<Longrightarrow> performs I (whenS b m) pl"
  by (cases b) (simp_all add: performs_returnS)

lemma performs_for_each:
  assumes "\<And>x. x \<in> set xs \<Longrightarrow> performs I (f x) (act x)"
  shows "performs I (for_each f xs) (concat (map act xs))"
  using assms
proof (induction xs)
  case Nil
  then show ?case by (simp add: performs_def succeeds_def)
next
  case (Cons x xs)
  have "for_each f (x # xs) = thenS (f x) (for_each f xs)"
    by (rule ext) (simp add: thenS_def bindS_def split: prod.splits sum.splits)
  with Cons show ?case by (simp add: performs_thenS)
qed

text \<open>A statement that writes one file implements the plan of that write.\<close>

lemma performs_put:
  assumes "\<And>w. I w \<Longrightarrow> (\<And>q. prefix q (cw @ ds) \<Longrightarrow> file_at (root w) q = None) \<Longrightarrow>
      \<not> dir_at (root w) (cw @ ds @ [n]) \<Longrightarrow>
      fst (m w) = Inr () \<and> I (snd (m w)) \<and>
      file_at (root (snd (m w))) = (file_at (root w))(cw @ ds @ [n] \<mapsto> b) \<and>
      (\<forall>q. dir_at (root (snd (m w))) q \<longleftrightarrow> dir_at (root w) q \<or> prefix q (cw @ ds))"
  shows "performs I m [(cw @ ds @ [n], b)]"
proof (rule performsI)
  fix w assume w: "I w" "fits [(cw @ ds @ [n], b)] (view_of w)"
  then have "\<And>q. prefix q (cw @ ds) \<Longrightarrow> file_at (root w) q = None"
    and "\<not> dir_at (root w) (cw @ ds @ [n])"
    by (auto simp: fits_def ready_iff view_of_def butlast_append)
  from assms [OF w(1) this]
  show "succeeds (m w) \<and> I (snd (m w)) \<and>
      view_of (snd (m w)) = a_run [(cw @ ds @ [n], b)] (view_of w)"
    by (auto simp: succeeds_def view_of_def a_put_def butlast_append)
qed

lemmas performs_intros =
  performs_returnS performs_bindS performs_thenS performs_whenS performs_for_each

section \<open>Statements that raise after a part of a plan\<close>

lemma abortsI:
  assumes "\<And>w. I w \<Longrightarrow> fits pl (view_of w) \<Longrightarrow>
    fst (m w) = Inl e \<and> I (snd (m w)) \<and> view_of (snd (m w)) = a_run pl (view_of w)"
  shows "aborts I m pl e"
  using assms by (simp add: aborts_def)

lemma abortsD:
  assumes "aborts I m pl e" "I w" "fits pl (view_of w)"
  shows "fst (m w) = Inl e" "I (snd (m w))" "view_of (snd (m w)) = a_run pl (view_of w)"
  using assms by (simp_all add: aborts_def)

lemma aborts_first: "aborts I m pl e \<Longrightarrow> aborts I (bindS m f) pl e"
  by (auto simp: aborts_def bindS_def split: prod.splits sum.splits)

lemma aborts_bindS:
  assumes "performs I m pl" "\<And>x. aborts I (f x) pl' e"
  shows "aborts I (bindS m f) (pl @ pl') e"
proof (rule abortsI)
  fix w assume w: "I w" "fits (pl @ pl') (view_of w)"
  note 1 = performsD [OF assms(1) w(1) fits_append(1) [OF w(2)]]
  from 1(1) obtain x w1 where m: "m w = (Inr x, w1)" by (auto simp: succeeds_iff)
  with 1 fits_append(2) [OF w(2)] have "I w1" "fits pl' (view_of w1)" by simp_all
  from abortsD [OF assms(2) this] m 1(3)
  show "fst (bindS m f w) = Inl e \<and> I (snd (bindS m f w)) \<and>
      view_of (snd (bindS m f w)) = a_run (pl @ pl') (view_of w)"
    by (simp add: bindS_def)
qed

lemma aborts_thenS:
  "performs I m pl \<Longrightarrow> aborts I m' pl' e \<Longrightarrow> aborts I (thenS m m') (pl @ pl') e"
  unfolding thenS_def by (rule aborts_bindS)

lemma aborts_thenS_first: "aborts I m pl e \<Longrightarrow> aborts I (thenS m m') pl e"
  unfolding thenS_def by (rule aborts_first)

lemma aborts_getS:
  assumes "\<And>w. I w \<Longrightarrow> aborts I (f (g w)) pl e"
  shows "aborts I (bindS (getS g) f) pl e"
  using assms by (simp add: aborts_def bindS_def getS_def)

lemma aborts_for_each:
  assumes "\<And>y. y \<in> set ys \<Longrightarrow> performs I (f y) (act y)" "aborts I (f x) pl e"
  shows "aborts I (for_each f (ys @ x # zs)) (concat (map act ys) @ pl) e"
proof -
  have "for_each f (ys @ x # zs) = thenS (for_each f ys) (bindS (f x) (\<lambda>_. for_each f zs))"
    by (rule ext) (simp add: for_each_append thenS_def bindS_def split: prod.splits sum.splits)
  with assms show ?thesis
    by (simp add: aborts_thenS aborts_first performs_for_each)
qed

section \<open>Removing a directory\<close>

lemma a_clear_absent:
  assumes "fs_lookup (root w) p = None"
  shows "a_clear p (view_of w) = view_of w"
proof -
  have "fs_lookup (root w) q = None" if "prefix p q" for q
    using that assms fs_lookup_prefix_exists [of "root w" q p]
    by (cases "fs_lookup (root w) q") auto
  then show ?thesis
    by (auto simp: a_clear_def view_of_def fs_lookup_None_iff fun_eq_iff)
qed

lemma view_of_del:
  "cs \<noteq> [] \<Longrightarrow> view_of (w\<lparr>root := fs_del cs (root w)\<rparr>) = a_clear cs (view_of w)"
  by (auto simp: view_of_def a_clear_def file_at_fs_del dir_at_fs_del fun_eq_iff)

text \<open>Clearing a directory, running a plan that writes below it, and clearing it
  again is clearing it once, when the directories above it exist.\<close>

lemma a_clear_a_run:
  assumes t: "\<forall>p \<in> set (map fst pl). prefix out p \<and> p \<noteq> out"
    and d: "\<forall>q. prefix q out \<and> q \<noteq> out \<longrightarrow> snd v q"
  shows "a_clear out (a_run pl (a_clear out v)) = a_clear out v"
proof (rule prod_eqI; rule ext)
  fix q
  have "q \<notin> set (map fst pl)" if "\<not> prefix out q" using that t by auto
  then show "fst (a_clear out (a_run pl (a_clear out v))) q = fst (a_clear out v) q"
    by (simp add: a_run_files_other)
  have "snd v q" if "\<not> prefix out q" "p \<in> set (map fst pl)" "prefix q (butlast p)" for p
  proof -
    from that(2) t have p: "prefix out p" by auto
    from that(3) have "prefix q p" using prefixeq_butlast [of p] by (rule prefix_order.trans)
    with p that(1) have "prefix q out" using prefix_same_cases [of q p out] by auto
    with that(1) d show ?thesis by auto
  qed
  then show "snd (a_clear out (a_run pl (a_clear out v))) q = snd (a_clear out v) q"
    by (auto simp: a_run_dirs)
qed

end
