(* ===== verification/Layers.thy ===== *)
theory Layers
  imports Script Overlay
begin

text \<open>
  The three source trees of the script as layers of one plan, and the two
  functions of the script as implementations of one write of the plan.

  The sources are the tree \<open>S\<close> at \<^verbatim>\<open>data/webui\<close> below the working directory;
  \<open>sources cw S w\<close> says that the state \<open>w\<close> is well formed, has the working
  directory \<open>cw\<close> and has \<open>S\<close> there. The output directory \<^verbatim>\<open>data/<build_platform>\<close>
  is \<open>out_dir\<close>. For a layer \<open>ls\<close> (\<^verbatim>\<open>common\<close>, \<^verbatim>\<open>template\<close> or
  \<^verbatim>\<open>device_specific/<build_platform>\<close>), \<open>layer_files S ls\<close> are the regular files that
  the loop over the listing of \<^verbatim>\<open>glob\<close> finds, with their relative paths and their
  contents, in the order of the listing. \<open>copy_plan\<close> writes each of them at the
  same relative path below the output directory; \<open>template_plan\<close> does so for the
  template layer, but writes the rendered text at the collapsed name when the
  file matches the pattern of line 84. \<open>overlay\<close> is the plan of the whole run: the
  three layers in the order of the script.

  The plan describes the run when the names are regular (\<open>regular\<close>): no relative
  path holds the prefix of its layer again (line 8 removes every occurrence), the
  templates render, their relative paths hold no backslash (line 22 replaces it),
  the directory of a template's destination does not hold \<^verbatim>\<open>.tmpl.\<close> (line 24
  collapses it in the whole path), and no destination lies below another.

  \<open>copy_file_performs\<close> and \<open>process_template_performs\<close> show that a call of
  \<open>copy_file\<close> or \<open>process_template\<close> on a file of a layer implements the write of
  that file and keeps the sources.

  When the engine fails to render a template, the run ends there. \<open>rendered\<close> are
  the files of the template layer before the first one that fails to render,
  \<open>partial_overlay\<close> is the plan of the writes made until then (the common layer and
  the writes of those files), and \<open>interrupted\<close> says that the run is of this kind
  and that the names met until then are regular. \<open>process_template_aborts\<close>
  shows that the call on that template raises and writes nothing.
\<close>

section \<open>The sources and the plan\<close>

definition source_root :: "string list" where
  "source_root = [''data'', ''webui'']"

definition out_dir :: "string \<Rightarrow> string list" where
  "out_dir bp = [''data'', bp]"

definition sources :: "string list \<Rightarrow> node \<Rightarrow> world \<Rightarrow> bool" where
  "sources cw S w \<longleftrightarrow>
     wf_world w \<and> cwd w = cw \<and> fs_lookup (root w) (cw @ source_root) = Some S"

definition layer_prefix :: "string list \<Rightarrow> path" where
  "layer_prefix ls = join_names (source_root @ ls) @ ''/''"

definition layer_files :: "node \<Rightarrow> string list \<Rightarrow> (string list \<times> bytes) list" where
  "layer_files S ls =
     concat (map (\<lambda>ns. case fs_lookup S (ls @ ns) of Some (File b) \<Rightarrow> [(ns, b)] | _ \<Rightarrow> [])
       (glob_paths S ls))"

definition copy_plan :: "string list \<Rightarrow> node \<Rightarrow> string list \<Rightarrow> plan" where
  "copy_plan out S ls = map (\<lambda>(ns, b). (out @ ns, b)) (layer_files S ls)"

definition collapse :: "string list \<Rightarrow> string list" where
  "collapse ns = butlast ns @ [str_replace (last ns) ''.tmpl.'' ''.'']"

definition is_template :: "string list \<Rightarrow> bool" where
  "is_template ns = template_matcher (listed (source_root @ [''template'']) ns)"

definition template_writes ::
  "(bytes \<Rightarrow> 'cfg \<Rightarrow> pyerr + bytes) \<Rightarrow> 'cfg \<Rightarrow> string list \<Rightarrow> (string list \<times> bytes) list \<Rightarrow> plan"
where
  "template_writes rend config out fs =
     concat (map (\<lambda>(ns, b).
         if is_template ns
         then (case rend b config of Inr r \<Rightarrow> [(out @ collapse ns, r)] | Inl e \<Rightarrow> [])
         else [(out @ ns, b)])
       fs)"

definition template_plan ::
  "(bytes \<Rightarrow> 'cfg \<Rightarrow> pyerr + bytes) \<Rightarrow> 'cfg \<Rightarrow> string list \<Rightarrow> node \<Rightarrow> plan"
where
  "template_plan rend config out S = template_writes rend config out (layer_files S [''template''])"

definition overlay ::
  "(bytes \<Rightarrow> 'cfg \<Rightarrow> pyerr + bytes) \<Rightarrow> 'cfg \<Rightarrow> string list \<Rightarrow> string \<Rightarrow> node \<Rightarrow> plan"
where
  "overlay rend config cw bp S =
     copy_plan (cw @ out_dir bp) S [''common''] @
     template_plan rend config (cw @ out_dir bp) S @
     copy_plan (cw @ out_dir bp) S [''device_specific'', bp]"

definition plain_layer :: "node \<Rightarrow> string list \<Rightarrow> bool" where
  "plain_layer S ls \<longleftrightarrow>
     list_all (\<lambda>(ns, b). \<not> sublist (layer_prefix ls) (join_names ns)) (layer_files S ls)"

definition renderable ::
  "(bytes \<Rightarrow> 'cfg \<Rightarrow> pyerr + bytes) \<Rightarrow> 'cfg \<Rightarrow> string \<Rightarrow> node \<Rightarrow> bool"
where
  "renderable rend config bp S \<longleftrightarrow>
     list_all (\<lambda>(ns, b). is_template ns \<longrightarrow>
         \<not> isl (rend b config) \<and>
         \<not> sublist [CHR 0x5C] (join_names ns) \<and>
         \<not> sublist ''.tmpl.'' (join_names (out_dir bp @ butlast ns)))
       (layer_files S [''template''])"

definition regular ::
  "(bytes \<Rightarrow> 'cfg \<Rightarrow> pyerr + bytes) \<Rightarrow> 'cfg \<Rightarrow> string list \<Rightarrow> string \<Rightarrow> node \<Rightarrow> bool"
where
  "regular rend config cw bp S \<longleftrightarrow>
     plain_layer S [''common''] \<and> plain_layer S [''template''] \<and>
     plain_layer S [''device_specific'', bp] \<and> renderable rend config bp S \<and>
     separate (map fst (overlay rend config cw bp S))"

definition renders :: "(bytes \<Rightarrow> 'cfg \<Rightarrow> pyerr + bytes) \<Rightarrow> 'cfg \<Rightarrow> string list \<times> bytes \<Rightarrow> bool" where
  "renders rend config f \<longleftrightarrow> (is_template (fst f) \<longrightarrow> \<not> isl (rend (snd f) config))"

definition rendered ::
  "(bytes \<Rightarrow> 'cfg \<Rightarrow> pyerr + bytes) \<Rightarrow> 'cfg \<Rightarrow> node \<Rightarrow> (string list \<times> bytes) list"
where
  "rendered rend config S = takeWhile (renders rend config) (layer_files S [''template''])"

definition partial_overlay ::
  "(bytes \<Rightarrow> 'cfg \<Rightarrow> pyerr + bytes) \<Rightarrow> 'cfg \<Rightarrow> string list \<Rightarrow> string \<Rightarrow> node \<Rightarrow> plan"
where
  "partial_overlay rend config cw bp S =
     copy_plan (cw @ out_dir bp) S [''common''] @
     template_writes rend config (cw @ out_dir bp) (rendered rend config S)"

definition fails_at ::
  "(bytes \<Rightarrow> 'cfg \<Rightarrow> pyerr + bytes) \<Rightarrow> 'cfg \<Rightarrow> string \<Rightarrow> node \<Rightarrow> pyerr \<Rightarrow> bool"
where
  "fails_at rend config bp S e \<longleftrightarrow>
     list_all (\<lambda>(ns, b). is_template ns \<longrightarrow>
         \<not> sublist [CHR 0x5C] (join_names ns) \<and>
         \<not> sublist ''.tmpl.'' (join_names (out_dir bp @ butlast ns)))
       (rendered rend config S) \<and>
     (case dropWhile (renders rend config) (layer_files S [''template'']) of
        [] \<Rightarrow> False
      | (ns, b) # _ \<Rightarrow> \<not> sublist [CHR 0x5C] (join_names ns) \<and> rend b config = Inl e)"

definition interrupted ::
  "(bytes \<Rightarrow> 'cfg \<Rightarrow> pyerr + bytes) \<Rightarrow> 'cfg \<Rightarrow> string list \<Rightarrow> string \<Rightarrow> node \<Rightarrow> pyerr \<Rightarrow> bool"
where
  "interrupted rend config cw bp S e \<longleftrightarrow>
     plain_layer S [''common''] \<and> plain_layer S [''template''] \<and> fails_at rend config bp S e \<and>
     separate (map fst (partial_overlay rend config cw bp S))"

definition example_sources :: node where
  "example_sources = the (fs_lookup example_tree [''proj'', ''data'', ''webui''])"

section \<open>The prefixes of the three layers\<close>

lemma valid_name_literals [simp]:
  "valid_name ''webui''" "valid_name ''common''" "valid_name ''template''"
  "valid_name ''device_specific''" "valid_name ''config''"
  by (simp_all add: valid_name_def)

lemma common_prefix_layer: "common_prefix = layer_prefix [''common'']"
  using path_join_dir [of "''data''" "[''webui'', ''common'']"]
  by (simp add: common_prefix_def layer_prefix_def source_root_def)

lemma webui_template_prefix_layer: "webui_template_prefix = layer_prefix [''template'']"
  using path_join_dir [of "''data''" "[''webui'', ''template'']"]
  by (simp add: webui_template_prefix_def layer_prefix_def source_root_def)

lemma dev_specific_prefix_layer:
  "valid_name (build_platform c) \<Longrightarrow>
     dev_specific_prefix c = layer_prefix [''device_specific'', build_platform c]"
  using path_join_dir [of "''data''" "[''webui'', ''device_specific'', build_platform c]"]
  by (simp add: dev_specific_prefix_def layer_prefix_def source_root_def)

lemma template_root_names: "template_root = join_names (source_root @ [''template''])"
  by (simp add: template_root_def source_root_def)

lemma data_build_platform_path_names:
  "build_data_dir c = None \<Longrightarrow> valid_name (build_platform c) \<Longrightarrow>
     data_build_platform_path c = join_names (out_dir (build_platform c))"
  using path_join_names [of "''data''" "[build_platform c]"]
  by (simp add: data_build_platform_path_def out_dir_def)

lemma source_root_simps [simp]:
  "source_root \<noteq> []" "list_all valid_name source_root" "source_root @ ls \<noteq> []"
  by (simp_all add: source_root_def)

lemma out_dir_simps [simp]:
  "out_dir bp \<noteq> []" "out_dir bp @ ns \<noteq> []" "valid_name bp \<Longrightarrow> list_all valid_name (out_dir bp)"
  "butlast (out_dir bp @ ns @ [n]) = out_dir bp @ ns"
  by (simp_all add: out_dir_def butlast_append)

lemma sources_parallel_out:
  "bp \<noteq> ''webui'' \<Longrightarrow> cw @ source_root \<parallel> cw @ out_dir bp @ ns"
  by (auto simp: parallel_def source_root_def out_dir_def)

lemma source_not_out:
  "bp \<noteq> ''webui'' \<Longrightarrow> cw @ source_root @ ms \<noteq> cw @ out_dir bp @ ns"
  by (auto simp: source_root_def out_dir_def)

section \<open>States with the same sources\<close>

lemma sourcesD:
  assumes "sources cw S w"
  shows "wf_world w" "cwd w = cw" "fs_lookup (root w) (cw @ source_root @ q) = fs_lookup S q"
    "wf_node S" "dir_at (root w) cw"
proof -
  from assms show 1: "wf_world w" and "cwd w = cw"
    and "fs_lookup (root w) (cw @ source_root @ q) = fs_lookup S q"
    using fs_lookup_append [of "root w" "cw @ source_root" q] by (simp_all add: sources_def)
  from assms 1 show "wf_node S"
    using wf_node_lookup [of "root w" "cw @ source_root" S] by (simp add: sources_def wf_world_def)
  from assms show "dir_at (root w) cw"
    using fs_lookup_prefix_Dir [of "root w" cw source_root S] by (simp add: sources_def)
qed

lemma sources_kept:
  assumes "sources cw S w" "wf_world w'" "cwd w' = cwd w"
    and "fs_lookup (root w') (cw @ source_root) = fs_lookup (root w) (cw @ source_root)"
  shows "sources cw S w'"
  using assms by (simp add: sources_def)

lemma sources_file_at:
  "sources cw S w \<Longrightarrow> file_at (root w) (cw @ source_root @ q) = file_at S q"
  by (simp add: file_at_def sourcesD(3))

section \<open>The files of a layer\<close>

lemma layer_files_iff:
  "(ns, b) \<in> set (layer_files S ls) \<longleftrightarrow>
     ns \<in> set (glob_paths S ls) \<and> fs_lookup S (ls @ ns) = Some (File b)"
  by (auto simp: layer_files_def split: option.splits node.splits)

lemma layer_files_names:
  assumes "wf_node S" "(ns, b) \<in> set (layer_files S ls)"
  shows "ns \<noteq> []" "list_all valid_name ns" "\<not> ishidden (last ns)"
proof -
  from assms(2) have ns: "ns \<in> set (glob_paths S ls)" and f: "fs_lookup S (ls @ ns) = Some (File b)"
    by (simp_all add: layer_files_iff)
  from glob_paths_Nil_Dir [OF ns] f show "ns \<noteq> []" by auto
  with glob_paths_valid [OF assms(1) ns] show "list_all valid_name ns" "\<not> ishidden (last ns)"
    by (auto simp: list_ex_iff)
qed

lemma concat_map_files:
  "concat (map (\<lambda>ns. case fs_lookup S (ls @ ns) of Some (File b) \<Rightarrow> h ns b | _ \<Rightarrow> []) xs) =
   concat (map (\<lambda>(ns, b). h ns b)
     (concat (map (\<lambda>ns. case fs_lookup S (ls @ ns) of Some (File b) \<Rightarrow> [(ns, b)] | _ \<Rightarrow> []) xs)))"
  by (induction xs) (auto split: option.splits node.splits)

lemma copy_plan_concat:
  "copy_plan out S ls =
     concat (map (\<lambda>ns. case fs_lookup S (ls @ ns) of Some (File b) \<Rightarrow> [(out @ ns, b)] | _ \<Rightarrow> [])
       (glob_paths S ls))"
  unfolding copy_plan_def layer_files_def concat_map_files [where h = "\<lambda>ns b. [(out @ ns, b)]"]
  by (simp add: case_prod_unfold concat_map_singleton)

lemma template_plan_concat:
  "template_plan rend config out S =
     concat (map (\<lambda>ns. case fs_lookup S ([''template''] @ ns) of
         Some (File b) \<Rightarrow>
           if is_template ns
           then (case rend b config of Inr r \<Rightarrow> [(out @ collapse ns, r)] | Inl e \<Rightarrow> [])
           else [(out @ ns, b)]
       | _ \<Rightarrow> [])
       (glob_paths S [''template'']))"
  unfolding template_plan_def template_writes_def layer_files_def
  by (rule concat_map_files [symmetric])

lemma map_fst_layer_files:
  "map fst (layer_files S ls) =
     filter (\<lambda>ns. \<exists>b. fs_lookup S (ls @ ns) = Some (File b)) (glob_paths S ls)"
proof -
  have "map fst (concat (map (\<lambda>ns. case fs_lookup S (ls @ ns) of
        Some (File b) \<Rightarrow> [(ns, b)] | _ \<Rightarrow> []) xs)) =
      filter (\<lambda>ns. \<exists>b. fs_lookup S (ls @ ns) = Some (File b)) xs" for xs
    by (induction xs) (auto split: option.splits node.splits)
  then show ?thesis by (simp add: layer_files_def)
qed

lemma distinct_layer_files: "wf_node S \<Longrightarrow> distinct (map fst (layer_files S ls))"
  by (simp add: map_fst_layer_files distinct_glob_paths)

lemma map_fst_copy_plan:
  "map fst (copy_plan out S ls) = map ((@) out) (map fst (layer_files S ls))"
  by (simp add: copy_plan_def case_prod_unfold comp_def)

lemma distinct_copy_plan: "wf_node S \<Longrightarrow> distinct (map fst (copy_plan out S ls))"
  unfolding map_fst_copy_plan using distinct_layer_files [of S ls]
  by (simp add: distinct_map inj_on_def del: map_map)

lemma copy_plan_write:
  "(ns, b) \<in> set (layer_files S ls) \<Longrightarrow> (out @ ns, b) \<in> set (copy_plan out S ls)"
  by (force simp: copy_plan_def)

lemma template_plan_write:
  assumes "(ns, b) \<in> set (layer_files S [''template''])"
  shows "is_template ns \<Longrightarrow> rend b config = Inr r \<Longrightarrow>
      (out @ collapse ns, r) \<in> set (template_plan rend config out S)"
    and "\<not> is_template ns \<Longrightarrow> (out @ ns, b) \<in> set (template_plan rend config out S)"
  using assms by (force simp: template_plan_def template_writes_def)+

section \<open>The listing and the file test in a state with the sources\<close>

lemma iglob_recursive_sources:
  assumes "sources cw S w" "list_all valid_name ls"
  shows "iglob_recursive w (layer_prefix ls) = map (listed (source_root @ ls)) (glob_paths S ls)"
proof -
  have "glob_paths (root w) ((cw @ source_root) @ ls) = glob_paths S ls"
    using assms(1) by (intro glob_paths_append) (simp add: sources_def)
  with iglob_recursive_names [of w "source_root @ ls"] assms sourcesD(1,2) [OF assms(1)]
  show ?thesis by (simp add: layer_prefix_def)
qed

lemma os_path_isfile_listed:
  assumes "sources cw S w" "list_all valid_name ls" "ns \<in> set (glob_paths S ls)"
  shows "os_path_isfile w (listed (source_root @ ls) ns) \<longleftrightarrow>
    (\<exists>b. fs_lookup S (ls @ ns) = Some (File b))"
proof (cases "ns = []")
  case True
  have "wants_dir (join_names (source_root @ ls) @ ''/'')" by (simp add: wants_dir_def basename_def)
  with True glob_paths_Nil_Dir [OF assms(3)] show ?thesis
    by (auto simp: os_path_isfile_iff listed_def)
next
  case False
  with glob_paths_valid(1) [OF sourcesD(4) [OF assms(1)] assms(3)]
  have v: "list_all valid_name (source_root @ ls @ ns)" using assms(2) by simp
  then have "plain (join_names (source_root @ ls @ ns))" by (intro plain_join_names) simp_all
  moreover have "walk cw (join_names (source_root @ ls @ ns)) = cw @ source_root @ ls @ ns"
    using v by (intro walk_join_names) simp_all
  ultimately show ?thesis
    using False sources_file_at [OF assms(1), of "ls @ ns"] sourcesD(2) [OF assms(1)]
    by (auto simp: os_path_isfile_iff listed_names file_at_def split: option.splits node.splits)
qed

section \<open>One file\<close>

lemma listed_layer: "listed (source_root @ ls) ns = layer_prefix ls @ join_names ns"
  by (simp add: listed_def layer_prefix_def)

lemma layer_prefix_not_Nil [simp]: "layer_prefix ls \<noteq> []"
  by (simp add: layer_prefix_def)

lemma valid_name_collapse:
  assumes "valid_name n" "\<not> ishidden n"
  shows "valid_name (str_replace n ''.tmpl.'' ''.'')"
proof -
  from assms obtain c cs where n: "n = c # cs" "c \<noteq> CHR ''.''"
    by (cases n) (auto simp: valid_name_def ishidden_def)
  then have r: "replace_all ''.tmpl.'' ''.'' n = c # replace_all ''.tmpl.'' ''.'' cs"
    by (simp add: replace_all_head)
  have "CHR ''/'' \<notin> set (replace_all ''.tmpl.'' ''.'' n)"
    using set_replace_all [of "''.tmpl.''" "''.''" n] assms(1) by (auto simp: valid_name_def)
  with r n(2) show ?thesis by (auto simp: valid_name_def str_replace_def)
qed

text \<open>A state that differs only beside the sources still has them.\<close>

lemma sources_beside:
  assumes "sources cw S w" "wf_world w'" "cwd w' = cwd w" "bp \<noteq> ''webui''"
    and "\<And>q. fs_lookup (root w) q \<noteq> None \<Longrightarrow> q \<parallel> cw @ out_dir bp @ ns \<Longrightarrow>
      fs_lookup (root w') q = fs_lookup (root w) q"
  shows "sources cw S w'"
  using assms(1-3) assms(5) [of "cw @ source_root"] sources_parallel_out [OF assms(4), of cw ns]
  by (simp add: sources_def)

text \<open>The destination of a file of a layer, and the file as the state has it.\<close>

lemma layer_file_dest:
  assumes "valid_name bp" "wf_node S" "(ns, b) \<in> set (layer_files S ls)"
    and "\<not> sublist (layer_prefix ls) (join_names ns)"
  shows "dest_path (listed (source_root @ ls) ns) bp (layer_prefix ls) None =
      join_names ((out_dir bp @ butlast ns) @ [last ns])"
    and "out_dir bp @ butlast ns \<noteq> []"
    and "list_all valid_name ((out_dir bp @ butlast ns) @ [last ns])"
proof -
  note n = layer_files_names [OF assms(2,3)]
  have "dest_path (layer_prefix ls @ join_names ns) bp (layer_prefix ls) None =
      join_names (''data'' # bp # ns)"
    using assms(1,4) n(1,2) by (intro dest_path_names) simp_all
  then show "dest_path (listed (source_root @ ls) ns) bp (layer_prefix ls) None =
      join_names ((out_dir bp @ butlast ns) @ [last ns])"
    using n(1) by (simp add: listed_layer out_dir_def)
  show "out_dir bp @ butlast ns \<noteq> []" by simp
  show "list_all valid_name ((out_dir bp @ butlast ns) @ [last ns])"
    using assms(1) n(1,2) by (simp add: out_dir_def)
qed

lemma layer_file_source:
  assumes "sources cw S w" "list_all valid_name ls" "(ns, b) \<in> set (layer_files S ls)"
  shows "os_path_isfile w (listed (source_root @ ls) ns)"
    and "walk cw (listed (source_root @ ls) ns) = cw @ source_root @ ls @ ns"
    and "file_at (root w) (cw @ source_root @ ls @ ns) = Some b"
proof -
  note S = sourcesD [OF assms(1)]
  note n = layer_files_names [OF S(4) assms(3)]
  show "os_path_isfile w (listed (source_root @ ls) ns)"
    using assms(3) by (auto simp: os_path_isfile_listed [OF assms(1,2)] layer_files_iff)
  show "walk cw (listed (source_root @ ls) ns) = cw @ source_root @ ls @ ns"
    using n(1,2) assms(2) walk_join_names [of "source_root @ ls @ ns" cw]
    by (simp add: listed_names)
  show "file_at (root w) (cw @ source_root @ ls @ ns) = Some b"
    using assms(3) sources_file_at [OF assms(1), of "ls @ ns"]
    by (simp add: layer_files_iff file_at_iff)
qed

lemma copy_file_performs:
  assumes bp: "valid_name bp" "bp \<noteq> ''webui''"
    and ls: "list_all valid_name ls"
    and f: "(ns, b) \<in> set (layer_files S ls)"
    and occ: "\<not> sublist (layer_prefix ls) (join_names ns)"
    and t: "t = cw @ (out_dir bp @ butlast ns) @ [last ns]"
  shows "performs (sources cw S)
    (copy_file (listed (source_root @ ls) ns) bp (layer_prefix ls) None) [(t, b)]"
  unfolding t
proof (rule performs_put)
  fix w
  let ?f = "listed (source_root @ ls) ns" and ?ds = "out_dir bp @ butlast ns"
  let ?m = "copy_file ?f bp (layer_prefix ls) None"
  assume I: "sources cw S w"
    and free: "\<And>q. prefix q (cw @ ?ds) \<Longrightarrow> file_at (root w) q = None"
    and tgt: "\<not> dir_at (root w) (cw @ ?ds @ [last ns])"
  note S = sourcesD [OF I] and src = layer_file_source [OF I ls f]
  note n = layer_files_names [OF S(4) f]
  have diff: "walk (cwd w) ?f \<noteq> cwd w @ ?ds @ [last ns]"
    using source_not_out [OF bp(2), of cw "ls @ ns" ns] n(1) by (simp add: src(2) S(2))
  note eff = copy_file_names [OF layer_file_dest [OF bp(1) S(4) f occ] S(5) [folded S(2)]
      free [folded S(2)] src(1) tgt [folded S(2)] diff]
  have "sources cw S (snd (?m w))"
    using maintainsD [OF copy_file_wf S(1)] preservesD [OF copy_file_frame(1)] eff(4) n(1)
    by (intro sources_beside [OF I _ _ bp(2), of _ ns]) (simp_all add: S(2))
  with eff(1,2,3) src(3) show "fst (?m w) = Inr () \<and> sources cw S (snd (?m w)) \<and>
      file_at (root (snd (?m w))) = (file_at (root w))(cw @ ?ds @ [last ns] \<mapsto> b) \<and>
      (\<forall>q. dir_at (root (snd (?m w))) q \<longleftrightarrow> dir_at (root w) q \<or> prefix q (cw @ ?ds))"
    by (simp add: S(2) src(2))
qed

text \<open>The template that the loader finds for a file of the template layer is
  that file, when its relative path holds no backslash.\<close>

lemma template_name_layer:
  assumes "\<not> sublist (layer_prefix ls) (join_names ns)" "\<not> sublist [CHR 0x5C] (join_names ns)"
  shows "template_name (listed (source_root @ ls) ns) (layer_prefix ls) = join_names ns"
  using assms by (simp add: template_name_def listed_layer str_replace_prefix str_replace_no_occ)

lemma get_template_layer:
  assumes "sources cw S w" "(ns, b) \<in> set (layer_files S [''template''])"
  shows "fst (get_template \<lparr>searchpath = template_root, render = rend\<rparr> (join_names ns) w) = Inr b"
proof -
  note S = sourcesD [OF assms(1)]
  note n = layer_files_names [OF S(4) assms(2)]
  note src = layer_file_source [OF assms(1) _ assms(2)]
  have "path_join template_root ns = listed (source_root @ [''template'']) ns"
    using n by (simp add: template_root_names path_join_names_append listed_names)
  with split_template_path_names [OF n(1,2)] src
  have "get_template \<lparr>searchpath = template_root, render = rend\<rparr> (join_names ns) w = (Inr b, w)"
    unfolding get_template_Inr_iff by (simp add: S(2))
  then show ?thesis by simp
qed

lemma collapse_dest:
  assumes "ds \<noteq> []" "\<not> sublist ''.tmpl.'' (join_names ds)"
  shows "str_replace (join_names (ds @ [n])) ''.tmpl.'' ''.'' =
    join_names (ds @ [str_replace n ''.tmpl.'' ''.''])"
  using assms by (simp add: join_names_snoc str_replace_append_sep)

lemma process_template_performs:
  assumes bp: "valid_name bp" "bp \<noteq> ''webui''"
    and f: "(ns, b) \<in> set (layer_files S [''template''])"
    and occ: "\<not> sublist (layer_prefix [''template'']) (join_names ns)"
    and r: "rend b config = Inr r"
    and bs: "\<not> sublist [CHR 0x5C] (join_names ns)"
    and mk: "\<not> sublist ''.tmpl.'' (join_names (out_dir bp @ butlast ns))"
    and t: "t = cw @ (out_dir bp @ butlast ns) @ [str_replace (last ns) ''.tmpl.'' ''.'']"
  shows "performs (sources cw S)
    (process_template (listed (source_root @ [''template'']) ns) bp
       \<lparr>searchpath = template_root, render = rend\<rparr> config (layer_prefix [''template'']) None)
    [(t, r)]"
  unfolding t
proof (rule performs_put)
  fix w
  let ?f = "listed (source_root @ [''template'']) ns" and ?ds = "out_dir bp @ butlast ns"
  let ?env = "\<lparr>searchpath = template_root, render = rend\<rparr>"
  let ?n = "str_replace (last ns) ''.tmpl.'' ''.''"
  let ?m = "process_template ?f bp ?env config (layer_prefix [''template'']) None"
  assume I: "sources cw S w"
    and free: "\<And>q. prefix q (cw @ ?ds) \<Longrightarrow> file_at (root w) q = None"
    and tgt: "\<not> dir_at (root w) (cw @ ?ds @ [?n])"
  note S = sourcesD [OF I]
  note n = layer_files_names [OF S(4) f]
  have tm: "fst (get_template ?env (template_name ?f (layer_prefix [''template''])) w) = Inr b"
    by (simp add: template_name_layer [OF occ bs] get_template_layer [OF I f])
  have rr: "render ?env b config = Inr r" by (simp add: r)
  have out: "str_replace (join_names (?ds @ [last ns])) ''.tmpl.'' ''.'' = join_names (?ds @ [?n])"
    using mk by (intro collapse_dest) simp_all
  have vn: "valid_name ?n" using n by (intro valid_name_collapse) (simp_all add: list_all_iff)
  note eff = process_template_names [OF tm rr layer_file_dest [OF bp(1) S(4) f occ] out vn
      S(5) [folded S(2)] free [folded S(2)] tgt [folded S(2)]]
  have "sources cw S (snd (?m w))"
    using maintainsD [OF process_template_wf S(1), of ?f bp ?env config _ None]
      preservesD [OF process_template_frame, of ?f bp ?env config _ None w] eff(5)
    by (intro sources_beside [OF I _ _ bp(2), of _ "butlast ns @ [?n]"]) (simp_all add: S(2))
  with eff(1,2,3) show "fst (?m w) = Inr () \<and> sources cw S (snd (?m w)) \<and>
      file_at (root (snd (?m w))) = (file_at (root w))(cw @ ?ds @ [?n] \<mapsto> r) \<and>
      (\<forall>q. dir_at (root (snd (?m w))) q \<longleftrightarrow> dir_at (root w) q \<or> prefix q (cw @ ?ds))"
    by (simp add: S(2))
qed

text \<open>A template that the engine fails to render: the call raises the exception of
  the engine and writes nothing.\<close>

lemma sources_printed:
  "sources cw S w \<Longrightarrow> sources cw S (w\<lparr>stdout := x\<rparr>)"
  by (auto simp: sources_def wf_world_def)

lemma process_template_aborts:
  assumes f: "(ns, b) \<in> set (layer_files S [''template''])"
    and occ: "\<not> sublist (layer_prefix [''template'']) (join_names ns)"
    and r: "rend b config = Inl e"
    and bs: "\<not> sublist [CHR 0x5C] (join_names ns)"
  shows "aborts (sources cw S)
    (process_template (listed (source_root @ [''template'']) ns) bp
       \<lparr>searchpath = template_root, render = rend\<rparr> config (layer_prefix [''template'']) None)
    [] e"
proof (rule abortsI)
  fix w
  let ?f = "listed (source_root @ [''template'']) ns"
  let ?env = "\<lparr>searchpath = template_root, render = rend\<rparr>"
  let ?m = "process_template ?f bp ?env config (layer_prefix [''template'']) None"
  assume I: "sources cw S w"
  have tm: "fst (get_template ?env (template_name ?f (layer_prefix [''template''])) w) = Inr b"
    by (simp add: template_name_layer [OF occ bs] get_template_layer [OF I f])
  have rr: "render ?env b config = Inl e" by (simp add: r)
  from process_template_render_error [OF tm rr, of bp None] I
  show "fst (?m w) = Inl e \<and> sources cw S (snd (?m w)) \<and>
      view_of (snd (?m w)) = a_run [] (view_of w)"
    by (simp add: sources_printed)
qed

end
