(* ===== verification/Staging.thy ===== *)
theory Staging
  imports Layers
begin

text \<open>
  The module body from the announcement to the last loop (lines 62 to 99) as an
  implementation of the plan \<open>overlay\<close>:
  \<^item> each loop implements the plan of its layer (\<open>copy_common_performs\<close>,
    \<open>copy_templates_performs\<close>, \<open>copy_device_specific_performs\<close>): the listing is
    the one of the sources, the file test selects the regular files, and each
    call implements one write;
  \<^item> the clean-up removes the output directory and keeps the sources
    (\<open>clean_output_clears\<close>);
  \<^item> \<open>stage_run\<close>: from a state with the sources, with a build platform that starts
    with \<^verbatim>\<open>BUILD_\<close>, no regular file at the output directory and regular names,
    \<open>stage\<close> returns, keeps the sources, and leaves the view that the plan computes
    from the view of the initial state with the output directory cleared;
  \<^item> \<open>stage_interrupted\<close>: when a template fails to render, \<open>stage\<close> raises the
    exception of the engine, keeps the sources, and leaves the view that
    \<open>partial_overlay\<close> computes from the same cleared view.
\<close>

section \<open>The three loops\<close>

lemma layer_loop_performs:
  assumes "list_all valid_name ls"
    and "\<And>ns. ns \<in> set (glob_paths S ls) \<Longrightarrow>
      performs (sources cw S) (body (listed (source_root @ ls) ns)) (act ns)"
  shows "performs (sources cw S)
    (bindS (getS (\<lambda>w. iglob_recursive w (layer_prefix ls))) (for_each body))
    (concat (map act (glob_paths S ls)))"
proof (rule performs_getS)
  fix w assume "sources cw S w"
  from iglob_recursive_sources [OF this assms(1)] assms(2)
  show "performs (sources cw S) (for_each body (iglob_recursive w (layer_prefix ls)))
      (concat (map act (glob_paths S ls)))"
    by (simp add: for_each_map performs_for_each)
qed

lemma plain_layerD:
  "plain_layer S ls \<Longrightarrow> (ns, b) \<in> set (layer_files S ls) \<Longrightarrow>
     \<not> sublist (layer_prefix ls) (join_names ns)"
  by (auto simp: plain_layer_def list_all_iff)

lemma file_or_not:
  obtains b where "fs_lookup S q = Some (File b)" | "\<And>b. fs_lookup S q \<noteq> Some (File b)"
  by (cases "fs_lookup S q" rule: option.exhaust; cases "the (fs_lookup S q)") auto

lemma copy_step_performs:
  assumes bp: "valid_name bp" "bp \<noteq> ''webui''"
    and ls: "list_all valid_name ls" and pl: "plain_layer S ls"
    and ns: "ns \<in> set (glob_paths S ls)"
    and c: "\<And>x. c x = x"
  shows "performs (sources cw S)
    (bindS (getS (\<lambda>w. os_path_isfile w (listed (source_root @ ls) ns))) (\<lambda>isfile.
       whenS (c isfile) (copy_file (listed (source_root @ ls) ns) bp (layer_prefix ls) None)))
    (case fs_lookup S (ls @ ns) of
       Some (File b) \<Rightarrow> [((cw @ out_dir bp) @ ns, b)] | _ \<Rightarrow> [])"
proof (rule performs_getS)
  fix w assume I: "sources cw S w"
  note isfile = os_path_isfile_listed [OF I ls ns] and S = sourcesD [OF I]
  show "performs (sources cw S)
      (whenS (c (os_path_isfile w (listed (source_root @ ls) ns)))
        (copy_file (listed (source_root @ ls) ns) bp (layer_prefix ls) None))
      (case fs_lookup S (ls @ ns) of
         Some (File b) \<Rightarrow> [((cw @ out_dir bp) @ ns, b)] | _ \<Rightarrow> [])"
  proof (cases S "ls @ ns" rule: file_or_not)
    case (1 b)
    with ns have f: "(ns, b) \<in> set (layer_files S ls)" by (simp add: layer_files_iff)
    from layer_files_names(1) [OF S(4) f]
      copy_file_performs [OF bp ls f plain_layerD [OF pl f] refl]
    show ?thesis by (simp add: c isfile 1)
  next
    case 2
    then show ?thesis
      by (auto simp: c isfile performs_returnS split: option.splits node.splits)
  qed
qed

lemma template_step_performs:
  assumes bp: "valid_name bp" "bp \<noteq> ''webui''"
    and pl: "plain_layer S [''template'']"
    and ok: "\<And>b. (ns, b) \<in> set (layer_files S [''template'']) \<Longrightarrow> is_template ns \<Longrightarrow>
      \<not> isl (rend b config) \<and> \<not> sublist [CHR 0x5C] (join_names ns) \<and>
      \<not> sublist ''.tmpl.'' (join_names (out_dir bp @ butlast ns))"
    and ns: "ns \<in> set (glob_paths S [''template''])"
  shows "performs (sources cw S)
    (bindS (getS (\<lambda>w. os_path_isfile w (listed (source_root @ [''template'']) ns))) (\<lambda>isfile.
       whenS isfile
         (if template_matcher (listed (source_root @ [''template'']) ns)
          then process_template (listed (source_root @ [''template'']) ns) bp
                 \<lparr>searchpath = template_root, render = rend\<rparr> config
                 (layer_prefix [''template'']) None
          else copy_file (listed (source_root @ [''template'']) ns) bp
                 (layer_prefix [''template'']) None)))
    (case fs_lookup S ([''template''] @ ns) of
       Some (File b) \<Rightarrow>
         if is_template ns
         then (case rend b config of Inr r \<Rightarrow> [((cw @ out_dir bp) @ collapse ns, r)] | Inl e \<Rightarrow> [])
         else [((cw @ out_dir bp) @ ns, b)]
     | _ \<Rightarrow> [])"
proof (cases "is_template ns")
  case False
  with copy_step_performs [OF bp _ pl ns, of "\<lambda>x. x" cw] show ?thesis
    by (simp add: is_template_def cong: option.case_cong node.case_cong)
next
  case True
  show ?thesis
  proof (rule performs_getS)
    fix w assume I: "sources cw S w"
    note isfile = os_path_isfile_listed [OF I _ ns] and S = sourcesD [OF I]
    show "performs (sources cw S)
      (whenS (os_path_isfile w (listed (source_root @ [''template'']) ns))
         (if template_matcher (listed (source_root @ [''template'']) ns)
          then process_template (listed (source_root @ [''template'']) ns) bp
                 \<lparr>searchpath = template_root, render = rend\<rparr> config
                 (layer_prefix [''template'']) None
          else copy_file (listed (source_root @ [''template'']) ns) bp
                 (layer_prefix [''template'']) None))
      (case fs_lookup S ([''template''] @ ns) of
         Some (File b) \<Rightarrow>
           if is_template ns
           then (case rend b config of Inr r \<Rightarrow> [((cw @ out_dir bp) @ collapse ns, r)] | Inl e \<Rightarrow> [])
           else [((cw @ out_dir bp) @ ns, b)]
       | _ \<Rightarrow> [])"
    proof (cases S "[''template''] @ ns" rule: file_or_not)
      case (1 b)
      with ns have f: "(ns, b) \<in> set (layer_files S [''template''])" by (simp add: layer_files_iff)
      from ok [OF f True] obtain r where r: "rend b config = Inr r"
        by (cases "rend b config") auto
      from process_template_performs [where rend = rend and config = config,
          OF bp f plain_layerD [OF pl f] r] ok [OF f True] True
      show ?thesis using 1 by (simp add: isfile r collapse_def is_template_def)
    next
      case 2
      then show ?thesis
        by (auto simp: isfile performs_returnS split: option.splits node.splits)
    qed
  qed
qed

lemma renderableD:
  assumes "renderable rend config bp S" "(ns, b) \<in> set (layer_files S [''template''])"
    and "is_template ns"
  shows "\<not> isl (rend b config) \<and> \<not> sublist [CHR 0x5C] (join_names ns) \<and>
    \<not> sublist ''.tmpl.'' (join_names (out_dir bp @ butlast ns))"
  using assms by (auto simp: renderable_def list_all_iff)

lemma copy_common_performs:
  assumes "build_data_dir c = None" "valid_name (build_platform c)" "build_platform c \<noteq> ''webui''"
    and "plain_layer S [''common'']"
  shows "performs (sources cw S) (copy_common c)
    (copy_plan (cw @ out_dir (build_platform c)) S [''common''])"
  unfolding copy_common_def common_prefix_layer copy_plan_concat assms(1)
  using assms by (intro layer_loop_performs copy_step_performs) simp_all

lemma copy_templates_performs:
  assumes "build_data_dir c = None" "valid_name (build_platform c)" "build_platform c \<noteq> ''webui''"
    and "plain_layer S [''template'']" "renderable rend config (build_platform c) S"
  shows "performs (sources cw S)
    (copy_templates \<lparr>searchpath = template_root, render = rend\<rparr> config c)
    (template_plan rend config (cw @ out_dir (build_platform c)) S)"
  unfolding copy_templates_def webui_template_prefix_layer template_plan_concat assms(1)
  using assms by (intro layer_loop_performs template_step_performs renderableD) simp_all

text \<open>The test \<^verbatim>\<open>filename != '.keep'\<close> of line 98 compares a path that starts with the
  prefix of the layer with a bare name: it holds for every name of the listing.\<close>

lemma listed_not_keep: "listed (source_root @ ls) ns \<noteq> ''.keep''"
  by (simp add: listed_def source_root_def)

lemma copy_device_specific_performs:
  assumes "build_data_dir c = None" "valid_name (build_platform c)" "build_platform c \<noteq> ''webui''"
    and "plain_layer S [''device_specific'', build_platform c]"
  shows "performs (sources cw S) (copy_device_specific c)
    (copy_plan (cw @ out_dir (build_platform c)) S [''device_specific'', build_platform c])"
  unfolding copy_device_specific_def dev_specific_prefix_layer [OF assms(2)] copy_plan_concat assms(1)
  using assms by (intro layer_loop_performs copy_step_performs) (simp_all add: listed_not_keep)

lemma layers_perform:
  assumes "build_data_dir c = None" "valid_name (build_platform c)" "build_platform c \<noteq> ''webui''"
    and "plain_layer S [''common'']" "plain_layer S [''template'']"
    and "plain_layer S [''device_specific'', build_platform c]"
    and "renderable rend config (build_platform c) S"
  shows "performs (sources cw S)
    (thenS (copy_common c)
      (thenS (copy_templates \<lparr>searchpath = template_root, render = rend\<rparr> config c)
        (copy_device_specific c)))
    (overlay rend config cw (build_platform c) S)"
  unfolding overlay_def using assms
  by (intro performs_thenS copy_common_performs copy_templates_performs
      copy_device_specific_performs)

section \<open>A template that fails to render\<close>

text \<open>The loop over the templates stops at the first template that the engine
  fails to render: the writes made are those of the files listed before it.\<close>

lemma layer_loop_aborts:
  assumes "list_all valid_name ls" "glob_paths S ls = ys @ x # zs"
    and "\<And>ns. ns \<in> set ys \<Longrightarrow>
      performs (sources cw S) (body (listed (source_root @ ls) ns)) (act ns)"
    and "aborts (sources cw S) (body (listed (source_root @ ls) x)) pl e"
  shows "aborts (sources cw S)
    (bindS (getS (\<lambda>w. iglob_recursive w (layer_prefix ls))) (for_each body))
    (concat (map act ys) @ pl) e"
proof (rule aborts_getS)
  fix w assume w: "sources cw S w"
  have "aborts (sources cw S)
      (for_each (\<lambda>ns. body (listed (source_root @ ls) ns)) (ys @ x # zs))
      (concat (map act ys) @ pl) e"
    using assms(3,4) by (rule aborts_for_each)
  then show "aborts (sources cw S) (for_each body (iglob_recursive w (layer_prefix ls)))
      (concat (map act ys) @ pl) e"
    by (simp only: iglob_recursive_sources [OF w assms(1)] assms(2) for_each_map)
qed

lemma template_step_aborts:
  assumes pl: "plain_layer S [''template'']"
    and f: "(ns, b) \<in> set (layer_files S [''template''])" and t: "is_template ns"
    and r: "rend b config = Inl e" and bs: "\<not> sublist [CHR 0x5C] (join_names ns)"
  shows "aborts (sources cw S)
    (bindS (getS (\<lambda>w. os_path_isfile w (listed (source_root @ [''template'']) ns))) (\<lambda>isfile.
       whenS isfile
         (if template_matcher (listed (source_root @ [''template'']) ns)
          then process_template (listed (source_root @ [''template'']) ns) bp
                 \<lparr>searchpath = template_root, render = rend\<rparr> config
                 (layer_prefix [''template'']) None
          else copy_file (listed (source_root @ [''template'']) ns) bp
                 (layer_prefix [''template'']) None)))
    [] e"
proof (rule aborts_getS)
  fix w assume I: "sources cw S w"
  from f have "os_path_isfile w (listed (source_root @ [''template'']) ns)"
    by (simp add: os_path_isfile_listed [OF I] layer_files_iff)
  with process_template_aborts [where rend = rend and config = config and cw = cw and bp = bp,
      OF f plain_layerD [OF pl f] r bs] t
  show "aborts (sources cw S)
      (whenS (os_path_isfile w (listed (source_root @ [''template'']) ns))
         (if template_matcher (listed (source_root @ [''template'']) ns)
          then process_template (listed (source_root @ [''template'']) ns) bp
                 \<lparr>searchpath = template_root, render = rend\<rparr> config
                 (layer_prefix [''template'']) None
          else copy_file (listed (source_root @ [''template'']) ns) bp
                 (layer_prefix [''template'']) None))
      [] e"
    by (simp add: is_template_def)
qed

lemma copy_templates_aborts:
  assumes c: "build_data_dir c = None" "valid_name (build_platform c)"
      "build_platform c \<noteq> ''webui''"
    and pl: "plain_layer S [''template'']" and fa: "fails_at rend config (build_platform c) S e"
  shows "aborts (sources cw S)
    (copy_templates \<lparr>searchpath = template_root, render = rend\<rparr> config c)
    (template_writes rend config (cw @ out_dir (build_platform c)) (rendered rend config S)) e"
proof -
  let ?g = "\<lambda>ns. case fs_lookup S ([''template''] @ ns) of Some (File b) \<Rightarrow> [(ns, b)] | _ \<Rightarrow> []"
  from fa obtain ns b rest
    where d: "dropWhile (renders rend config) (layer_files S [''template'']) = (ns, b) # rest"
      and bs: "\<not> sublist [CHR 0x5C] (join_names ns)" and r: "rend b config = Inl e"
    by (auto simp: fails_at_def split: list.splits)
  have "?g x = [] \<or> (\<exists>a. ?g x = [a])" for x by (auto split: option.splits node.splits)
  from dropWhile_concat_map [of "glob_paths S [''template'']" ?g, OF this d [unfolded layer_files_def]]
  obtain ys x zs where sp: "glob_paths S [''template''] = ys @ x # zs" and gx: "?g x = [(ns, b)]"
    and tk: "rendered rend config S = concat (map ?g ys)"
    by (auto simp: rendered_def layer_files_def)
  from gx have x: "x = ns" by (auto split: option.splits node.splits)
  with sp gx have f: "(ns, b) \<in> set (layer_files S [''template''])"
    by (auto simp: layer_files_iff split: option.splits node.splits)
  from d hd_dropWhile [of "renders rend config" "layer_files S [''template'']"]
  have t: "is_template ns" by (simp add: renders_def)
  have ok: "\<not> isl (rend b' config) \<and> \<not> sublist [CHR 0x5C] (join_names y) \<and>
      \<not> sublist ''.tmpl.'' (join_names (out_dir (build_platform c) @ butlast y))"
    if "y \<in> set ys" "(y, b') \<in> set (layer_files S [''template''])" "is_template y" for y b'
  proof -
    from that(2) have "(y, b') \<in> set (?g y)" by (simp add: layer_files_iff)
    moreover from that(1) have "?g y \<in> set (map ?g ys)"
      unfolding set_map by (intro image_eqI [where x = y]) simp_all
    ultimately have m: "(y, b') \<in> set (rendered rend config S)"
      unfolding tk set_concat by (rule UN_I [rotated])
    then have "renders rend config (y, b')" unfolding rendered_def by (auto dest: set_takeWhileD)
    with fa m that(3) show ?thesis by (auto simp: fails_at_def renders_def list_all_iff)
  qed
  have plan: "template_writes rend config (cw @ out_dir (build_platform c)) (rendered rend config S) =
      concat (map (\<lambda>ns. case fs_lookup S ([''template''] @ ns) of
         Some (File b) \<Rightarrow>
           if is_template ns
           then (case rend b config of
                   Inr r \<Rightarrow> [((cw @ out_dir (build_platform c)) @ collapse ns, r)] | Inl e \<Rightarrow> [])
           else [((cw @ out_dir (build_platform c)) @ ns, b)]
       | _ \<Rightarrow> []) ys) @ []"
    unfolding tk template_writes_def append_Nil2 by (rule concat_map_files [symmetric])
  show ?thesis
    unfolding copy_templates_def webui_template_prefix_layer c(1) plan
    using sp [unfolded x] ok
      template_step_aborts [where rend = rend and config = config, OF pl f t r bs]
    by (intro layer_loop_aborts [OF _ sp [unfolded x]] template_step_performs c pl) simp_all
qed

section \<open>The clean-up\<close>

lemma clean_output_clears:
  assumes I: "sources cw S w"
    and c: "build_data_dir c = None" "valid_name (build_platform c)"
      "build_platform c \<noteq> ''webui''"
    and nf: "file_at (root w) (cw @ out_dir (build_platform c)) = None"
  shows "fst (clean_output c w) = Inr ()"
    and "sources cw S (snd (clean_output c w))"
    and "view_of (snd (clean_output c w)) = a_clear (cw @ out_dir (build_platform c)) (view_of w)"
proof -
  let ?p = "join_names (out_dir (build_platform c))" and ?out = "cw @ out_dir (build_platform c)"
  note S = sourcesD [OF I]
  have p: "data_build_platform_path c = ?p" "plain ?p" "walk (cwd w) ?p = ?out"
    using c by (simp_all add: data_build_platform_path_names walk_join_names S(2))
  have run: "clean_output c w =
      (if dir_at (root w) ?out then (Inr (), w\<lparr>root := fs_del ?out (root w)\<rparr>) else (Inr (), w))"
  proof (cases "dir_at (root w) ?out")
    case True
    then have "shutil_rmtree ?p w = (Inr (), w\<lparr>root := fs_del ?out (root w)\<rparr>)"
      using p(2) by (simp add: shutil_rmtree_Inr_iff os_path_isdir_iff p(3))
    with True p(2) show ?thesis by (simp add: clean_output_def p(1,3) os_path_isdir_iff)
  next
    case False
    with p(2) show ?thesis by (simp add: clean_output_def p(1,3) os_path_isdir_iff)
  qed
  show "fst (clean_output c w) = Inr ()" by (simp add: run)
  have "fs_lookup (fs_del ?out (root w)) (cw @ source_root) = fs_lookup (root w) (cw @ source_root)"
    using sources_parallel_out [OF c(3), of cw "[]"]
    by (intro fs_lookup_del_parallel) (simp add: parallel_commute)
  with I show "sources cw S (snd (clean_output c w))"
    by (auto simp: run sources_def intro: wf_world_del)
  show "view_of (snd (clean_output c w)) = a_clear ?out (view_of w)"
    using nf by (simp add: run view_of_del a_clear_absent fs_lookup_None_iff)
qed

section \<open>The run after the configuration is loaded\<close>

lemma overlay_targets:
  assumes "p \<in> set (map fst (overlay rend config cw bp S))"
  shows "prefix (cw @ out_dir bp) p"
  using assms
  by (auto simp: overlay_def copy_plan_def template_plan_def template_writes_def split: if_splits sum.splits)

lemma sources_above:
  assumes "sources cw S w" "prefix q (cw @ out_dir bp)" "q \<noteq> cw @ out_dir bp"
  shows "file_at (root w) q = None"
proof -
  from assms(2,3) have "prefix q (cw @ [''data''])"
    by (auto simp: out_dir_def prefix_append prefix_Cons)
  moreover from assms(1) have "dir_at (root w) (cw @ [''data''])"
    using fs_lookup_prefix_Dir [of "root w" "cw @ [''data'']" "[''webui'']" S]
    by (simp add: sources_def source_root_def)
  ultimately show ?thesis by (intro not_file_at_dir) (rule dir_at_prefix)
qed

lemma build_platform_not_webui: "startswith bp ''BUILD_'' \<Longrightarrow> bp \<noteq> ''webui''"
  by (auto simp: startswith_def)

lemma fits_below:
  assumes "sources cw S w" "separate (map fst pl)"
    and "\<And>p. p \<in> set (map fst pl) \<Longrightarrow> prefix (cw @ out_dir bp) p"
  shows "fits pl (a_clear (cw @ out_dir bp) (view_of w))"
proof -
  have "ready p (a_clear (cw @ out_dir bp) (view_of w))" if "p \<in> set (map fst pl)" for p
    using assms(3) [OF that] sources_above [OF assms(1)]
    by (intro ready_a_clear) (simp_all add: view_of_def)
  with assms(2) show ?thesis by (simp add: fits_def list_all_iff)
qed

lemma fits_overlay:
  assumes "sources cw S w" "regular rend config cw bp S"
  shows "fits (overlay rend config cw bp S) (a_clear (cw @ out_dir bp) (view_of w))"
  using assms by (intro fits_below) (simp_all add: regular_def overlay_targets)

lemma announce_state:
  "root (snd (announce c w)) = root w" "cwd (snd (announce c w)) = cwd w"
  "wf_world w \<Longrightarrow> wf_world (snd (announce c w))"
  using preservesD [OF announce_frame(1)] preservesD [OF announce_frame(2)]
    maintainsD [OF announce_wf] by simp_all

lemma stage_prepare:
  assumes I: "sources cw S w"
    and c: "build_data_dir c = None" "valid_name (build_platform c)"
      "startswith (build_platform c) ''BUILD_''"
    and nf: "file_at (root w) (cw @ out_dir (build_platform c)) = None"
  shows "\<exists>w2. stage env config c w =
        thenS (copy_common c) (thenS (copy_templates env config c) (copy_device_specific c)) w2 \<and>
      sources cw S w2 \<and> view_of w2 = a_clear (cw @ out_dir (build_platform c)) (view_of w)"
proof -
  note nw = build_platform_not_webui [OF c(3)]
  obtain w1 where a: "announce c w = (Inr (), w1)"
    using announce_returns [of c w] by (metis prod.collapse)
  with announce_state [where c = c and w = w] sourcesD(1) [OF I]
  have r1: "root w1 = root w" "cwd w1 = cwd w" "wf_world w1" by simp_all
  then have I1: "sources cw S w1" and v1: "view_of w1 = view_of w"
    using I by (simp_all add: sources_def view_of_def)
  have ch: "check_platform c w1 = (Inr (), w1)" by (rule check_platform_accepts [OF c(3)])
  note cl = clean_output_clears [OF I1 c(1,2) nw nf [folded r1(1)]]
  obtain w2 where w2: "clean_output c w1 = (Inr (), w2)"
    using cl(1) by (cases "clean_output c w1") auto
  with cl(2,3) have "sources cw S w2"
    and "view_of w2 = a_clear (cw @ out_dir (build_platform c)) (view_of w)"
    by (simp_all add: v1)
  moreover have "stage env config c w =
      thenS (copy_common c) (thenS (copy_templates env config c) (copy_device_specific c)) w2"
    by (simp add: stage_def thenS_def bindS_def a ch w2)
  ultimately show ?thesis by blast
qed

lemma stage_run:
  assumes I: "sources cw S w"
    and c: "build_data_dir c = None" "valid_name (build_platform c)"
      "startswith (build_platform c) ''BUILD_''"
    and nf: "file_at (root w) (cw @ out_dir (build_platform c)) = None"
    and reg: "regular rend config cw (build_platform c) S"
  shows "fst (stage \<lparr>searchpath = template_root, render = rend\<rparr> config c w) = Inr ()"
    and "sources cw S (snd (stage \<lparr>searchpath = template_root, render = rend\<rparr> config c w))"
    and "view_of (snd (stage \<lparr>searchpath = template_root, render = rend\<rparr> config c w)) =
      a_run (overlay rend config cw (build_platform c) S)
        (a_clear (cw @ out_dir (build_platform c)) (view_of w))"
proof -
  let ?env = "\<lparr>searchpath = template_root, render = rend\<rparr>"
  let ?layers = "thenS (copy_common c) (thenS (copy_templates ?env config c) (copy_device_specific c))"
  note nw = build_platform_not_webui [OF c(3)]
  from stage_prepare [OF I c nf, of ?env config] obtain w2
    where st: "stage ?env config c w = ?layers w2" and I2: "sources cw S w2"
      and v2: "view_of w2 = a_clear (cw @ out_dir (build_platform c)) (view_of w)"
    by blast
  from reg have "plain_layer S [''common'']" "plain_layer S [''template'']"
    "plain_layer S [''device_specific'', build_platform c]"
    "renderable rend config (build_platform c) S"
    by (simp_all add: regular_def)
  note run = performsD [OF layers_perform [OF c(1,2) nw this] I2
      fits_overlay [OF I reg, folded v2]]
  show "fst (stage ?env config c w) = Inr ()"
    using run(1) by (simp add: st succeeds_def split: sum.splits)
  show "sources cw S (snd (stage ?env config c w))" using run(2) by (simp add: st)
  show "view_of (snd (stage ?env config c w)) =
      a_run (overlay rend config cw (build_platform c) S)
        (a_clear (cw @ out_dir (build_platform c)) (view_of w))"
    using run(3) by (simp add: st v2)
qed

section \<open>The run that a template interrupts\<close>

lemma partial_overlay_targets:
  assumes "p \<in> set (map fst (partial_overlay rend config cw bp S))"
  shows "prefix (cw @ out_dir bp) p"
  using assms
  by (auto simp: partial_overlay_def copy_plan_def template_writes_def split: if_splits sum.splits)

lemma stage_interrupted:
  assumes I: "sources cw S w"
    and c: "build_data_dir c = None" "valid_name (build_platform c)"
      "startswith (build_platform c) ''BUILD_''"
    and nf: "file_at (root w) (cw @ out_dir (build_platform c)) = None"
    and int: "interrupted rend config cw (build_platform c) S e"
  shows "fst (stage \<lparr>searchpath = template_root, render = rend\<rparr> config c w) = Inl e"
    and "sources cw S (snd (stage \<lparr>searchpath = template_root, render = rend\<rparr> config c w))"
    and "view_of (snd (stage \<lparr>searchpath = template_root, render = rend\<rparr> config c w)) =
      a_run (partial_overlay rend config cw (build_platform c) S)
        (a_clear (cw @ out_dir (build_platform c)) (view_of w))"
proof -
  let ?env = "\<lparr>searchpath = template_root, render = rend\<rparr>"
  let ?layers = "thenS (copy_common c) (thenS (copy_templates ?env config c) (copy_device_specific c))"
  note nw = build_platform_not_webui [OF c(3)]
  from stage_prepare [OF I c nf, of ?env config] obtain w2
    where st: "stage ?env config c w = ?layers w2" and I2: "sources cw S w2"
      and v2: "view_of w2 = a_clear (cw @ out_dir (build_platform c)) (view_of w)"
    by blast
  from int have pl: "plain_layer S [''common'']" "plain_layer S [''template'']"
    and fa: "fails_at rend config (build_platform c) S e"
    and sep: "separate (map fst (partial_overlay rend config cw (build_platform c) S))"
    by (simp_all add: interrupted_def)
  have "aborts (sources cw S) ?layers (partial_overlay rend config cw (build_platform c) S) e"
    unfolding partial_overlay_def
    by (intro aborts_thenS aborts_thenS_first copy_common_performs
        copy_templates_aborts c(1,2) nw pl fa)
  moreover have "fits (partial_overlay rend config cw (build_platform c) S) (view_of w2)"
    unfolding v2 using I sep by (rule fits_below) (rule partial_overlay_targets)
  ultimately have run: "fst (?layers w2) = Inl e" "sources cw S (snd (?layers w2))"
    "view_of (snd (?layers w2)) =
      a_run (partial_overlay rend config cw (build_platform c) S) (view_of w2)"
    using I2 by (auto dest: abortsD)
  show "fst (stage ?env config c w) = Inl e" using run(1) by (simp add: st)
  show "sources cw S (snd (stage ?env config c w))" using run(2) by (simp add: st)
  show "view_of (snd (stage ?env config c w)) =
      a_run (partial_overlay rend config cw (build_platform c) S)
        (a_clear (cw @ out_dir (build_platform c)) (view_of w))"
    using run(3) by (simp add: st v2)
qed

section \<open>What the plan leaves at a path\<close>

lemma overlay_targets_below:
  assumes "wf_node S" "p \<in> set (map fst (overlay rend config cw bp S))"
  shows "\<exists>ns. ns \<noteq> [] \<and> p = cw @ out_dir bp @ ns"
  using assms layer_files_names(1) [OF assms(1)]
  by (auto simp: overlay_def copy_plan_def template_plan_def template_writes_def collapse_def
      split: if_splits sum.splits)

text \<open>What the plan of the run leaves at a path.\<close>

lemma overlay_device_write:
  assumes "wf_node S" "(ns, b) \<in> set (layer_files S [''device_specific'', bp])"
  shows "fst (a_run (overlay rend config cw bp S) v) ((cw @ out_dir bp) @ ns) = Some b"
  unfolding overlay_def append_assoc [symmetric]
  using assms by (intro a_run_last_write copy_plan_write distinct_copy_plan)

lemma overlay_template_write:
  assumes "(t, r) \<in> set (template_plan rend config (cw @ out_dir bp) S)"
    and "list_all (\<lambda>(p, x). p = t \<longrightarrow> x = r) (template_plan rend config (cw @ out_dir bp) S)"
    and "t \<notin> set (map fst (copy_plan (cw @ out_dir bp) S [''device_specific'', bp]))"
  shows "fst (a_run (overlay rend config cw bp S) v) t = Some r"
proof -
  have "fst (a_run (copy_plan (cw @ out_dir bp) S [''common''] @
      template_plan rend config (cw @ out_dir bp) S) v) t = Some r"
    using assms(1,2) by (intro a_run_agreed) (auto simp: list_all_iff)
  with assms(3) show ?thesis
    unfolding overlay_def append_assoc [symmetric] by (simp add: a_run_files_other)
qed

lemma overlay_common_write:
  assumes "wf_node S" "(ns, b) \<in> set (layer_files S [''common''])"
    and "(cw @ out_dir bp) @ ns \<notin> set (map fst (template_plan rend config (cw @ out_dir bp) S @
          copy_plan (cw @ out_dir bp) S [''device_specific'', bp]))"
  shows "fst (a_run (overlay rend config cw bp S) v) ((cw @ out_dir bp) @ ns) = Some b"
proof -
  let ?q = "(cw @ out_dir bp) @ ns"
  have "fst (a_run ([] @ copy_plan (cw @ out_dir bp) S [''common'']) v) ?q = Some b"
    using assms(1,2) by (intro a_run_last_write copy_plan_write distinct_copy_plan)
  moreover from assms(3)
  have "?q \<notin> set (map fst (template_plan rend config (cw @ out_dir bp) S))"
    and "?q \<notin> set (map fst (copy_plan (cw @ out_dir bp) S [''device_specific'', bp]))"
    by auto
  ultimately show ?thesis
    unfolding overlay_def a_run_simps append_Nil by (metis a_run_files_other)
qed

lemma overlay_no_target:
  assumes "wf_node S" "q \<notin> set (map fst (overlay rend config cw bp S))"
  shows "fst (a_run (overlay rend config cw bp S) (a_clear (cw @ out_dir bp) v)) q =
    (if prefix (cw @ out_dir bp) q then None else fst v q)"
  using assms by (simp add: a_run_files_other)

lemma overlay_outside:
  assumes "wf_node S" "\<not> prefix (cw @ out_dir bp) q"
  shows "q \<notin> set (map fst (overlay rend config cw bp S))"
  using assms overlay_targets [of q rend config cw bp S] by auto


section \<open>The state after the run\<close>

lemma stage_final:
  assumes "sources cw S w"
    and "build_data_dir c = None" "valid_name (build_platform c)"
      "startswith (build_platform c) ''BUILD_''"
    and "file_at (root w) (cw @ out_dir (build_platform c)) = None"
    and "regular rend config cw (build_platform c) S"
  shows "file_at (root (snd (stage \<lparr>searchpath = template_root, render = rend\<rparr> config c w))) =
      fst (a_run (overlay rend config cw (build_platform c) S)
        (a_clear (cw @ out_dir (build_platform c)) (view_of w)))"
    and "dir_at (root (snd (stage \<lparr>searchpath = template_root, render = rend\<rparr> config c w))) =
      snd (a_run (overlay rend config cw (build_platform c) S)
        (a_clear (cw @ out_dir (build_platform c)) (view_of w)))"
  using stage_run(3) [OF assms] view_of_simps by metis+

lemma sources_above_dirs:
  assumes "sources cw S w" "prefix q (cw @ out_dir bp)" "q \<noteq> cw @ out_dir bp"
  shows "dir_at (root w) q"
proof -
  from assms(2,3) have "prefix q (cw @ [''data''])"
    by (auto simp: out_dir_def prefix_append prefix_Cons)
  moreover from assms(1) have "dir_at (root w) (cw @ [''data''])"
    using fs_lookup_prefix_Dir [of "root w" "cw @ [''data'']" "[''webui'']" S]
    by (simp add: sources_def source_root_def)
  ultimately show ?thesis by (rule dir_at_prefix [rotated])
qed

lemma stage_rerun:
  assumes I: "sources cw S w"
    and c: "build_data_dir c = None" "valid_name (build_platform c)"
      "startswith (build_platform c) ''BUILD_''"
    and nf: "file_at (root w) (cw @ out_dir (build_platform c)) = None"
    and reg: "regular rend config cw (build_platform c) S"
  shows "view_of (snd (stage \<lparr>searchpath = template_root, render = rend\<rparr> config c
      (snd (stage \<lparr>searchpath = template_root, render = rend\<rparr> config c w)))) =
    view_of (snd (stage \<lparr>searchpath = template_root, render = rend\<rparr> config c w))"
proof -
  let ?st = "stage \<lparr>searchpath = template_root, render = rend\<rparr> config c"
  let ?out = "cw @ out_dir (build_platform c)" and ?pl = "overlay rend config cw (build_platform c) S"
  note S = sourcesD [OF I] and run = stage_run [OF I c nf reg]
  have below: "\<forall>p \<in> set (map fst ?pl). prefix ?out p \<and> p \<noteq> ?out"
    using overlay_targets_below [OF S(4), of _ rend config cw "build_platform c"] by fastforce
  then have "?out \<notin> set (map fst ?pl)" by auto
  then have nf': "file_at (root (snd (?st w))) ?out = None"
    unfolding stage_final(1) [OF I c nf reg] by (simp add: a_run_files_other)
  have "a_clear ?out (view_of (snd (?st w))) = a_clear ?out (view_of w)"
    unfolding run(3) using below sources_above_dirs [OF I] by (intro a_clear_a_run) auto
  with stage_run(3) [OF run(2) c nf' reg] run(3) show ?thesis by simp
qed


section \<open>The whole run\<close>

lemma load_config_sources:
  assumes "sources cw S w" "valid_name (target c @ ''.yaml'')"
    and "file_at S [''config'', target c @ ''.yaml''] = Some y"
  shows "fst (load_config ps c w) = yaml_load ps y"
proof -
  let ?ns = "source_root @ [''config'', target c @ ''.yaml'']"
  have p: "path_join ''data'' [''webui'', ''config'', target c @ ''.yaml''] = join_names ?ns"
    using assms(2) path_join_names [of "''data''" "[''webui'', ''config'', target c @ ''.yaml'']"]
    by (simp add: source_root_def del: join_names.simps)
  have v: "?ns \<noteq> []" "list_all valid_name ?ns" using assms(2) by simp_all
  have "read_file (join_names ?ns) w = (Inr y, w)"
    unfolding read_file_Inr_iff
    using assms(3) sources_file_at [OF assms(1), of "[''config'', target c @ ''.yaml'']"]
      plain_join_names [OF v] walk_join_names [OF v, of cw]
    by (simp add: sourcesD(2) [OF assms(1)] del: join_names.simps)
  then show ?thesis unfolding load_config_unfold p by simp
qed

lemma resolve_context_standalone:
  assumes "truthy (environ ''FUJINET_TARGET'')" "truthy (environ ''FUJINET_BUILD_PLATFORM'')"
  shows "fst (resolve_context ps None environ w) =
    Inr \<lparr>target = the (environ ''FUJINET_TARGET''),
         build_platform = the (environ ''FUJINET_BUILD_PLATFORM''),
         build_data_dir = environ ''BUILD_DATA_DIR''\<rparr>"
  using assms
  by (simp add: resolve_context_def context_from_environ_def thenS_def bindS_def print_line_def)

lemma sources_resolve_context:
  assumes "sources cw S w"
  shows "sources cw S (snd (resolve_context ps env environ w))"
  using assms preservesD [OF resolve_context_frame(1), of ps env environ w]
    preservesD [OF resolve_context_frame(2), of ps env environ w]
    maintainsD [OF resolve_context_wf, of w ps env environ]
  by (simp add: sources_def)

lemma build_webui_run:
  assumes rc: "fst (resolve_context ps env environ w) = Inr c"
    and lc: "fst (load_config ps c (snd (resolve_context ps env environ w))) = Inr config"
    and I: "sources cw S w"
    and c: "build_data_dir c = None" "valid_name (build_platform c)"
      "startswith (build_platform c) ''BUILD_''"
    and nf: "file_at (root w) (cw @ out_dir (build_platform c)) = None"
    and reg: "regular rend config cw (build_platform c) S"
  shows "fst (build_webui ps rend env environ w) = Inr ()"
    and "view_of (snd (build_webui ps rend env environ w)) =
      a_run (overlay rend config cw (build_platform c) S)
        (a_clear (cw @ out_dir (build_platform c)) (view_of w))"
proof -
  obtain w1 where w1: "resolve_context ps env environ w = (Inr c, w1)"
    using rc by (cases "resolve_context ps env environ w") simp
  with sources_resolve_context [OF I, of ps env environ] have I1: "sources cw S w1" by simp
  have r: "root w1 = root w"
    using preservesD [OF resolve_context_frame(1), of ps env environ w] w1 by simp
  then have v: "view_of w1 = view_of w" by (simp add: view_of_def)
  note run = stage_run [OF I1 c nf [folded r] reg]
  from lc w1 have "build_webui ps rend env environ w =
      stage \<lparr>searchpath = template_root, render = rend\<rparr> config c w1"
    by (simp add: build_webui_unfold)
  with run(1,3) v show "fst (build_webui ps rend env environ w) = Inr ()"
    and "view_of (snd (build_webui ps rend env environ w)) =
      a_run (overlay rend config cw (build_platform c) S)
        (a_clear (cw @ out_dir (build_platform c)) (view_of w))"
    by simp_all
qed

end
