(* ===== verification/Spec2Isabelle.thy ===== *)
theory Spec2Isabelle
  imports Staging
begin

text \<open>
  \<^bold>\<open>A verification development for the web UI asset stager\<close>
  (\<^verbatim>\<open>src/build_webui.py\<close>, the only source file of the repository).

  \<^bold>\<open>The program.\<close> The script assembles the web UI of a firmware build. It
  determines a build context (target, build platform, optional output directory)
  from the PlatformIO environment or from environment variables, loads the
  target's configuration document, refuses a build platform that does not start
  with \<^verbatim>\<open>BUILD_\<close>, deletes the output directory, and then fills it from three source
  trees in a fixed order: the common files are copied, the template files are
  rendered (when their name matches \<^verbatim>\<open>*.tmpl.*\<close>) or copied, and the files specific
  to the build platform are copied last, so that they replace what the first two
  layers wrote at the same place. Its three functions are \<^verbatim>\<open>prep_dst\<close>,
  \<^verbatim>\<open>process_template\<close> and \<^verbatim>\<open>copy_file\<close>; the rest is the module body.

  \<^bold>\<open>The theories\<close>, in the order they build on each other.
  \<^item> \<open>Prelude\<close>: path strings, file contents, the exceptions (\<open>pyerr\<close>), and the
    monad of statements: a statement maps the state to an outcome (\<open>Inl\<close> the
    exception raised, \<open>Inr\<close> the value returned) and the state it leaves, so that
    what a failing run has written before it failed is part of its result.
    \<open>bindS\<close>/\<open>thenS\<close> are sequencing, \<open>for_each\<close> is the \<^verbatim>\<open>for\<close> loop;
    \<open>maintains\<close> and \<open>preserves\<close> are invariants and frames of statements.
  \<^item> \<open>PyString\<close>: \<^verbatim>\<open>str.replace\<close> (\<open>str_replace\<close>, \<open>replace_all\<close>),
    \<^verbatim>\<open>str.startswith\<close>, truthiness; lemmas on removing a leading prefix, on strings
    without an occurrence, on the first occurrence, on a separator that the
    pattern does not hold, and on lengths.
  \<^item> \<open>PyPath\<close>: \<^verbatim>\<open>os.path.join\<close>, \<^verbatim>\<open>dirname\<close>, \<^verbatim>\<open>basename\<close>, \<^verbatim>\<open>split\<close> of
    \<^verbatim>\<open>posixpath\<close>, the resolution of a path string to a list of names (\<open>walk\<close>),
    and the paths that are proper names joined by separators (\<open>join_names\<close>).
  \<^item> \<open>FileSys\<close>: the file system as a tree (\<open>node\<close>), the state \<open>world\<close> (tree,
    working directory, printed lines), the calls \<^verbatim>\<open>os.path.exists/isfile/isdir\<close>,
    \<^verbatim>\<open>os.mkdir\<close>, \<^verbatim>\<open>os.makedirs\<close>, \<^verbatim>\<open>open(..., 'w')\<close>, reading a file,
    \<^verbatim>\<open>shutil.copy\<close>, \<^verbatim>\<open>shutil.rmtree\<close>, \<^verbatim>\<open>print\<close>, each with its exceptions; the
    well-formedness invariant \<open>wf_node\<close>; the view of a tree as a map from
    resolved paths to file contents (\<open>file_at\<close>) and a set of directories
    (\<open>dir_at\<close>), and what storing and deleting an entry do to that view.
  \<^item> \<open>FileOps\<close>: what each call does to that view, when it returns and what it
    raises; invariants and frames of the calls. \<open>Makedirs\<close>: the same for the
    recursion of \<^verbatim>\<open>os.makedirs\<close>.
  \<^item> \<open>Glob\<close>: \<^verbatim>\<open>glob.iglob(prefix + '**', recursive=True)\<close>, and the listing as a
    list of paths of the tree (\<open>tree_paths\<close>, \<open>glob_paths\<close>).
  \<^item> \<open>PyRegex\<close>: the pattern of line 84 and \<^verbatim>\<open>search\<close>, by derivatives.
  \<^item> \<open>Jinja\<close>: the template environment, its loader, and rendering as a field of
    the environment; \<open>subst_render\<close>, a small engine for \<^verbatim>\<open>{{name}}\<close>.
  \<^item> \<open>Stager\<close>: \<open>prep_dst\<close>, \<open>process_template\<close>, \<open>copy_file\<close> (lines 7 to 30).
  \<^item> \<open>Script\<close>: the module body (lines 32 to 99): \<open>resolve_context\<close>,
    \<open>load_config\<close>, \<open>announce\<close>, \<open>check_platform\<close>, \<open>clean_output\<close>, the three
    loops, \<open>stage\<close> (lines 62 to 99) and \<open>build_webui\<close>, the whole run.
  \<^item> \<open>Overlay\<close>: the specification of the staging: a \<open>view\<close> of the file system, a
    \<open>plan\<close> (a list of writes, made in order), and \<open>performs\<close>: a statement
    implements a plan. \<open>Layers\<close>: the plan of the three layers (\<open>overlay\<close>) as a
    function of the tree below \<^verbatim>\<open>data/webui\<close>, and each call of \<open>copy_file\<close> and
    \<open>process_template\<close> as one write of it. \<open>Staging\<close>: the loops, the clean-up and
    \<open>stage\<close> as implementations of the plan. For a run that a template interrupts,
    \<open>aborts\<close> (a statement raises after the writes of a plan) and \<open>partial_overlay\<close>
    (the writes made before the first template that fails to render) take the
    places of \<open>performs\<close> and \<open>overlay\<close>.
  \<^item> \<open>Spec2Isabelle\<close> (this theory): the properties of the whole run.

  \<^bold>\<open>Correspondence.\<close> Every definition that models code keeps the name of the
  function or variable it models. Keyword arguments with default \<^verbatim>\<open>None\<close> are
  \<open>option\<close>s. A library function is modelled at the lines that call it, from the
  behaviour of CPython 3.11 and later on POSIX and of Jinja 3.1. The script runs
  to completion or raises: no loop of the model needs fuel, every recursion is a
  \<open>fun\<close> or a \<open>function\<close> with its termination proof (\<open>os_makedirs\<close> recurses on the
  directory part of its argument, which is shorter). The one fuel parameter is in
  the example engine \<open>subst_vars\<close>: \<open>subst_render\<close> gives it one unit per character
  of the template and one more, and \<open>render_fuel_enough\<close> shows that more fuel never
  changes the result.

  \<^bold>\<open>What is proved.\<close>
  \<^item> Refinement: \<open>stage\<close> implements the plan \<open>overlay\<close> (\<open>stage_refines_overlay\<close>).
    Its consequences are the properties of the staged tree: a device-specific
    file wins over the other layers, no file of an earlier build is left, nothing
    outside the output directory changes, common files and rendered templates
    are at their destinations, a rebuild gives the same result, and the
    standalone run returns. The hypotheses say when the plan describes the run:
    they are the predicate \<open>regular\<close> of theory \<open>Layers\<close>; the theorems of theory
    \<open>Stager\<close> on a marker in a directory name, on a backslash in a file name and
    on a file in the place of a directory show what happens without them.
  \<^item> Rendering errors: when a template fails to render, \<open>stage\<close> raises the
    exception of the engine and has made the writes of \<open>partial_overlay\<close>
    (\<open>stage_render_error\<close>): the output directory of the build before is gone and
    the new one holds the layers up to that template, nothing is rolled back.
  \<^item> Fail fast: a build platform without the \<^verbatim>\<open>BUILD_\<close> prefix, or a missing
    environment variable, ends the run with an exception and an unchanged tree.
  \<^item> Invariant: the run keeps the tree well formed and the working directory.
  \<^item> The properties of the functions and of the library calls are stated in the
    section \<open>Properties\<close> of their theories.

  \<^bold>\<open>Not modelled.\<close> The Windows flavour of \<^verbatim>\<open>os.path\<close>; symbolic links, permissions
  and other processes; the template language and YAML and INI syntax (functions
  that the model takes as parameters); build platforms that contain the magic
  characters of \<^verbatim>\<open>glob\<close> (the theorems on the layers assume there is none); the
  laziness of \<^verbatim>\<open>glob.iglob\<close> (the listing is taken when a loop starts, which is the
  same as long as the loop does not write below the directory it lists: the
  output directory is not below \<^verbatim>\<open>data/webui\<close>). The theorems on the layers are
  for the default output directory \<^verbatim>\<open>data/<build_platform>\<close>; an explicit output
  directory is covered by the theorems on \<open>dest_path\<close> and \<open>prep_dst\<close> only.
\<close>

section \<open>Fail fast\<close>

text \<open>
  C6. A build platform that does not start with \<^verbatim>\<open>BUILD_\<close> aborts the run
  before anything is deleted or copied: the run raises, and the tree and the
  working directory are as before. When the configuration file loads, the
  exception is the one of line 68; otherwise it is the error of loading it.
\<close>

theorem build_webui_bad_platform:
  assumes "resolve_context ps env environ w = (Inr c, w1)"
    and "\<not> startswith (build_platform c) ''BUILD_''"
  shows "root (snd (build_webui ps rend env environ w)) = root w \<and>
    cwd (snd (build_webui ps rend env environ w)) = cwd w \<and>
    fst (build_webui ps rend env environ w) =
      (case fst (load_config ps c w1) of
         Inl e \<Rightarrow> Inl e
       | Inr config \<Rightarrow> Inl (Exception ''build_platform does not match BUILD_*, aborting''))"
proof -
  have w1: "root w1 = root w" "cwd w1 = cwd w"
    using preservesD [OF resolve_context_frame(1), of ps env environ w]
      preservesD [OF resolve_context_frame(2), of ps env environ w] assms(1) by simp_all
  have "root (snd (announce c w1)) = root w1" "cwd (snd (announce c w1)) = cwd w1"
    using preservesD [OF announce_frame(1)] preservesD [OF announce_frame(2)] by simp_all
  with w1 show ?thesis
    by (simp add: build_webui_unfold assms stage_bad_platform split: sum.splits)
qed

theorem build_webui_bad_platform_witness:
  "root (snd (build_webui example_parsers subst_render None (example_environ ''t'' ''webui'') example_world)) =
     root example_world \<and>
   cwd (snd (build_webui example_parsers subst_render None (example_environ ''t'' ''webui'') example_world)) =
     cwd example_world \<and>
   fst (build_webui example_parsers subst_render None (example_environ ''t'' ''webui'') example_world) =
     (case fst (load_config example_parsers
          \<lparr>target = ''t'', build_platform = ''webui'', build_data_dir = None\<rparr>
          (snd (resolve_context example_parsers None (example_environ ''t'' ''webui'') example_world))) of
        Inl e \<Rightarrow> Inl e
      | Inr config \<Rightarrow> Inl (Exception ''build_platform does not match BUILD_*, aborting''))"
  by (rule build_webui_bad_platform; code_simp)

text \<open>
  C20. Standalone, a target or build platform that is unset or empty ends the
  run with \<^verbatim>\<open>Exception("Missing environment variables")\<close>; four lines have been
  printed and the tree is as before.
\<close>

theorem build_webui_missing_env:
  assumes "\<not> truthy (environ ''FUJINET_TARGET'') \<or> \<not> truthy (environ ''FUJINET_BUILD_PLATFORM'')"
  shows "build_webui ps rend None environ w =
    (Inl (Exception ''Missing environment variables''),
     w\<lparr>stdout := stdout w @
       [''Running build_webui.py outside the PlatformIO environment!'',
        ''Using environment variables:'',
        ''FUJINET_TARGET='' @ py_str (environ ''FUJINET_TARGET''),
        ''FUJINET_BUILD_PLATFORM='' @ py_str (environ ''FUJINET_BUILD_PLATFORM'')]\<rparr>)"
  using assms
  by (auto simp: build_webui_def resolve_context_def context_from_environ_def
      thenS_def bindS_def print_line_def)

theorem build_webui_missing_env_witness:
  "build_webui example_parsers subst_render None (example_environ ''t'' []) example_world =
    (Inl (Exception ''Missing environment variables''),
     example_world\<lparr>stdout := stdout example_world @
       [''Running build_webui.py outside the PlatformIO environment!'',
        ''Using environment variables:'',
        ''FUJINET_TARGET='' @ py_str (example_environ ''t'' [] ''FUJINET_TARGET''),
        ''FUJINET_BUILD_PLATFORM='' @ py_str (example_environ ''t'' [] ''FUJINET_BUILD_PLATFORM'')]\<rparr>)"
  by (rule build_webui_missing_env; code_simp)

section \<open>Invariant\<close>



section \<open>The layers\<close>

text \<open>
  C1. The run after the configuration is loaded implements the plan of the
  three layers. From a state with the sources, with no explicit output
  directory, a build platform that is a proper name, starts with \<^verbatim>\<open>BUILD_\<close> and
  holds no magic character of \<^verbatim>\<open>glob\<close>, no regular file at the output directory,
  and regular names, \<open>stage\<close> returns, and the files and directories it leaves
  are those of the initial state with the output directory removed and then the
  writes of \<open>overlay\<close> made in their order: the common files, the templates
  (rendered or copied), the device-specific files.
\<close>

theorem stage_refines_overlay:
  assumes "sources (cwd w) S w"
    and "build_data_dir c = None" "valid_name (build_platform c)"
      "startswith (build_platform c) ''BUILD_''" "\<not> has_magic (build_platform c)"
    and "file_at (root w) (cwd w @ out_dir (build_platform c)) = None"
    and "regular rend config (cwd w) (build_platform c) S"
  shows "fst (stage \<lparr>searchpath = template_root, render = rend\<rparr> config c w) = Inr () \<and>
    view_of (snd (stage \<lparr>searchpath = template_root, render = rend\<rparr> config c w)) =
      a_run (overlay rend config (cwd w) (build_platform c) S)
        (a_clear (cwd w @ out_dir (build_platform c)) (view_of w))"
  using stage_run(1,3) [OF assms(1-4,6,7)] by simp

theorem stage_refines_overlay_witness:
  "fst (stage \<lparr>searchpath = template_root, render = subst_render\<rparr> example_config example_ctx
      example_world) = Inr () \<and>
   view_of (snd (stage \<lparr>searchpath = template_root, render = subst_render\<rparr> example_config
      example_ctx example_world)) =
     a_run (overlay subst_render example_config (cwd example_world) (build_platform example_ctx)
         example_sources)
       (a_clear (cwd example_world @ out_dir (build_platform example_ctx)) (view_of example_world))"
  by (rule stage_refines_overlay; code_simp)

text \<open>
  C2. Override wins: after the run, the destination of every regular file of the
  device-specific layer of the build platform holds that file's content,
  whatever the common and the template layer wrote there.
\<close>

theorem device_specific_wins:
  assumes "sources (cwd w) S w"
    and "build_data_dir c = None" "valid_name (build_platform c)"
      "startswith (build_platform c) ''BUILD_''" "\<not> has_magic (build_platform c)"
    and "file_at (root w) (cwd w @ out_dir (build_platform c)) = None"
    and "regular rend config (cwd w) (build_platform c) S"
    and "(ns, b) \<in> set (layer_files S [''device_specific'', build_platform c])"
  shows "file_at (root (snd (stage \<lparr>searchpath = template_root, render = rend\<rparr> config c w)))
    ((cwd w @ out_dir (build_platform c)) @ ns) = Some b"
  unfolding stage_final(1) [OF assms(1-4,6,7)]
  using sourcesD(4) [OF assms(1)] assms(8) by (rule overlay_device_write)

theorem device_specific_wins_witness:
  "file_at (root (snd (stage \<lparr>searchpath = template_root, render = subst_render\<rparr> example_config
      example_ctx example_world)))
    ((cwd example_world @ out_dir (build_platform example_ctx)) @ [''logo.bin'']) = Some ''TESTLOGO''"
  by (rule device_specific_wins [where S = example_sources]; code_simp)

text \<open>
  C3. No stale files: after the run, a path at or below the output directory that
  is not a destination of the plan holds no file, whatever was there before.
\<close>

theorem stage_no_stale_files:
  assumes "sources (cwd w) S w"
    and "build_data_dir c = None" "valid_name (build_platform c)"
      "startswith (build_platform c) ''BUILD_''" "\<not> has_magic (build_platform c)"
    and "file_at (root w) (cwd w @ out_dir (build_platform c)) = None"
    and "regular rend config (cwd w) (build_platform c) S"
    and "prefix (cwd w @ out_dir (build_platform c)) q"
    and "q \<notin> set (map fst (overlay rend config (cwd w) (build_platform c) S))"
  shows "file_at (root (snd (stage \<lparr>searchpath = template_root, render = rend\<rparr> config c w))) q =
    None"
  unfolding stage_final(1) [OF assms(1-4,6,7)]
  using assms(8) by (simp add: overlay_no_target [OF sourcesD(4) [OF assms(1)] assms(9)])

theorem stage_no_stale_files_witness:
  "file_at (root (snd (stage \<lparr>searchpath = template_root, render = subst_render\<rparr> example_config
      example_ctx example_world))) [''proj'', ''data'', ''BUILD_TEST'', ''stale.txt''] = None"
  by (rule stage_no_stale_files [where S = example_sources]; code_simp)

text \<open>
  C16. The run writes below the output directory only: the content of every path
  that is not at or below it is as before (the sources among them).
\<close>

theorem stage_writes_only_output:
  assumes "sources (cwd w) S w"
    and "build_data_dir c = None" "valid_name (build_platform c)"
      "startswith (build_platform c) ''BUILD_''" "\<not> has_magic (build_platform c)"
    and "file_at (root w) (cwd w @ out_dir (build_platform c)) = None"
    and "regular rend config (cwd w) (build_platform c) S"
    and "\<not> prefix (cwd w @ out_dir (build_platform c)) q"
  shows "file_at (root (snd (stage \<lparr>searchpath = template_root, render = rend\<rparr> config c w))) q =
    file_at (root w) q"
  unfolding stage_final(1) [OF assms(1-4,6,7)]
  using assms(8)
  by (simp add: overlay_no_target [OF sourcesD(4) [OF assms(1)]
        overlay_outside [OF sourcesD(4) [OF assms(1)] assms(8)]])

theorem stage_writes_only_output_witness:
  "file_at (root (snd (stage \<lparr>searchpath = template_root, render = subst_render\<rparr> example_config
      example_ctx example_world))) [''proj'', ''data'', ''webui'', ''common'', ''logo.bin''] =
   file_at (root example_world) [''proj'', ''data'', ''webui'', ''common'', ''logo.bin'']"
  by (rule stage_writes_only_output [where S = example_sources]; code_simp)

text \<open>
  C13. Every regular file of the common layer is at its destination after the run,
  with the same content, unless the template layer or the device-specific layer
  has the same destination.
\<close>

theorem common_file_copied:
  assumes "sources (cwd w) S w"
    and "build_data_dir c = None" "valid_name (build_platform c)"
      "startswith (build_platform c) ''BUILD_''" "\<not> has_magic (build_platform c)"
    and "file_at (root w) (cwd w @ out_dir (build_platform c)) = None"
    and "regular rend config (cwd w) (build_platform c) S"
    and "(ns, b) \<in> set (layer_files S [''common''])"
    and "(cwd w @ out_dir (build_platform c)) @ ns \<notin>
      set (map fst (template_plan rend config (cwd w @ out_dir (build_platform c)) S @
        copy_plan (cwd w @ out_dir (build_platform c)) S [''device_specific'', build_platform c]))"
  shows "file_at (root (snd (stage \<lparr>searchpath = template_root, render = rend\<rparr> config c w)))
    ((cwd w @ out_dir (build_platform c)) @ ns) = Some b"
  unfolding stage_final(1) [OF assms(1-4,6,7)]
  using sourcesD(4) [OF assms(1)] assms(8,9) by (rule overlay_common_write)

theorem common_file_copied_witness:
  "file_at (root (snd (stage \<lparr>searchpath = template_root, render = subst_render\<rparr> example_config
      example_ctx example_world)))
    ((cwd example_world @ out_dir (build_platform example_ctx)) @ [''js'', ''app.js'']) = Some ''APP''"
  by (rule common_file_copied [where S = example_sources]; code_simp)

text \<open>
  C7. A file of the template layer that matches the pattern of line 84 and
  renders is at its destination with \<^verbatim>\<open>.tmpl.\<close> collapsed after the run, and holds
  the rendered text, when the other templates with that destination (if any)
  render to the same text and no device-specific file has that destination.
\<close>

theorem template_file_rendered:
  assumes "sources (cwd w) S w"
    and "build_data_dir c = None" "valid_name (build_platform c)"
      "startswith (build_platform c) ''BUILD_''" "\<not> has_magic (build_platform c)"
    and "file_at (root w) (cwd w @ out_dir (build_platform c)) = None"
    and "regular rend config (cwd w) (build_platform c) S"
    and "(ns, b) \<in> set (layer_files S [''template''])" "is_template ns" "rend b config = Inr r"
    and "list_all (\<lambda>(p, x). p = (cwd w @ out_dir (build_platform c)) @ collapse ns \<longrightarrow> x = r)
      (template_plan rend config (cwd w @ out_dir (build_platform c)) S)"
    and "(cwd w @ out_dir (build_platform c)) @ collapse ns \<notin>
      set (map fst (copy_plan (cwd w @ out_dir (build_platform c)) S
        [''device_specific'', build_platform c]))"
  shows "file_at (root (snd (stage \<lparr>searchpath = template_root, render = rend\<rparr> config c w)))
    ((cwd w @ out_dir (build_platform c)) @ collapse ns) = Some r"
  unfolding stage_final(1) [OF assms(1-4,6,7)]
  using template_plan_write(1) [where rend = rend and config = config, OF assms(8,9,10)]
    assms(11,12)
  by (rule overlay_template_write)

theorem template_file_rendered_witness:
  "file_at (root (snd (stage \<lparr>searchpath = template_root, render = subst_render\<rparr> example_config
      example_ctx example_world)))
    ((cwd example_world @ out_dir (build_platform example_ctx)) @ collapse [''banner.tmpl.html'']) =
   Some ''<h1>X</h1>''"
  by (rule template_file_rendered [where S = example_sources and b = "''<h1>{{title}}</h1>''"];
      code_simp)

text \<open>
  C14. A rebuild gives the same result: running \<open>stage\<close> again from the state that a
  run has left yields the same files and directories.
\<close>

theorem stage_rebuild_same:
  assumes "sources (cwd w) S w"
    and "build_data_dir c = None" "valid_name (build_platform c)"
      "startswith (build_platform c) ''BUILD_''" "\<not> has_magic (build_platform c)"
    and "file_at (root w) (cwd w @ out_dir (build_platform c)) = None"
    and "regular rend config (cwd w) (build_platform c) S"
  shows "view_of (snd (stage \<lparr>searchpath = template_root, render = rend\<rparr> config c
      (snd (stage \<lparr>searchpath = template_root, render = rend\<rparr> config c w)))) =
    view_of (snd (stage \<lparr>searchpath = template_root, render = rend\<rparr> config c w))"
  using assms(1-4,6,7) by (rule stage_rerun)

theorem stage_rebuild_same_witness:
  "view_of (snd (stage \<lparr>searchpath = template_root, render = subst_render\<rparr> example_config
      example_ctx
      (snd (stage \<lparr>searchpath = template_root, render = subst_render\<rparr> example_config
         example_ctx example_world)))) =
    view_of (snd (stage \<lparr>searchpath = template_root, render = subst_render\<rparr> example_config
      example_ctx example_world))"
  by (rule stage_rebuild_same [where S = example_sources]; code_simp)

text \<open>
  C8. The standalone run returns. With \<^verbatim>\<open>FUJINET_TARGET\<close> and
  \<^verbatim>\<open>FUJINET_BUILD_PLATFORM\<close> set, \<^verbatim>\<open>BUILD_DATA_DIR\<close> unset, a configuration file of
  the target among the sources that the parser accepts, a build platform that is
  a proper name starting with \<^verbatim>\<open>BUILD_\<close>, no regular file at the output directory
  and regular names, the whole script runs to its end without an exception.
\<close>

theorem build_webui_standalone_returns:
  assumes "environ ''FUJINET_TARGET'' = Some t" "t \<noteq> []" "valid_name (t @ ''.yaml'')"
    and "environ ''FUJINET_BUILD_PLATFORM'' = Some bp" "environ ''BUILD_DATA_DIR'' = None"
    and "valid_name bp" "startswith bp ''BUILD_''" "\<not> has_magic bp"
    and "sources (cwd w) S w"
    and "file_at S [''config'', t @ ''.yaml''] = Some y" "yaml_load ps y = Inr config"
    and "file_at (root w) (cwd w @ out_dir bp) = None"
    and "regular rend config (cwd w) bp S"
  shows "fst (build_webui ps rend None environ w) = Inr ()"
proof -
  let ?c = "\<lparr>target = t, build_platform = bp, build_data_dir = None\<rparr>"
  from assms(7) have "bp \<noteq> []" by (auto simp: startswith_def)
  with assms(1,2,4,5) have rc: "fst (resolve_context ps None environ w) = Inr ?c"
    by (simp add: resolve_context_standalone)
  have "fst (load_config ps ?c (snd (resolve_context ps None environ w))) = yaml_load ps y"
    using assms(3,10) by (intro load_config_sources [OF sources_resolve_context [OF assms(9)]]) simp_all
  with assms(11) show ?thesis
    using assms(6,7,12,13) by (intro build_webui_run(1) [OF rc _ assms(9)]) simp_all
qed

theorem build_webui_standalone_returns_witness:
  "fst (build_webui example_parsers subst_render None (example_environ ''t'' ''BUILD_TEST'')
     example_world) = Inr ()"
  by (rule build_webui_standalone_returns [where S = example_sources and t = "''t''"
        and bp = "''BUILD_TEST''" and y = "''title''" and config = example_config]; code_simp)

section \<open>A template that fails to render\<close>

text \<open>
  C9. A rendering error aborts the run and leaves the output partly built. When
  the first template that the engine fails to render raises \<open>e\<close>, and the names
  of the files before it are regular (\<open>interrupted\<close>), \<open>stage\<close> raises \<open>e\<close>, and the
  files and directories it leaves are those of the initial state with the output
  directory removed and then the writes of \<open>partial_overlay\<close>: the common files
  and the files of the template layer that are listed before that template.
\<close>

theorem stage_render_error:
  assumes "sources (cwd w) S w"
    and "build_data_dir c = None" "valid_name (build_platform c)"
      "startswith (build_platform c) ''BUILD_''"
    and "file_at (root w) (cwd w @ out_dir (build_platform c)) = None"
    and "interrupted rend config (cwd w) (build_platform c) S e"
  shows "fst (stage \<lparr>searchpath = template_root, render = rend\<rparr> config c w) = Inl e \<and>
    view_of (snd (stage \<lparr>searchpath = template_root, render = rend\<rparr> config c w)) =
      a_run (partial_overlay rend config (cwd w) (build_platform c) S)
        (a_clear (cwd w @ out_dir (build_platform c)) (view_of w))"
  using stage_interrupted(1,3) [OF assms] by simp

theorem stage_render_error_witness:
  "fst (stage \<lparr>searchpath = template_root, render = subst_render\<rparr> [] example_ctx
      example_world) = Inl TemplateError \<and>
   view_of (snd (stage \<lparr>searchpath = template_root, render = subst_render\<rparr> []
      example_ctx example_world)) =
     a_run (partial_overlay subst_render [] (cwd example_world) (build_platform example_ctx)
         example_sources)
       (a_clear (cwd example_world @ out_dir (build_platform example_ctx)) (view_of example_world))"
  by (rule stage_render_error; code_simp)

text \<open>
  C15. After such a run a path at or below the output directory that is not a
  destination of those writes holds no file: the files of the build before are
  gone, and the rest of the template layer and the device-specific layer are
  not there.
\<close>

theorem stage_render_error_leaves_part:
  assumes "sources (cwd w) S w"
    and "build_data_dir c = None" "valid_name (build_platform c)"
      "startswith (build_platform c) ''BUILD_''"
    and "file_at (root w) (cwd w @ out_dir (build_platform c)) = None"
    and "interrupted rend config (cwd w) (build_platform c) S e"
    and "prefix (cwd w @ out_dir (build_platform c)) q"
    and "q \<notin> set (map fst (partial_overlay rend config (cwd w) (build_platform c) S))"
  shows "file_at (root (snd (stage \<lparr>searchpath = template_root, render = rend\<rparr> config c w))) q =
    None"
proof -
  have "file_at (root (snd (stage \<lparr>searchpath = template_root, render = rend\<rparr> config c w))) =
      fst (a_run (partial_overlay rend config (cwd w) (build_platform c) S)
        (a_clear (cwd w @ out_dir (build_platform c)) (view_of w)))"
    using stage_interrupted(3) [OF assms(1-6)] view_of_simps(1) by metis
  with assms(7,8) show ?thesis by (simp add: a_run_files_other)
qed

theorem stage_render_error_leaves_part_witness:
  "file_at (root (snd (stage \<lparr>searchpath = template_root, render = subst_render\<rparr> []
      example_ctx example_world))) [''proj'', ''data'', ''BUILD_TEST'', ''style.css''] = None"
  by (rule stage_render_error_leaves_part [where S = example_sources and e = TemplateError];
      code_simp)

section \<open>The test of line 98\<close>

text \<open>
  C23. The test \<^verbatim>\<open>filename != '.keep'\<close> of line 98 never fails: every name that the
  listing of the device-specific layer yields starts with the prefix of the
  layer, and so differs from the bare name \<^verbatim>\<open>.keep\<close>. (A placeholder file
  \<^verbatim>\<open>.keep\<close> is still not copied, because \<^verbatim>\<open>glob\<close> does not list names that start
  with a dot.)
\<close>

theorem keep_test_never_fails:
  assumes "wf_world w" "valid_name (build_platform c)"
    and "f \<in> set (iglob_recursive w (dev_specific_prefix c))"
  shows "f \<noteq> ''.keep''"
proof -
  have "iglob_recursive w (dev_specific_prefix c) =
      map (listed (source_root @ [''device_specific'', build_platform c]))
        (glob_paths (root w) (cwd w @ source_root @ [''device_specific'', build_platform c]))"
    unfolding dev_specific_prefix_layer [OF assms(2)] layer_prefix_def
    using assms(1,2) by (intro iglob_recursive_names) simp_all
  with assms(3) show ?thesis by (auto simp: listed_not_keep)
qed

theorem keep_test_never_fails_witness:
  "''data/webui/device_specific/BUILD_TEST/logo.bin'' \<noteq> ''.keep''"
  by (rule keep_test_never_fails [where w = example_world and c = example_ctx]; code_simp)

end
